(* ===== verification/Prelude.thy ===== *)
theory Prelude
  imports Main "HOL-Library.Word"
begin

unbundle bit_operations_syntax

text \<open>
  Shared vocabulary of the development: machine types, the decoder monad used by every
  byte-level component, the decode errors of
  \<^verbatim>\<open>src/src/core/compiler/wasm/errors.go\<close>, and generic facts on words and lists.

  The collections \<open>cursor_rules\<close> (introduction rules for the cursor contract), \<open>result_rules\<close>
  (the same for the values decoders return),
  \<open>pack_simps\<close> (accessors of packed words) and \<open>rd_simps\<close> (unfolding of the
  decoder monad) carry the component proofs.
\<close>

named_theorems cursor_rules \<open>introduction rules for the cursor contract\<close>
named_theorems result_rules \<open>introduction rules for what a decoder's results satisfy\<close>
named_theorems pack_simps \<open>accessor equations of packed words\<close>
named_theorems rd_simps \<open>unfolding equations of the decoder monad\<close>
named_theorems asm_rules \<open>introduction rules for the emission contract\<close>

section \<open>Machine types\<close>

type_synonym byte = "8 word"
type_synonym u16 = "16 word"
type_synonym u32 = "32 word"
type_synonym u64 = "64 word"

section \<open>Decode errors\<close>

text \<open>
  \<open>DecodeErrorCode\<close> of errors.go, in the order of the source.
\<close>

datatype decode_code =
    ErrIndexOutOfBounds
  | ErrMalformedLEB
  | ErrBadMagic
  | ErrBadVersion
  | ErrInvalidSection
  | ErrSectionOrder
  | ErrDuplicateSection
  | ErrSectionSizeMismatch
  | ErrInvalidType
  | ErrInvalidLimits
  | ErrInvalidImport
  | ErrInvalidExport
  | ErrInvalidInstruction
  | ErrInvalidBlockType
  | ErrInstructionNestingLimitExceeded
  | ErrInvalidModule
  | ErrLegacyExceptionHandling

text \<open>
  A decoder fails with a \<open>DecodeError\<close> (its code and byte offset), the same with the section
  fields filled in (section id, start, end), or with one of the plain errors of
  decode\_budget.go, which carry the exceeded limit.
\<close>

datatype decode_error =
    DecodeError decode_code nat
  | DecodeErrorIn decode_code nat byte nat nat
  | MetadataLimitExceeded u64 nat
  | TypeCountLimitExceeded u64
  | GroupCountLimitExceeded u64

section \<open>The decoder monad\<close>

text \<open>
  A decoder method takes the cursor and returns a result or an error together with the
  cursor it leaves behind. The cursor is returned on the error path too: the Go methods
  mutate their receiver before they fail, and callers read it afterwards.
\<close>

type_synonym ('s, 'a) rd = "'s \<Rightarrow> (decode_error + 'a) \<times> 's"

definition returnR :: "'a \<Rightarrow> ('s, 'a) rd" where
  "returnR x = (\<lambda>r. (Inr x, r))"

definition failR :: "('s \<Rightarrow> decode_error) \<Rightarrow> ('s, 'a) rd" where
  "failR e = (\<lambda>r. (Inl (e r), r))"

definition bindR :: "('s, 'a) rd \<Rightarrow> ('a \<Rightarrow> ('s, 'b) rd) \<Rightarrow> ('s, 'b) rd" where
  "bindR m f = (\<lambda>r. case m r of (Inl e, r') \<Rightarrow> (Inl e, r') | (Inr x, r') \<Rightarrow> f x r')"

definition mapR :: "('a \<Rightarrow> 'b) \<Rightarrow> ('s, 'a) rd \<Rightarrow> ('s, 'b) rd" where
  "mapR f m = bindR m (\<lambda>x. returnR (f x))"

text \<open>A counted loop: the Go \<open>for i := 0; i < n; i++\<close> that collects its results.\<close>

fun repeatR :: "nat \<Rightarrow> ('s, 'a) rd \<Rightarrow> ('s, 'a list) rd" where
  "repeatR 0 m = returnR []"
| "repeatR (Suc n) m = bindR m (\<lambda>x. bindR (repeatR n m) (\<lambda>xs. returnR (x # xs)))"

text \<open>The same loop threading an accumulator instead of collecting.\<close>

fun iterR :: "nat \<Rightarrow> ('b \<Rightarrow> ('s, 'b) rd) \<Rightarrow> 'b \<Rightarrow> ('s, 'b) rd" where
  "iterR 0 m a = returnR a"
| "iterR (Suc n) m a = bindR (m a) (iterR n m)"

lemma returnR_apply [simp, rd_simps]: "returnR x r = (Inr x, r)"
  by (simp add: returnR_def)

lemma failR_apply [simp, rd_simps]: "failR e r = (Inl (e r), r)"
  by (simp add: failR_def)

lemma bindR_Inr: "m r = (Inr x, r') \<Longrightarrow> bindR m f r = f x r'"
  by (simp add: bindR_def)

lemma bindR_Inl: "m r = (Inl e, r') \<Longrightarrow> bindR m f r = (Inl e, r')"
  by (simp add: bindR_def)

lemma bindR_return [simp]: "bindR (returnR x) f = f x"
  by (rule ext) (simp add: bindR_def)

lemma bindR_assoc: "bindR (bindR m f) g = bindR m (\<lambda>x. bindR (f x) g)"
  by (rule ext) (simp add: bindR_def split: prod.splits sum.splits)

lemma bindR_eq_Inr:
  "bindR m f r = (Inr y, r'') \<longleftrightarrow> (\<exists>x r'. m r = (Inr x, r') \<and> f x r' = (Inr y, r''))"
  by (auto simp: bindR_def split: prod.splits sum.splits)

lemma bindR_Inr_cases:
  assumes "bindR m f r = (Inr y, r'')"
  obtains x r' where "m r = (Inr x, r')" "f x r' = (Inr y, r'')"
  using assms by (auto simp: bindR_eq_Inr)

lemma mapR_eq_Inr: "mapR f m r = (Inr y, r') \<longleftrightarrow> (\<exists>x. m r = (Inr x, r') \<and> y = f x)"
  by (auto simp: mapR_def bindR_eq_Inr)

section \<open>Words\<close>

lemma and_exp_neq_0: "(x AND 2 ^ n \<noteq> 0) = bit x n" for x :: "'a::len word"
  by (simp add: and_exp_eq_0_iff_not_bit)

lemma or_disjoint_add: "x AND y = 0 \<Longrightarrow> x OR y = x + y" for x y :: "'a::len word"
  by (simp add: disjunctive_add_eq_or)

lemma of_nat_and_push_bit_0:
  assumes "R < 2 ^ n"
  shows "(of_nat R :: 'a::len word) AND push_bit n x = 0"
proof (rule bit_eqI)
  fix k
  assume "possible_bit TYPE('a word) k"
  have "\<not> bit R k" if "n \<le> k"
  proof -
    have "R < 2 ^ k"
      using assms that by (meson order_less_le_trans power_increasing one_le_numeral)
    then show ?thesis by (simp add: bit_nat_iff bit_iff_odd)
  qed
  then show "bit ((of_nat R :: 'a word) AND push_bit n x) k = bit (0 :: 'a word) k"
    by (auto simp: bit_simps bit_of_nat_iff)
qed

lemma of_nat_or_push_bit:
  assumes "R < 2 ^ n"
  shows "(of_nat R :: 'a::len word) OR push_bit n (of_nat x) = of_nat (R + x * 2 ^ n)"
  using of_nat_and_push_bit_0 [OF assms, of "of_nat x :: 'a word"]
  by (simp add: or_disjoint_add push_bit_eq_mult)


lemma unat_u32_u64: "unat (ucast n :: u64) = unat n" for n :: u32
proof -
  have "unat n < 2 ^ 64" using unsigned_less [of n, where 'a = nat] by simp
  then show ?thesis by (simp add: unsigned_ucast_eq take_bit_nat_eq_self)
qed

section \<open>Decimal printing\<close>

text \<open>The decimal digits of a natural number, as \<open>%d\<close> and \<open>strconv\<close> print them.\<close>

definition digit_char :: "nat \<Rightarrow> char" where
  "digit_char d = char_of (48 + d)"

fun decimal :: "nat \<Rightarrow> string" where
  "decimal n = (if n < 10 then [digit_char n] else decimal (n div 10) @ [digit_char (n mod 10)])"

declare decimal.simps [simp del]

end
