(* ===== verification/Reader.thy ===== *)
theory Reader
  imports Prelude
begin

unbundle bit_operations_syntax

text \<open>
  The byte cursors of the Wasm front end: \<^verbatim>\<open>reader\<close> of
  \<^verbatim>\<open>src/src/core/compiler/wasm/reader.go\<close> with its allocation budget
  (\<^verbatim>\<open>decode_budget.go\<close>), and the exported \<^verbatim>\<open>Reader\<close> of
  \<^verbatim>\<open>reader_export.go\<close> that the back ends use, with the LEB128 encoders of
  \<^verbatim>\<open>encode.go\<close>.

  Offsets and lengths (Go \<open>int\<close>) are natural numbers: they count bytes of a slice.
  The shift counters of the LEB loops stay below 77 and are natural numbers as well.
  The accumulated value is a 64-bit word, as in the source.
\<close>

section \<open>The cursor and its budget\<close>

record DecodeLimits =
  MaxTypes :: u64
  MaxMetadataBytes :: u64

definition DefaultDecodeLimits :: DecodeLimits where
  "DefaultDecodeLimits = \<lparr>MaxTypes = 100000, MaxMetadataBytes = 256 * 2 ^ 20\<rparr>"

record decodeBudget =
  remaining :: u64
  types :: u64
  limits :: DecodeLimits

definition newDecodeBudget :: "DecodeLimits \<Rightarrow> decodeBudget" where
  "newDecodeBudget lim =
     (let lim1 = (if MaxTypes lim = 0 then lim\<lparr>MaxTypes := MaxTypes DefaultDecodeLimits\<rparr> else lim);
          lim2 = (if MaxMetadataBytes lim1 = 0
                  then lim1\<lparr>MaxMetadataBytes := MaxMetadataBytes DefaultDecodeLimits\<rparr> else lim1)
      in \<lparr>remaining = MaxMetadataBytes lim2, types = 0, limits = lim2\<rparr>)"

record reader =
  data :: "byte list"
  pos :: nat
  budget :: "decodeBudget option"

definition newReader :: "byte list \<Rightarrow> reader" where
  "newReader d = \<lparr>data = d, pos = 0, budget = None\<rparr>"

definition r_reset :: "byte list \<Rightarrow> reader \<Rightarrow> reader" where
  "r_reset d r = r\<lparr>data := d, pos := 0\<rparr>"

definition r_left :: "reader \<Rightarrow> nat" where
  "r_left r = length (data r) - pos r"

definition r_has :: "reader \<Rightarrow> bool" where
  "r_has r = (r_left r > 0)"

definition r_peek :: "reader \<Rightarrow> byte option" where
  "r_peek r = (if pos r \<ge> length (data r) then None else Some (data r ! pos r))"

definition r_byte :: "(reader, byte) rd" where
  "r_byte r =
     (if pos r \<ge> length (data r) then (Inl (DecodeError ErrIndexOutOfBounds (pos r)), r)
      else (Inr (data r ! pos r), r\<lparr>pos := pos r + 1\<rparr>))"

definition r_bytes :: "nat \<Rightarrow> (reader, byte list) rd" where
  "r_bytes n r =
     (if n > length (data r) - pos r then (Inl (DecodeError ErrIndexOutOfBounds (pos r)), r)
      else (Inr (take n (drop (pos r) (data r))), r\<lparr>pos := pos r + n\<rparr>))"

text \<open>\<open>binary.LittleEndian\<close>: the value of a byte string, least significant byte first.\<close>

fun le_value :: "byte list \<Rightarrow> nat" where
  "le_value [] = 0"
| "le_value (b # bs) = unat b + 256 * le_value bs"

definition r_le32 :: "(reader, u32) rd" where
  "r_le32 = bindR (r_bytes 4) (\<lambda>b. returnR (of_nat (le_value b)))"

definition r_le64 :: "(reader, u64) rd" where
  "r_le64 = bindR (r_bytes 8) (\<lambda>b. returnR (of_nat (le_value b)))"

section \<open>LEB128: the internal decoder\<close>

definition leb_tail_ok :: "bool \<Rightarrow> nat \<Rightarrow> nat \<Rightarrow> byte \<Rightarrow> bool" where
  "leb_tail_ok sgd maxBits shift b =
     (if shift > maxBits then
        (let extra = shift - maxBits; used = 7 - extra;
             mask = (ucast (push_bit used ((push_bit extra 1 :: u16) - 1)) :: byte)
         in if sgd \<and> b AND push_bit (used - 1) 1 \<noteq> 0 then b AND mask = mask
            else b AND mask = 0)
      else True)"

function leb_loop :: "bool \<Rightarrow> nat \<Rightarrow> nat \<Rightarrow> u64 \<Rightarrow> nat \<Rightarrow> (reader, u64) rd" where
  "leb_loop sgd maxBits i result shift r =
     (if i \<ge> (maxBits + 6) div 7 then (Inl (DecodeError ErrMalformedLEB (pos r)), r)
      else
        (case r_byte r of
           (Inl e, r1) \<Rightarrow> (Inl e, r1)
         | (Inr b, r1) \<Rightarrow>
             if shift \<ge> 64 \<and> b AND 0x7f \<noteq> 0 then (Inl (DecodeError ErrMalformedLEB (pos r1)), r1)
             else
               (let result1 = (if shift < 64 then result OR push_bit shift (ucast (b AND 0x7f)) else result);
                    shift1 = shift + 7
                in if b AND 0x80 = 0 then
                     (if \<not> leb_tail_ok sgd maxBits shift1 b
                      then (Inl (DecodeError ErrMalformedLEB (pos r1)), r1)
                      else (Inr (if sgd \<and> shift1 < 64 \<and> b AND 0x40 \<noteq> 0
                                 then result1 OR push_bit shift1 (NOT 0) else result1), r1))
                   else if shift1 \<ge> maxBits + 7 then (Inl (DecodeError ErrMalformedLEB (pos r1)), r1)
                   else leb_loop sgd maxBits (i + 1) result1 shift1 r1)))"
  by pat_completeness auto
termination
  by (relation "measure (\<lambda>(s, m, i, _, _, _). (m + 6) div 7 - i)") auto

declare leb_loop.simps [simp del]

definition r_leb :: "bool \<Rightarrow> nat \<Rightarrow> (reader, u64) rd" where
  "r_leb sgd maxBits r = leb_loop sgd maxBits 0 0 0 r"

text \<open>The one-byte fast path that \<open>u32\<close> and \<open>i32\<close> try before the loop.\<close>

definition r_u32 :: "(reader, u32) rd" where
  "r_u32 r =
     (case r_peek r of
        Some b \<Rightarrow> if b < 0x80 then (Inr (ucast b), r\<lparr>pos := pos r + 1\<rparr>)
                  else mapR ucast (r_leb False 32) r
      | None \<Rightarrow> mapR ucast (r_leb False 32) r)"

definition r_u33 :: "(reader, u64) rd" where "r_u33 = r_leb False 33"

definition r_u64 :: "(reader, u64) rd" where "r_u64 = r_leb False 64"

definition r_s33 :: "(reader, u64) rd" where "r_s33 = r_leb True 33"

definition r_i32 :: "(reader, u32) rd" where
  "r_i32 r =
     (case r_peek r of
        Some b \<Rightarrow> if b < 0x80
                  then (Inr (if b AND 0x40 \<noteq> 0 then ucast b OR NOT 0x7f else ucast b), r\<lparr>pos := pos r + 1\<rparr>)
                  else mapR ucast (r_leb True 32) r
      | None \<Rightarrow> mapR ucast (r_leb True 32) r)"

definition r_i64 :: "(reader, u64) rd" where "r_i64 = r_leb True 64"

section \<open>LEB128: the exported decoder\<close>

record Reader =
  xdata :: "byte list"
  xpos :: nat

definition NewReader :: "byte list \<Rightarrow> Reader" where
  "NewReader d = \<lparr>xdata = d, xpos = 0\<rparr>"

definition BytesLeft :: "Reader \<Rightarrow> nat" where
  "BytesLeft r = length (xdata r) - xpos r"

definition HasNext :: "Reader \<Rightarrow> bool" where
  "HasNext r = (BytesLeft r > 0)"

definition JumpTo :: "int \<Rightarrow> (Reader, unit) rd" where
  "JumpTo p r =
     (if p < 0 \<or> p > int (length (xdata r)) then (Inl (DecodeError ErrIndexOutOfBounds (xpos r)), r)
      else (Inr (), r\<lparr>xpos := nat p\<rparr>))"

definition Step :: "int \<Rightarrow> (Reader, unit) rd" where
  "Step count r = JumpTo (int (xpos r) + count) r"

definition R_Byte :: "(Reader, byte) rd" where
  "R_Byte r =
     (if xpos r \<ge> length (xdata r) then (Inl (DecodeError ErrIndexOutOfBounds (xpos r)), r)
      else (Inr (xdata r ! xpos r), r\<lparr>xpos := xpos r + 1\<rparr>))"

definition R_Peek :: "Reader \<Rightarrow> byte option" where
  "R_Peek r = (if xpos r \<ge> length (xdata r) then None else Some (xdata r ! xpos r))"

definition R_Bytes :: "int \<Rightarrow> (Reader, byte list) rd" where
  "R_Bytes n r =
     (case Step n r of
        (Inl e, r1) \<Rightarrow> (Inl e, r1)
      | (Inr _, r1) \<Rightarrow> (Inr (take (xpos r1 - xpos r) (drop (xpos r) (xdata r1))), r1))"

definition R_LEU32 :: "(Reader, u32) rd" where
  "R_LEU32 r =
     (case Step 4 r of
        (Inl e, r1) \<Rightarrow> (Inl e, r1)
      | (Inr _, r1) \<Rightarrow> (Inr (of_nat (le_value (take 4 (drop (xpos r) (xdata r1))))), r1))"

definition R_LEU64 :: "(Reader, u64) rd" where
  "R_LEU64 r =
     (case Step 8 r of
        (Inl e, r1) \<Rightarrow> (Inl e, r1)
      | (Inr _, r1) \<Rightarrow> (Inr (of_nat (le_value (take 8 (drop (xpos r) (xdata r1))))), r1))"

definition leb128_tail_ok :: "bool \<Rightarrow> nat \<Rightarrow> nat \<Rightarrow> byte \<Rightarrow> bool" where
  "leb128_tail_ok signedInt maxBits bitsWritten b =
     (if bitsWritten > maxBits then
        (let over = bitsWritten - maxBits;
             bitMask = push_bit ((6 - over) + 1) (0xFF :: u32) AND 0x7F
         in if signedInt \<and> (ucast b :: u32) AND push_bit (6 - over) 1 \<noteq> 0
            then (ucast b :: u32) AND bitMask = bitMask
            else (ucast b :: u32) AND bitMask = 0)
      else True)"

text \<open>
  One iteration runs while the previous byte has its continuation bit set; the loop is
  entered with the byte 0xFF. Each iteration consumes one byte or returns, so the bytes
  left bound the recursion.
\<close>

function leb128_loop :: "bool \<Rightarrow> nat \<Rightarrow> u64 \<Rightarrow> nat \<Rightarrow> (Reader, u64) rd" where
  "leb128_loop signedInt maxBits result bitsWritten r =
     (case R_Byte r of
        (Inl e, r1) \<Rightarrow> (Inl e, r1)
      | (Inr b, r1) \<Rightarrow>
          if bitsWritten \<ge> maxBits then (Inl (DecodeError ErrMalformedLEB (xpos r1)), r1)
          else
            (let result1 = result OR push_bit bitsWritten (ucast ((ucast b :: u32) AND 0x7F));
                 bits1 = bitsWritten + 7
             in if \<not> leb128_tail_ok signedInt maxBits bits1 b
                then (Inl (DecodeError ErrMalformedLEB (xpos r1)), r1)
                else if (ucast b :: u32) AND 0x80 \<noteq> 0
                then leb128_loop signedInt maxBits result1 bits1 r1
                else (Inr (if signedInt \<and> (ucast b :: u32) AND 0x40 \<noteq> 0 \<and> bits1 < 64
                           then result1 OR push_bit bits1 (NOT 0) else result1), r1)))"
  by pat_completeness auto
termination
  by (relation "measure (\<lambda>(_, _, _, _, r). length (xdata r) - xpos r)")
     (auto simp: R_Byte_def split: if_splits)

declare leb128_loop.simps [simp del]

definition R_leb128 :: "bool \<Rightarrow> nat \<Rightarrow> (Reader, u64) rd" where
  "R_leb128 signedInt maxBits r = leb128_loop signedInt maxBits 0 0 r"

definition R_U32 :: "(Reader, u32) rd" where
  "R_U32 r =
     (case R_Peek r of
        Some b \<Rightarrow> if b < 0x80 then (Inr (ucast b), r\<lparr>xpos := xpos r + 1\<rparr>)
                  else mapR ucast (R_leb128 False 32) r
      | None \<Rightarrow> mapR ucast (R_leb128 False 32) r)"

definition R_U64 :: "(Reader, u64) rd" where "R_U64 = R_leb128 False 64"

definition R_S33 :: "(Reader, u64) rd" where "R_S33 = R_leb128 True 33"

definition R_I32 :: "(Reader, u32) rd" where
  "R_I32 r =
     (case R_Peek r of
        Some b \<Rightarrow> if b < 0x80
                  then (Inr (if b AND 0x40 \<noteq> 0 then ucast b OR NOT 0x7f else ucast b), r\<lparr>xpos := xpos r + 1\<rparr>)
                  else mapR ucast (R_leb128 True 32) r
      | None \<Rightarrow> mapR ucast (R_leb128 True 32) r)"

definition R_I64 :: "(Reader, u64) rd" where "R_I64 = R_leb128 True 64"

definition RefHeapType :: "(Reader, bool \<times> u64) rd" where
  "RefHeapType r =
     (case R_Peek r of
        Some b \<Rightarrow> if b = 0x62
                  then mapR (\<lambda>h. (True, h)) R_S33 (snd (R_Byte r))
                  else mapR (\<lambda>h. (False, h)) R_S33 r
      | None \<Rightarrow> mapR (\<lambda>h. (False, h)) R_S33 r)"

fun SkipU32N :: "nat \<Rightarrow> (Reader, unit) rd" where
  "SkipU32N 0 = returnR ()"
| "SkipU32N (Suc n) = bindR R_U32 (\<lambda>_. SkipU32N n)"

section \<open>LEB128: the encoders\<close>

lemma unat_drop7: "unat (drop_bit 7 v) = unat v div 128" for v :: "'a::len word"
  by (simp only: unat_drop_bit_eq) (simp add: drop_bit_eq_div)

lemma unat_drop_bit_less: "drop_bit 7 v \<noteq> 0 \<Longrightarrow> unat (drop_bit 7 v) < unat v" for v :: "'a::len word"
proof -
  assume "drop_bit 7 v \<noteq> 0"
  then have "v \<noteq> 0" by auto
  then have "0 < unat v" by (simp add: unat_gt_0)
  then show ?thesis by (simp only: unat_drop7)
qed

function appendU32 :: "u32 \<Rightarrow> byte list" where
  "appendU32 v =
     (let b = (ucast (v AND 0x7f) :: byte); v1 = drop_bit 7 v
      in if v1 = 0 then [b] else (b OR 0x80) # appendU32 v1)"
  by pat_completeness auto
termination
  by (relation "measure unat") (auto simp: unat_drop_bit_less)

declare appendU32.simps [simp del]

text \<open>
  \<open>appendS64\<close> takes a signed 64-bit value; the shift is arithmetic. The loop ends when the
  remaining value is the sign extension of the byte just written.
\<close>

lemma sint_sdrop7: "sint (signed_drop_bit 7 v) = sint v div 128" for v :: u64
  by (simp add: sint_signed_drop_bit_eq drop_bit_eq_div)

lemma bit6_iff: "(ucast (v AND 0x7f) :: byte) AND 0x40 \<noteq> 0 \<longleftrightarrow> bit v 6" for v :: u64
  using and_exp_neq_0 [of "ucast (v AND 0x7f) :: byte" 6]
  by (simp add: bit_simps)

lemma appendS64_decreases:
  fixes v :: u64
  assumes "\<not> ((signed_drop_bit 7 v = 0 \<and> \<not> sg) \<or> (signed_drop_bit 7 v = - 1 \<and> sg))"
    and "sg \<longleftrightarrow> (ucast (v AND 0x7f) :: byte) AND 0x40 \<noteq> 0"
  shows "nat \<bar>sint (signed_drop_bit 7 v)\<bar> < nat \<bar>sint v\<bar>"
proof -
  have "v \<noteq> 0" "v \<noteq> - 1"
    using assms by auto
  then have "sint v \<noteq> sint (0 :: u64)" "sint v \<noteq> sint (- 1 :: u64)"
    by (blast dest: signed_word_eqI)+
  then have "sint v \<noteq> 0" "sint v \<noteq> - 1"
    by simp_all
  then show ?thesis
    unfolding sint_sdrop7 by linarith
qed

function appendS64 :: "u64 \<Rightarrow> byte list" where
  "appendS64 v =
     (let b = (ucast (v AND 0x7f) :: byte); v1 = signed_drop_bit 7 v;
          sg = (b AND 0x40 \<noteq> 0);
          more = (\<not> ((v1 = 0 \<and> \<not> sg) \<or> (v1 = - 1 \<and> sg)))
      in if more then (b OR 0x80) # appendS64 v1 else [b])"
  by pat_completeness auto
termination
  by (relation "measure (\<lambda>v. nat \<bar>sint v\<bar>)") (simp, simp only: in_measure, rule appendS64_decreases, simp_all)

declare appendS64.simps [simp del]

definition appendS32 :: "u32 \<Rightarrow> byte list" where
  "appendS32 v = appendS64 (scast v)"

end
