(* ===== verification/Leb.thy ===== *)
theory Leb
  imports Reader
begin

unbundle bit_operations_syntax

text \<open>
  What the two LEB128 decoders compute. An LEB128 group is a maximal run of bytes with the
  continuation bit set followed by one byte without it; its value is the little-endian
  base-128 number, sign-extended from bit 6 of the last byte for signed reads. The
  specification \<open>leb_spec\<close> accepts exactly the groups of at most
  \<open>\<lceil>maxBits / 7\<rceil>\<close> bytes whose value fits in \<open>maxBits\<close> bits.

  The locale \<open>leb_decoder\<close> is the contract the front end relies on. It is interpreted on
  \<open>reader.leb\<close> and on \<open>Reader.leb128\<close>.
\<close>

section \<open>The value of an LEB128 group\<close>

fun leb_prefix :: "byte list \<Rightarrow> byte list option" where
  "leb_prefix [] = None"
| "leb_prefix (b # bs) = (if b < 0x80 then Some [b] else map_option ((#) b) (leb_prefix bs))"

fun uleb_value :: "byte list \<Rightarrow> nat" where
  "uleb_value [] = 0"
| "uleb_value (b # bs) = unat (b AND 0x7f) + 128 * uleb_value bs"

definition leb_value :: "bool \<Rightarrow> byte list \<Rightarrow> int" where
  "leb_value sgd bs =
     int (uleb_value bs) - (if sgd \<and> bit (last bs) 6 then 128 ^ length bs else 0)"

definition leb_in_range :: "bool \<Rightarrow> nat \<Rightarrow> int \<Rightarrow> bool" where
  "leb_in_range sgd maxBits z =
     (if sgd then - (2 ^ (maxBits - 1)) \<le> z \<and> z < 2 ^ (maxBits - 1) else 0 \<le> z \<and> z < 2 ^ maxBits)"

definition leb_spec :: "bool \<Rightarrow> nat \<Rightarrow> byte list \<Rightarrow> (u64 \<times> nat) option" where
  "leb_spec sgd maxBits bs =
     (case leb_prefix bs of
        None \<Rightarrow> None
      | Some g \<Rightarrow> if length g \<le> (maxBits + 6) div 7 \<and> leb_in_range sgd maxBits (leb_value sgd g)
                  then Some (word_of_int (leb_value sgd g), length g) else None)"

lemma leb_prefix_not_Nil: "leb_prefix bs \<noteq> Some []"
  by (cases bs) (auto)

lemma leb_value_Cons:
  "g \<noteq> [] \<Longrightarrow> leb_value sgd (b # g) = int (unat (b AND 0x7f)) + 128 * leb_value sgd g"
  by (simp add: leb_value_def algebra_simps)

section \<open>The check on the last byte\<close>

definition tail_range :: "bool \<Rightarrow> nat \<Rightarrow> nat \<Rightarrow> bool" where
  "tail_range sgd used x =
     (if sgd then x < 2 ^ (used - 1) \<or> 128 - 2 ^ (used - 1) \<le> x else x < 2 ^ used)"

lemma and_push_mask:
  "x AND push_bit u (mask m) = push_bit u (take_bit m (drop_bit u x))" for x :: "'a::len word"
  by (rule bit_word_eqI) (auto simp: bit_simps dest: bit_imp_le_length)

lemma unat_and_tail:
  assumes "u + m \<le> 7" 
  shows "unat ((b::byte) AND push_bit u (mask m)) = 2 ^ u * ((unat b div 2 ^ u) mod 2 ^ m)"
proof -
  have "2 ^ u * (unat b div 2 ^ u mod 2 ^ m) < 2 ^ u * (2 ^ m :: nat)" by simp
  also have "\<dots> = 2 ^ (u + m)" by (simp add: power_add)
  also have "\<dots> \<le> 2 ^ 7" using assms by (rule power_increasing) simp
  finally have l: "2 ^ u * (unat b div 2 ^ u mod 2 ^ m) < (2::nat) ^ 8" by simp
  have d: "unat (drop_bit u b) = unat b div 2 ^ u"
    by (simp only: unat_drop_bit_eq) (simp add: drop_bit_eq_div)
  have "unat (push_bit u (take_bit m (drop_bit u b)))
      = take_bit 8 (push_bit u (unat (take_bit m (drop_bit u b))))"
    by (simp only: unsigned_push_bit_eq) simp
  also have "unat (take_bit m (drop_bit u b)) = take_bit m (unat b div 2 ^ u)"
    by (simp only: unsigned_take_bit_eq d)
  finally show ?thesis
    using l unfolding and_push_mask by (simp add: push_bit_eq_mult take_bit_eq_mod mult.commute)
qed

lemma and_tail_eq:
  assumes "u + m \<le> 7"
  shows "((b::byte) AND push_bit u (mask m) = c) = (2 ^ u * ((unat b div 2 ^ u) mod 2 ^ m) = unat c)"
  using unat_and_tail [OF assms, of b] by (metis unsigned_word_eqI)

lemma used_cases: "1 \<le> u \<Longrightarrow> u < 7 \<Longrightarrow> u = 1 \<or> u = 2 \<or> u = 3 \<or> u = 4 \<or> u = 5 \<or> u = (6::nat)"
  by arith



lemma signed_tail_nat:
  assumes "1 \<le> u" "u < 7" "x < 128"
  shows "(if odd (x div 2 ^ (u - 1)) then x div 2 ^ u = 2 ^ (7 - u) - 1 else x div 2 ^ u = 0)
       = (x < 2 ^ (u - 1) \<or> 128 - 2 ^ (u - 1) \<le> (x::nat))"
proof -
  define q where "q = x div 2 ^ (u - 1)"
  define H where "H = (2::nat) ^ (7 - u)"
  have u: "u = Suc (u - 1)" using assms by simp
  have xu: "x div 2 ^ u = q div 2"
    unfolding q_def by (subst u) (simp only: power_Suc2 div_mult2_eq)
  have HH: "2 ^ (u - 1) * (2 * H) = 128"
    using used_cases [OF assms(1,2)] by (auto simp: H_def)
  then have c: "128 - 2 ^ (u - 1) = 2 ^ (u - 1) * (2 * H - 1)"
    by (simp only: right_diff_distrib' mult_1_right)
  have "q < 2 * H"
    unfolding q_def using assms(3) HH by (metis less_mult_imp_div_less mult.commute)
  moreover have "H \<ge> 1" by (simp add: H_def)
  moreover have "x < 2 ^ (u - 1) \<longleftrightarrow> q = 0"
    unfolding q_def by (simp add: div_eq_0_iff)
  moreover have "128 - 2 ^ (u - 1) \<le> x \<longleftrightarrow> 2 * H - 1 \<le> q"
    unfolding q_def c by (simp add: less_eq_div_iff_mult_less_eq mult.commute)
  moreover have "(if odd q then q div 2 = H - 1 else q div 2 = 0) = (q = 0 \<or> 2 * H - 1 \<le> q)"
    if "q < 2 * H" "H \<ge> 1"
    using that by (cases "odd q") (auto elim!: oddE evenE)
  ultimately show ?thesis
    unfolding xu H_def [symmetric] q_def [symmetric] by simp
qed

lemma leb_mask_eq:
  assumes "1 \<le> u" "u < 7"
  shows "ucast (push_bit u ((2 ^ (7 - u) :: u16) - 1)) = (push_bit u (mask (7 - u)) :: byte)"
    and "push_bit ((6 - (7 - u)) + 1) (0xFF :: u32) AND 0x7F = ucast (push_bit u (mask (7 - u)) :: byte)"
  using used_cases [OF assms] by (auto simp: mask_eq_exp_minus_1)

lemma unat_mask_tail:
  assumes "1 \<le> u" "u < 7"
  shows "unat (push_bit u (mask (7 - u)) :: byte) = 2 ^ u * (2 ^ (7 - u) - 1)"
  using used_cases [OF assms] by (auto simp: mask_eq_exp_minus_1)

lemma odd_bit: "(b AND 2 ^ k \<noteq> 0) = odd (unat b div 2 ^ k)" for b :: byte
proof -
  have "bit (unat b) k = bit b k" by (simp add: bit_unsigned_iff)
  then show ?thesis by (simp only: and_exp_neq_0 bit_iff_odd [of "unat b"])
qed

lemma tail_mask_eq:
  fixes b :: byte
  assumes "1 \<le> u" "u < 7" "unat b < 128"
  shows "(b AND push_bit u (mask (7 - u)) = 0) = (unat b div 2 ^ u = 0)"
    and "(b AND push_bit u (mask (7 - u)) = push_bit u (mask (7 - u))) = (unat b div 2 ^ u = 2 ^ (7 - u) - 1)"
proof -
  have "unat b < 2 ^ (7 - u) * 2 ^ u"
    using assms by (simp flip: power_add)
  then have m: "unat b div 2 ^ u mod 2 ^ (7 - u) = unat b div 2 ^ u"
    by (simp add: less_mult_imp_div_less)
  have e: "u + (7 - u) \<le> 7" using assms by simp
  show "(b AND push_bit u (mask (7 - u)) = 0) = (unat b div 2 ^ u = 0)"
    using and_tail_eq [OF e, of b 0] unfolding m by (simp only: unat_0 mult_eq_0_iff) simp
  show "(b AND push_bit u (mask (7 - u)) = push_bit u (mask (7 - u))) = (unat b div 2 ^ u = 2 ^ (7 - u) - 1)"
    using and_tail_eq [OF e, of b "push_bit u (mask (7 - u))"]
    unfolding m unat_mask_tail [OF assms(1,2)] by (simp only:) simp
qed

lemma tail_ok_7:
  assumes "1 \<le> u" "u < 7" "unat b < 128"
  shows "leb_tail_ok sgd u 7 b = tail_range sgd u (unat b)"
proof -
  have "7 - (7 - u) = u" using assms by simp
  then have "leb_tail_ok sgd u 7 b =
      (if sgd \<and> odd (unat b div 2 ^ (u - 1)) then unat b div 2 ^ u = 2 ^ (7 - u) - 1 else unat b div 2 ^ u = 0)"
    using assms(2)
    unfolding leb_tail_ok_def Let_def by (simp only: leb_mask_eq(1) [OF assms(1,2)] tail_mask_eq [OF assms] push_bit_of_1 odd_bit if_True)
  then show ?thesis
    using signed_tail_nat [OF assms] by (cases sgd) (simp_all add: tail_range_def div_eq_0_iff)
qed

lemma ucast_and_eq: "((ucast b :: u32) AND ucast c = ucast d) = (b AND c = d)" for b c d :: byte
proof -
  have "(ucast b :: u32) AND ucast c = ucast (b AND c)"
    by (simp add: unsigned_and_eq)
  moreover have "(ucast (b AND c) :: u32) = ucast d \<Longrightarrow> b AND c = d"
    by (drule arg_cong [where f = "ucast :: u32 \<Rightarrow> byte"]) (simp add: ucast_up_ucast_id is_up)
  ultimately show ?thesis by auto
qed

lemma tail128_ok_7:
  assumes "1 \<le> u" "u < 7" "unat b < 128"
  shows "leb128_tail_ok sgd u 7 b = leb_tail_ok sgd u 7 b"
proof -
  have u: "7 - (7 - u) = u" "6 - (7 - u) = u - 1" "(u - 1) + 1 = u" using assms by auto
  have p: "push_bit (u - 1) (1 :: u32) = ucast (push_bit (u - 1) 1 :: byte)"
    using used_cases [OF assms(1,2)] by auto
  let ?M = "push_bit u (mask (7 - u)) :: byte"
  have m: "push_bit u (0xFF :: u32) AND 0x7F = ucast ?M"
    using leb_mask_eq(2) [OF assms(1,2)] unfolding u .
  have "((ucast b :: u32) AND ucast c \<noteq> 0) = (b AND c \<noteq> 0)" for c :: byte
    using ucast_and_eq [of b c 0] by simp
  then show ?thesis
    using assms(2) unfolding leb128_tail_ok_def leb_tail_ok_def Let_def u p m
    by (simp only: ucast_and_eq leb_mask_eq(1) [OF assms(1,2), folded push_bit_of_1])  auto
qed

section \<open>One byte of the loop\<close>

lemma unat_byte_less: "unat (b::byte) < 256"
  using unsigned_less [of b, where 'a = nat] by simp

lemma cont_bit: "(b AND 0x80 = 0) = (b < 0x80)" for b :: byte
proof -
  have "(b AND 2 ^ 7 \<noteq> 0) = odd (unat b div 2 ^ 7)" by (rule odd_bit)
  moreover have "unat b div 128 = 0 \<or> unat b div 128 = 1"
    using unat_byte_less [of b] by linarith
  ultimately have "(b AND 0x80 = 0) = (unat b div 128 = 0)" by auto
  then show ?thesis by (simp add: word_less_nat_alt div_eq_0_iff)
qed

lemma unat_low7: "unat (b AND 0x7f) = unat b mod 128" for b :: byte
proof -
  have "b AND 0x7f = take_bit 7 b" by (simp add: take_bit_eq_mask mask_eq_exp_minus_1)
  then have "unat (b AND 0x7f) = take_bit 7 (unat b)" by (simp only: unsigned_take_bit_eq)
  then show ?thesis by (simp add: take_bit_eq_mod)
qed

lemma bit6_byte: "bit b 6 = (64 \<le> unat b mod 128)" for b :: byte
proof -
  have "bit b 6 = odd (unat b div 64)"
    using odd_bit [of b 6] and_exp_neq_0 [of b 6] by simp
  moreover have "unat b mod 128 = 64 * (unat b div 64 mod 2) + unat b mod 64"
    using mod_mult2_eq [of "unat b" 64 2] by simp
  moreover have "unat b mod 64 < 64" by simp
  ultimately show ?thesis
    by (cases "odd (unat b div 64)") (auto simp: odd_iff_mod_2_eq_one)
qed

lemma acc_step:
  assumes "R < 128 ^ i"
  shows "(of_nat R :: u64) OR push_bit (7 * i) (ucast (b AND 0x7f :: byte)) =
         of_nat (R + unat (b AND 0x7f) * 128 ^ i)"
proof -
  have p: "(128::nat) ^ i = 2 ^ (7 * i)" by (simp add: power_mult)
  show ?thesis
    using of_nat_or_push_bit [of R "7 * i" "unat (b AND 0x7f)", where 'a = 64] assms
    unfolding p by simp
qed

lemma acc_bound:
  assumes "R < 128 ^ i"
  shows "R + unat (b AND 0x7f :: byte) * 128 ^ i < 128 ^ Suc i"
proof -
  have "unat (b AND 0x7f) \<le> 127" by (simp add: unat_low7)
  then have "unat (b AND 0x7f) * 128 ^ i \<le> 127 * 128 ^ i" by (rule mult_right_mono) simp
  moreover have "128 ^ Suc i = 127 * 128 ^ i + (128::nat) ^ i" by simp
  ultimately show ?thesis using assms by linarith
qed

text \<open>The sign extension of the accumulated value; at 70 bits it is a no-op on 64-bit words.\<close>

lemma sign_extend:
  assumes "R < 128 ^ n"
  shows "(if 7 * n < 64 then (of_nat R :: u64) OR push_bit (7 * n) (NOT 0) else of_nat R) =
         word_of_int (int R - 128 ^ n)"
proof (cases "7 * n < 64")
  case True
  have p: "(128::nat) ^ n = 2 ^ (7 * n)" by (simp add: power_mult)
  have "(of_nat R :: u64) AND push_bit (7 * n) (NOT 0) = 0"
    using assms unfolding p by (rule of_nat_and_push_bit_0)
  then have "(of_nat R :: u64) OR push_bit (7 * n) (NOT 0) = of_nat R + push_bit (7 * n) (NOT 0)"
    by (rule or_disjoint_add)
  moreover have "push_bit (7 * n) (NOT 0) = (- (2 ^ (7 * n)) :: u64)"
    by (simp add: push_bit_eq_mult)
  ultimately have "(of_nat R :: u64) OR push_bit (7 * n) (NOT 0) = word_of_int (int R - 2 ^ (7 * n))"
    by (simp only: of_int_diff of_int_of_nat_eq of_int_power of_int_numeral add_uminus_conv_diff)
  moreover have "(128::int) ^ n = 2 ^ (7 * n)" by (simp add: power_mult)
  ultimately show ?thesis
    using True by (simp only: if_True)
next
  case False
  then have "(2::u64) ^ (7 * n) = 0"
    by (simp add: exp_eq_zero_iff)
  then have "(128::u64) ^ n = 0" by (simp add: power_mult)
  with False show ?thesis by simp
qed

text \<open>The range check on the last byte decides whether the whole value is in range.\<close>

lemma scale_bounds:
  fixes R P z k :: int
  assumes "0 \<le> R" "R < P"
  shows "(R + P * z < P * k) = (z < k)" and "(P * k \<le> R + P * z) = (k \<le> z)"
proof -
  have a: "R + P * z < P * k" if "z < k" for z k
  proof -
    have "P * (z + 1) \<le> P * k" using that assms by (intro mult_left_mono) auto
    then show ?thesis using assms by (simp add: algebra_simps)
  qed
  have b: "P * k \<le> R + P * z" if "k \<le> z" for z k
  proof -
    have "P * k \<le> P * z" using that assms by (intro mult_left_mono) auto
    then show ?thesis using assms by linarith
  qed
  show "(R + P * z < P * k) = (z < k)" "(P * k \<le> R + P * z) = (k \<le> z)"
    using a [of z k] b [of k z] by linarith+
qed

lemma leb_in_range_scale:
  assumes "R < 128 ^ i" and "1 \<le> u"
  shows "leb_in_range sgd (7 * i + u) (int R + 128 ^ i * z) = leb_in_range sgd u z"
proof -
  have R: "0 \<le> int R" "int R < 128 ^ i" using assms(1) by (simp_all flip: of_nat_less_iff)
  have p: "(2::int) ^ (7 * i + n) = 128 ^ i * 2 ^ n" for n by (simp add: power_add power_mult)
  have q: "7 * i + u - 1 = 7 * i + (u - 1)" using assms(2) by simp
  note sb = scale_bounds [OF R]
  show ?thesis
    using sb(2) [of "- (2 ^ (u - 1))" z] sb(1) [of z "2 ^ (u - 1)"] sb(1) [of z "2 ^ u"] sb(2) [of 0 z]
    by (simp only: leb_in_range_def p q mult_minus_right mult_zero_right)
qed

lemma tail_range_leb:
  assumes "1 \<le> u" "u < 7" "x < 128"
  shows "tail_range sgd u x = leb_in_range sgd u (int x - (if sgd \<and> 64 \<le> x then 128 else 0))"
  using used_cases [OF assms(1,2)] assms(3)
  by (cases sgd; cases "64 \<le> x") (auto simp: tail_range_def leb_in_range_def)

lemma last_byte_range:
  assumes "R < 128 ^ i" and "b < 0x80" and "7 * i < mb"
  shows "leb_tail_ok sgd mb (7 * i + 7) b =
         leb_in_range sgd mb (int R + 128 ^ i * leb_value sgd [b])"
proof -
  define x where "x = unat b"
  have x: "x < 128" using assms(2) by (simp add: x_def word_less_nat_alt)
  have v: "leb_value sgd [b] = int x - (if sgd \<and> 64 \<le> x then 128 else 0)"
    using x by (simp add: leb_value_def unat_low7 bit6_byte x_def)
  define u where "u = mb - 7 * i"
  have u: "1 \<le> u" "mb = 7 * i + u" using assms(3) by (auto simp: u_def)
  have r: "leb_in_range sgd mb (int R + 128 ^ i * leb_value sgd [b]) = leb_in_range sgd u (leb_value sgd [b])"
    unfolding u(2) by (rule leb_in_range_scale [OF assms(1) u(1)])
  show ?thesis
  proof (cases "u < 7")
    case True
    have "leb_tail_ok sgd mb (7 * i + 7) b = leb_tail_ok sgd u 7 b"
      using u by (simp add: leb_tail_ok_def)
    also have "\<dots> = tail_range sgd u x"
      using tail_ok_7 [OF u(1) True, of b sgd] x by (simp add: x_def)
    also have "\<dots> = leb_in_range sgd u (leb_value sgd [b])"
      unfolding v by (rule tail_range_leb [OF u(1) True x])
    finally show ?thesis unfolding r .
  next
    case False
    then have "leb_tail_ok sgd mb (7 * i + 7) b" using u by (simp add: leb_tail_ok_def)
    moreover have "(128::int) \<le> 2 ^ u" "(64::int) \<le> 2 ^ (u - 1)"
      using False power_increasing [of 7 u "2::int"] power_increasing [of 6 "u - 1" "2::int"] by simp_all
    then have "int x < 2 ^ u" "x < 64 \<Longrightarrow> int x < 2 ^ (u - 1)" "- (2 ^ (u - 1)) \<le> int x"
        "64 \<le> x \<Longrightarrow> - (2 ^ (u - 1)) \<le> int x - 128" "int x - 128 < 2 ^ (u - 1)"
      using x by linarith+
    then have "leb_in_range sgd u (leb_value sgd [b])"
      unfolding v by (simp add: leb_in_range_def)
    ultimately show ?thesis unfolding r by simp
  qed
qed

text \<open>The value returned after the last byte.\<close>

definition leb_result :: "bool \<Rightarrow> nat \<Rightarrow> byte \<Rightarrow> u64 \<Rightarrow> u64" where
  "leb_result sgd shift b acc =
     (if sgd \<and> shift < 64 \<and> b AND 0x40 \<noteq> 0 then acc OR push_bit shift (NOT 0) else acc)"

lemma last_byte_result:
  assumes "R < 128 ^ i"
  shows "leb_result sgd (7 * i + 7) b (of_nat (R + unat (b AND 0x7f) * 128 ^ i)) =
         word_of_int (int R + 128 ^ i * leb_value sgd [b])"
proof -
  have bit: "(b AND 0x40 \<noteq> 0) = bit b 6" using and_exp_neq_0 [of b 6] by simp
  have s: "7 * i + 7 = 7 * Suc i" by simp
  show ?thesis
    using sign_extend [OF acc_bound [OF assms, of b]]
    unfolding leb_result_def s bit
    by (cases "sgd \<and> bit b 6"; cases "7 * Suc i < 64") (auto simp: leb_value_def algebra_simps)
qed

text \<open>A continuation byte prepends its seven bits to the group that follows.\<close>

lemma group_step:
  assumes "\<not> b < 0x80"
  shows "(\<exists>g. leb_prefix rest = Some g \<and>
            P (Suc i + length g) (int (R + unat (b AND 0x7f) * 128 ^ i) + 128 ^ Suc i * leb_value sgd g) (Suc n + length g)) =
         (\<exists>g. leb_prefix (b # rest) = Some g \<and>
            P (i + length g) (int R + 128 ^ i * leb_value sgd g) (n + length g))"
proof (cases "leb_prefix rest")
  case None
  then show ?thesis using assms by simp
next
  case (Some g)
  then have "g \<noteq> []" using leb_prefix_not_Nil by auto
  then have "int (R + unat (b AND 0x7f) * 128 ^ i) + 128 ^ Suc i * leb_value sgd g
      = int R + 128 ^ i * leb_value sgd (b # g)"
    by (simp add: leb_value_Cons algebra_simps)
  moreover have "leb_prefix (b # rest) = Some (b # g)" using assms Some by simp
  moreover have "Suc i + length g = i + length (b # g)" "Suc n + length g = n + length (b # g)" by simp_all
  ultimately show ?thesis using Some by (metis option.inject)
qed

section \<open>The contract of an LEB decoder\<close>

locale leb_decoder =
  fixes bytes_of :: "'s \<Rightarrow> byte list"
    and pos_of :: "'s \<Rightarrow> nat"
    and jump :: "nat \<Rightarrow> 's \<Rightarrow> 's"
    and leb :: "bool \<Rightarrow> nat \<Rightarrow> ('s, u64) rd"
  assumes leb_iff:
    "1 \<le> mb \<Longrightarrow> mb \<le> 64 \<Longrightarrow>
     leb sgd mb r = (Inr v, r') \<longleftrightarrow>
     (\<exists>n. leb_spec sgd mb (drop (pos_of r) (bytes_of r)) = Some (v, n) \<and> r' = jump (pos_of r + n) r)"
begin

lemma leb_group:
  assumes "1 \<le> mb" "mb \<le> 64"
    and "leb_prefix (drop (pos_of r) (bytes_of r)) = Some g"
    and "length g \<le> (mb + 6) div 7" "leb_in_range sgd mb (leb_value sgd g)"
  shows "leb sgd mb r = (Inr (word_of_int (leb_value sgd g)), jump (pos_of r + length g) r)"
  using assms by (simp add: leb_iff leb_spec_def)

lemma leb_one_byte:
  assumes "1 \<le> mb" "mb \<le> 64" "7 \<le> mb"
    and "drop (pos_of r) (bytes_of r) = b # rest" "b < 0x80"
  shows "leb sgd mb r = (Inr (word_of_int (leb_value sgd [b])), jump (pos_of r + 1) r)"
proof -
  have "7 * 0 < mb" using assms by simp
  then have "leb_in_range sgd mb (leb_value sgd [b])"
    using last_byte_range [of 0 0 b mb sgd] assms(3,5) by (simp add: leb_tail_ok_def)
  then show ?thesis using leb_group [of mb r "[b]"] assms by simp
qed

lemma leb_fails:
  assumes "1 \<le> mb" "mb \<le> 64" "leb_spec sgd mb (drop (pos_of r) (bytes_of r)) = None"
  shows "\<exists>e r'. leb sgd mb r = (Inl e, r')"
  using leb_iff [OF assms(1,2), of sgd r] assms(3)
  by (metis option.distinct(1) prod.exhaust sum.exhaust)

end

section \<open>The internal decoder meets the contract\<close>

lemma r_byte_drop:
  "r_byte r = (case drop (pos r) (data r) of
                 [] \<Rightarrow> (Inl (DecodeError ErrIndexOutOfBounds (pos r)), r)
               | b # _ \<Rightarrow> (Inr b, r\<lparr>pos := Suc (pos r)\<rparr>))"
  by (cases "pos r < length (data r)") (auto simp: r_byte_def Cons_nth_drop_Suc [symmetric])

lemma leb_loop_iff:
  assumes "1 \<le> mb" "mb \<le> 64" "R < 128 ^ i" "rest = drop (pos r) (data r)"
  shows "leb_loop sgd mb i (of_nat R) (7 * i) r = (Inr v, r') \<longleftrightarrow>
     (\<exists>g. leb_prefix rest = Some g \<and> i + length g \<le> (mb + 6) div 7 \<and>
          leb_in_range sgd mb (int R + 128 ^ i * leb_value sgd g) \<and>
          v = word_of_int (int R + 128 ^ i * leb_value sgd g) \<and>
          r' = r\<lparr>pos := pos r + length g\<rparr>)"
  using assms(3,4)
proof (induction rest arbitrary: i R r)
  case Nil
  then show ?case
    by (subst leb_loop.simps) (simp add: r_byte_drop)
next
  case (Cons b rest)
  let ?R = "R + unat (b AND 0x7f) * 128 ^ i"
  let ?r = "r\<lparr>pos := Suc (pos r)\<rparr>"
  have byte: "r_byte r = (Inr b, ?r)"
    using Cons.prems(2) by (simp add: r_byte_drop flip: Cons.prems(2))
  have rest: "rest = drop (pos ?r) (data ?r)"
  proof -
    have "rest = tl (drop (pos r) (data r))" by (simp flip: Cons.prems(2))
    then show ?thesis by (simp add: drop_Suc tl_drop)
  qed
  show ?case
  proof (cases "i < (mb + 6) div 7")
    case False
    then show ?thesis
      using leb_prefix_not_Nil by (subst leb_loop.simps) (auto simp: Suc_le_eq)
  next
    case True
    then have i: "7 * i < mb" "7 * i < 64" using assms(2) by linarith+
    show ?thesis
    proof (cases "b < 0x80")
      case b: True
      let ?z = "int R + 128 ^ i * leb_value sgd [b]"
      have "leb_loop sgd mb i (of_nat R) (7 * i) r =
          (if leb_tail_ok sgd mb (7 * i + 7) b then (Inr (leb_result sgd (7 * i + 7) b (of_nat ?R)), ?r)
           else (Inl (DecodeError ErrMalformedLEB (Suc (pos r))), ?r))"
        using True i b by (subst leb_loop.simps) (simp add: byte acc_step [OF Cons.prems(1)] cont_bit leb_result_def Let_def)
      also have "\<dots> = (if leb_in_range sgd mb ?z then (Inr (word_of_int ?z), ?r)
           else (Inl (DecodeError ErrMalformedLEB (Suc (pos r))), ?r))"
        by (simp only: last_byte_range [OF Cons.prems(1) b i(1)] last_byte_result [OF Cons.prems(1)])
      finally have "leb_loop sgd mb i (of_nat R) (7 * i) r = (Inr v, r') \<longleftrightarrow>
          leb_in_range sgd mb ?z \<and> v = word_of_int ?z \<and> r' = ?r"
        by (cases "leb_in_range sgd mb ?z") auto
      then show ?thesis using b True by simp
    next
      case b: False
      have s: "7 * Suc i = 7 * i + 7" by simp
      have step: "leb_loop sgd mb i (of_nat R) (7 * i) r = leb_loop sgd mb (Suc i) (of_nat ?R) (7 * Suc i) ?r"
        unfolding s using True i b by (subst leb_loop.simps) (simp add: byte acc_step [OF Cons.prems(1)] cont_bit Let_def)
      have pos: "?r\<lparr>pos := pos ?r + n\<rparr> = r\<lparr>pos := Suc (pos r) + n\<rparr>" for n
        by simp
      note IH = Cons.IH [OF acc_bound [OF Cons.prems(1)] rest]
      show ?thesis
        unfolding step IH pos
        by (rule group_step [OF b, where P = "\<lambda>k z p. k \<le> (mb + 6) div 7 \<and> leb_in_range sgd mb z \<and>
              v = word_of_int z \<and> r' = r\<lparr>pos := p\<rparr>"])
    qed
  qed
qed

lemma leb_spec_iff:
  "(\<exists>n. leb_spec sgd mb bs = Some (v, n) \<and> Q n) =
   (\<exists>g. leb_prefix bs = Some g \<and> 0 + length g \<le> (mb + 6) div 7 \<and>
        leb_in_range sgd mb (int 0 + 128 ^ 0 * leb_value sgd g) \<and>
        v = word_of_int (int 0 + 128 ^ 0 * leb_value sgd g) \<and> Q (length g))"
  by (cases "leb_prefix bs") (auto simp: leb_spec_def)

lemma r_leb_iff:
  assumes "1 \<le> mb" "mb \<le> 64"
  shows "r_leb sgd mb r = (Inr v, r') \<longleftrightarrow>
     (\<exists>n. leb_spec sgd mb (drop (pos r) (data r)) = Some (v, n) \<and> r' = r\<lparr>pos := pos r + n\<rparr>)"
  using leb_loop_iff [OF assms, of 0 0 "drop (pos r) (data r)" r sgd v r']
  unfolding leb_spec_iff r_leb_def by simp

interpretation internal: leb_decoder data pos "\<lambda>p r. r\<lparr>pos := p\<rparr>" r_leb
  by (rule leb_decoder.intro) (rule r_leb_iff)

section \<open>The exported decoder meets the contract\<close>

lemma R_Byte_drop:
  "R_Byte r = (case drop (xpos r) (xdata r) of
                 [] \<Rightarrow> (Inl (DecodeError ErrIndexOutOfBounds (xpos r)), r)
               | b # _ \<Rightarrow> (Inr b, r\<lparr>xpos := Suc (xpos r)\<rparr>))"
  by (cases "xpos r < length (xdata r)") (auto simp: R_Byte_def Cons_nth_drop_Suc [symmetric])

lemma leb128_bits:
  fixes b :: byte
  shows "((ucast b :: u32) AND 0x80 = 0) = (b < 0x80)"
    and "((ucast b :: u32) AND 0x40 = 0) = (b AND 0x40 = 0)"
    and "(ucast ((ucast b :: u32) AND 0x7F) :: u64) = ucast (b AND 0x7f)"
proof -
  show "((ucast b :: u32) AND 0x80 = 0) = (b < 0x80)"
    using ucast_and_eq [of b "0x80" 0] by (simp add: cont_bit)
  show "((ucast b :: u32) AND 0x40 = 0) = (b AND 0x40 = 0)"
    using ucast_and_eq [of b "0x40" 0] by simp
  show "(ucast ((ucast b :: u32) AND 0x7F) :: u64) = ucast (b AND 0x7f)"
    by (rule bit_word_eqI) (auto simp: bit_simps dest: bit_imp_le_length)
qed

lemma leb128_tail_eq:
  assumes "7 * i < mb" "b < 0x80"
  shows "leb128_tail_ok sgd mb (7 * i + 7) b = leb_tail_ok sgd mb (7 * i + 7) b"
proof (cases "mb < 7 * i + 7")
  case True
  define u where "u = mb - 7 * i"
  have u: "1 \<le> u" "u < 7" "mb = 7 * i + u" using assms True by (auto simp: u_def)
  have "leb128_tail_ok sgd mb (7 * i + 7) b = leb128_tail_ok sgd u 7 b"
    "leb_tail_ok sgd mb (7 * i + 7) b = leb_tail_ok sgd u 7 b"
    using u by (simp_all add: leb128_tail_ok_def leb_tail_ok_def)
  then show ?thesis
    using tail128_ok_7 [OF u(1,2), of b sgd] assms(2) by (simp add: word_less_nat_alt)
next
  case False
  then show ?thesis by (simp add: leb128_tail_ok_def leb_tail_ok_def)
qed

lemma leb128_loop_iff:
  assumes "1 \<le> mb" "mb \<le> 64" "R < 128 ^ i" "rest = drop (xpos r) (xdata r)"
  shows "leb128_loop sgd mb (of_nat R) (7 * i) r = (Inr v, r') \<longleftrightarrow>
     (\<exists>g. leb_prefix rest = Some g \<and> i + length g \<le> (mb + 6) div 7 \<and>
          leb_in_range sgd mb (int R + 128 ^ i * leb_value sgd g) \<and>
          v = word_of_int (int R + 128 ^ i * leb_value sgd g) \<and>
          r' = r\<lparr>xpos := xpos r + length g\<rparr>)"
  using assms(3,4)
proof (induction rest arbitrary: i R r)
  case Nil
  then show ?case
    by (subst leb128_loop.simps) (simp add: R_Byte_drop)
next
  case (Cons b rest)
  let ?R = "R + unat (b AND 0x7f) * 128 ^ i"
  let ?r = "r\<lparr>xpos := Suc (xpos r)\<rparr>"
  have byte: "R_Byte r = (Inr b, ?r)"
    using Cons.prems(2) by (simp add: R_Byte_drop flip: Cons.prems(2))
  have rest: "rest = drop (xpos ?r) (xdata ?r)"
  proof -
    have "rest = tl (drop (xpos r) (xdata r))" by (simp flip: Cons.prems(2))
    then show ?thesis by (simp add: drop_Suc tl_drop)
  qed
  note step = byte acc_step [OF Cons.prems(1)] leb128_bits leb_result_def Let_def
  show ?case
  proof (cases "7 * i < mb")
    case False
    then have "(mb + 6) div 7 \<le> i" by linarith
    then show ?thesis
      using leb_prefix_not_Nil False by (subst leb128_loop.simps) (auto simp: byte)
  next
    case True
    show ?thesis
    proof (cases "b < 0x80")
      case b: True
      let ?z = "int R + 128 ^ i * leb_value sgd [b]"
      have "leb128_loop sgd mb (of_nat R) (7 * i) r =
          (if leb_tail_ok sgd mb (7 * i + 7) b then (Inr (leb_result sgd (7 * i + 7) b (of_nat ?R)), ?r)
           else (Inl (DecodeError ErrMalformedLEB (Suc (xpos r))), ?r))"
        using True b by (subst leb128_loop.simps) (simp add: step leb128_tail_eq conj_commute)
      also have "\<dots> = (if leb_in_range sgd mb ?z then (Inr (word_of_int ?z), ?r)
           else (Inl (DecodeError ErrMalformedLEB (Suc (xpos r))), ?r))"
        by (simp only: last_byte_range [OF Cons.prems(1) b True] last_byte_result [OF Cons.prems(1)])
      finally have "leb128_loop sgd mb (of_nat R) (7 * i) r = (Inr v, r') \<longleftrightarrow>
          leb_in_range sgd mb ?z \<and> v = word_of_int ?z \<and> r' = ?r"
        by (cases "leb_in_range sgd mb ?z") auto
      moreover have "i + 1 \<le> (mb + 6) div 7" using True by linarith
      ultimately show ?thesis using b by simp
    next
      case b: False
      show ?thesis
      proof (cases "leb128_tail_ok sgd mb (7 * i + 7) b")
        case ok: False
        then have "mb < 7 * i + 7" by (simp add: leb128_tail_ok_def split: if_splits)
        then have "\<not> Suc (i + length g) \<le> (mb + 6) div 7" if "leb_prefix rest = Some g" for g
          using that leb_prefix_not_Nil [of rest] by (cases g) auto
        then show ?thesis
          using True b ok by (subst leb128_loop.simps) (auto simp: step)
      next
        case ok: True
        have s: "7 * Suc i = 7 * i + 7" by simp
        have step1: "leb128_loop sgd mb (of_nat R) (7 * i) r = leb128_loop sgd mb (of_nat ?R) (7 * Suc i) ?r"
          unfolding s using True b ok by (subst leb128_loop.simps) (simp add: step)
        have pos: "?r\<lparr>xpos := xpos ?r + n\<rparr> = r\<lparr>xpos := Suc (xpos r) + n\<rparr>" for n
          by simp
        note IH = Cons.IH [OF acc_bound [OF Cons.prems(1)] rest]
        show ?thesis
          unfolding step1 IH pos
          by (rule group_step [OF b, where P = "\<lambda>k z p. k \<le> (mb + 6) div 7 \<and> leb_in_range sgd mb z \<and>
                v = word_of_int z \<and> r' = r\<lparr>xpos := p\<rparr>"])
      qed
    qed
  qed
qed


lemma R_leb128_iff:
  assumes "1 \<le> mb" "mb \<le> 64"
  shows "R_leb128 sgd mb r = (Inr v, r') \<longleftrightarrow>
     (\<exists>n. leb_spec sgd mb (drop (xpos r) (xdata r)) = Some (v, n) \<and> r' = r\<lparr>xpos := xpos r + n\<rparr>)"
  using leb128_loop_iff [OF assms, of 0 0 "drop (xpos r) (xdata r)" r sgd v r']
  unfolding leb_spec_iff R_leb128_def by simp

interpretation exported: leb_decoder xdata xpos "\<lambda>p r. r\<lparr>xpos := p\<rparr>" R_leb128
  by (rule leb_decoder.intro) (rule R_leb128_iff)

section \<open>Fast paths\<close>

lemma drop_peek: "r_peek r = (case drop (pos r) (data r) of [] \<Rightarrow> None | b # _ \<Rightarrow> Some b)"
  by (cases "pos r < length (data r)") (auto simp: r_peek_def Cons_nth_drop_Suc [symmetric])

lemma drop_Peek: "R_Peek r = (case drop (xpos r) (xdata r) of [] \<Rightarrow> None | b # _ \<Rightarrow> Some b)"
  by (cases "xpos r < length (xdata r)") (auto simp: R_Peek_def Cons_nth_drop_Suc [symmetric])

lemma ucast_word_of_int: "(ucast (word_of_int z :: u64) :: u32) = word_of_int z"
  by (simp add: ucast_down_wi is_down)

lemma low7_small: "b < 0x80 \<Longrightarrow> unat (b AND 0x7f) = unat b" for b :: byte
  by (simp add: unat_low7 word_less_nat_alt)

lemma or_neg128: "b < 0x80 \<Longrightarrow> (ucast b :: u32) OR NOT 0x7f = ucast b - 128" for b :: byte
proof -
  assume "b < 0x80"
  then have "take_bit 7 (unat b) = unat b" by (simp add: word_less_nat_alt take_bit_eq_mod)
  then have "take_bit 7 b = b" by (simp only: word_unat_eq_iff unsigned_take_bit_eq)
  then have "bit b n \<Longrightarrow> n < 7" for n by (metis bit_take_bit_iff)
  then have "(ucast b :: u32) AND NOT (mask 7) = 0" by (intro bit_word_eqI) (auto simp: bit_simps)
  then have "(ucast b :: u32) AND NOT 0x7f = 0" by (simp add: mask_eq_exp_minus_1)
  then have "(ucast b :: u32) OR NOT 0x7f = ucast b + NOT 0x7f"
    by (rule or_disjoint_add)
  then show ?thesis by (simp add: not_eq_complement)
qed

lemma ucast_leb_value_1:
  assumes "b < 0x80"
  shows "(ucast (word_of_int (leb_value False [b]) :: u64) :: u32) = ucast b"
    and "(ucast (word_of_int (leb_value True [b]) :: u64) :: u32) =
         (if b AND 0x40 \<noteq> 0 then ucast b OR NOT 0x7f else ucast b)"
proof -
  have u: "word_of_int (int (unat b)) = (ucast b :: u32)" by simp
  have s: "word_of_int (int (unat b) - 128) = (ucast b - 128 :: u32)"
    unfolding wi_hom_sub [symmetric] u by simp
  show "(ucast (word_of_int (leb_value False [b]) :: u64) :: u32) = ucast b"
    unfolding ucast_word_of_int by (simp add: leb_value_def low7_small assms u)
  show "(ucast (word_of_int (leb_value True [b]) :: u64) :: u32) =
         (if b AND 0x40 \<noteq> 0 then ucast b OR NOT 0x7f else ucast b)"
  proof (cases "bit b 6")
    case True
    then show ?thesis using and_exp_neq_0 [of b 6]
      by (simp only: ucast_word_of_int leb_value_def or_neg128 [OF assms] s) (simp add: low7_small assms s)
  next
    case False
    then show ?thesis using and_exp_neq_0 [of b 6]
      unfolding ucast_word_of_int by (simp add: leb_value_def low7_small assms u)
  qed
qed

lemma r_u32_leb: "r_u32 r = mapR ucast (r_leb False 32) r"
proof (cases "drop (pos r) (data r)")
  case Nil
  then show ?thesis by (simp add: r_u32_def drop_peek)
next
  case (Cons b rest)
  then show ?thesis
    using internal.leb_one_byte [of 32 r b rest False] ucast_leb_value_1(1) [of b]
    by (simp add: r_u32_def drop_peek mapR_def bindR_def)
qed

lemma r_i32_leb: "r_i32 r = mapR ucast (r_leb True 32) r"
proof (cases "drop (pos r) (data r)")
  case Nil
  then show ?thesis by (simp add: r_i32_def drop_peek)
next
  case (Cons b rest)
  then show ?thesis
    using internal.leb_one_byte [of 32 r b rest True] ucast_leb_value_1(2) [of b]
    by (simp add: r_i32_def drop_peek mapR_def bindR_def)
qed

lemma R_U32_leb: "R_U32 r = mapR ucast (R_leb128 False 32) r"
proof (cases "drop (xpos r) (xdata r)")
  case Nil
  then show ?thesis by (simp add: R_U32_def drop_Peek)
next
  case (Cons b rest)
  then show ?thesis
    using exported.leb_one_byte [of 32 r b rest False] ucast_leb_value_1(1) [of b]
    by (simp add: R_U32_def drop_Peek mapR_def bindR_def)
qed

lemma R_I32_leb: "R_I32 r = mapR ucast (R_leb128 True 32) r"
proof (cases "drop (xpos r) (xdata r)")
  case Nil
  then show ?thesis by (simp add: R_I32_def drop_Peek)
next
  case (Cons b rest)
  then show ?thesis
    using exported.leb_one_byte [of 32 r b rest True] ucast_leb_value_1(2) [of b]
    by (simp add: R_I32_def drop_Peek mapR_def bindR_def)
qed

section \<open>Encoding\<close>

lemma leb_prefix_append: "leb_prefix bs = Some g \<Longrightarrow> leb_prefix (bs @ rest) = Some g"
  by (induction bs arbitrary: g) (auto split: if_splits)

lemma or_0x80_not_less: "\<not> (b OR 0x80) < 0x80" for b :: byte
proof -
  have "(b OR 2 ^ 7) AND 2 ^ 7 \<noteq> (0 :: byte)" by (simp only: and_exp_neq_0) (simp add: bit_simps)
  then show ?thesis using cont_bit [of "b OR 0x80"] by simp
qed

lemma low7_or_0x80: "(b OR 0x80) AND 0x7f = b AND 0x7f" for b :: byte
proof -
  have "(b OR 0x80) AND 0x7f = (b AND 0x7f) OR (0x80 AND 0x7f)" by (rule bit.conj_disj_distrib2)
  then show ?thesis by simp
qed

lemma unat_cast7: "unat (ucast (v AND 0x7f) :: byte) = unat v mod 128" for v :: "'a::len word"
proof -
  have "v AND 0x7f = take_bit 7 v" by (simp add: take_bit_eq_mask mask_eq_exp_minus_1)
  then have "unat (ucast (v AND 0x7f) :: byte) = take_bit 8 (take_bit 7 (unat v))"
    by (simp only: unsigned_ucast_eq unsigned_take_bit_eq) simp
  then show ?thesis by (simp add: take_bit_eq_mod)
qed

lemma cast7_less: "(ucast (v AND 0x7f) :: byte) < 0x80" for v :: "'a::len word"
  by (simp add: word_less_nat_alt unat_cast7)

lemma unat_cast7_low: "unat ((ucast (v AND 0x7f) :: byte) AND 0x7f) = unat v mod 128" for v :: "'a::len word"
  by (simp add: unat_low7 unat_cast7)

lemmas append_simps = or_0x80_not_less low7_or_0x80 unat_cast7 cast7_less unat_cast7_low

lemma appendU32_group:
  "leb_prefix (appendU32 v) = Some (appendU32 v) \<and> uleb_value (appendU32 v) = unat v"
proof (induction v rule: appendU32.induct)
  case (1 v)
  show ?case
  proof (cases "drop_bit 7 v = 0")
    case True
    then have "unat v div 128 = 0" using unat_drop7 [of v] by simp
    then have "unat v mod 128 = unat v" by (simp add: div_eq_0_iff)
    moreover have "appendU32 v = [ucast (v AND 0x7f)]" using True by (simp add: appendU32.simps [of v])
    ultimately show ?thesis by (simp add: append_simps)
  next
    case False
    then have "appendU32 v = (ucast (v AND 0x7f) OR 0x80) # appendU32 (drop_bit 7 v)"
      by (simp add: appendU32.simps [of v] Let_def)
    moreover have "unat v mod 128 + 128 * (unat v div 128) = unat v" by simp
    ultimately show ?thesis
      using 1 [OF refl refl False] by (simp add: append_simps unat_drop7)
  qed
qed

lemma appendU32_length: "unat v < 128 ^ n \<Longrightarrow> 0 < n \<Longrightarrow> length (appendU32 v) \<le> n"
proof (induction v arbitrary: n rule: appendU32.induct)
  case (1 v)
  show ?case
  proof (cases "drop_bit 7 v = 0")
    case True
    then show ?thesis using 1(3) by (simp add: appendU32.simps [of v])
  next
    case False
    then have "unat (drop_bit 7 v) \<noteq> 0" by (simp only: unat_eq_zero not_False_eq_True)
    then have "unat v div 128 \<noteq> 0" by (simp only: unat_drop7 not_False_eq_True)
    then have "128 \<le> unat v" by (simp add: div_eq_0_iff)
    then have "n \<noteq> 1" using 1(2) by auto
    then obtain m where n: "n = Suc m" "0 < m" using 1(3) by (cases n) auto
    have "unat v < 128 ^ m * 128" using 1(2) by (simp add: n)
    then have "unat v div 128 < 128 ^ m" by (rule less_mult_imp_div_less)
    then have "length (appendU32 (drop_bit 7 v)) \<le> m" using 1(1) [OF refl refl False _ n(2)] by (simp add: unat_drop7)
    then show ?thesis using False by (simp add: appendU32.simps [of v] Let_def n)
  qed
qed

lemma sint_mod_128: "sint v mod 128 = int (unat v mod 128)" for v :: u64
proof -
  have "uint v = sint v mod 2 ^ 64" using uint_sint [of v] by (simp add: take_bit_eq_mod)
  then have "uint v mod 128 = sint v mod 128" by (simp add: mod_mod_cancel)
  then show ?thesis by (simp add: zmod_int)
qed

lemma sint_inject: "x = y \<longleftrightarrow> sint x = sint y" for x y :: u64
  by (metis signed_word_eqI)

lemma appendS64_last:
  fixes v :: u64
  shows "((signed_drop_bit 7 v = 0 \<and> \<not> (ucast (v AND 0x7f) :: byte) AND 0x40 \<noteq> 0) \<or>
          (signed_drop_bit 7 v = - 1 \<and> (ucast (v AND 0x7f) :: byte) AND 0x40 \<noteq> 0)) \<longleftrightarrow>
         - 64 \<le> sint v \<and> sint v < 64" (is "?l = ?r")
proof -
  have z: "(signed_drop_bit 7 v = 0) = (sint v div 128 = 0)" "(signed_drop_bit 7 v = - 1) = (sint v div 128 = - 1)"
    by (simp_all add: sint_inject [of "signed_drop_bit 7 v"] sint_sdrop7)
  have b: "((ucast (v AND 0x7f) :: byte) AND 0x40 \<noteq> 0) = (64 \<le> sint v mod 128)"
    using and_exp_neq_0 [of "ucast (v AND 0x7f) :: byte" 6] bit6_byte [of "ucast (v AND 0x7f)"]
    by (simp add: unat_cast7 sint_mod_128)
  have "?l = ((sint v div 128 = 0 \<and> \<not> 64 \<le> sint v mod 128) \<or> (sint v div 128 = - 1 \<and> 64 \<le> sint v mod 128))"
    by (simp only: z b)
  also have "\<dots> = ?r" by presburger
  finally show ?thesis .
qed

lemma appendS64_unfold:
  "appendS64 v = (if - 64 \<le> sint v \<and> sint v < 64 then [ucast (v AND 0x7f)]
                  else (ucast (v AND 0x7f) OR 0x80) # appendS64 (signed_drop_bit 7 v))"
  by (simp only: appendS64.simps [of v] Let_def appendS64_last) simp

lemma abs_div_128: "\<not> (- 64 \<le> z \<and> z < 64) \<Longrightarrow> nat \<bar>z div 128\<bar> < nat \<bar>z\<bar>" for z :: int
  by (cases "z < 0") (linarith, simp)

lemma sext7: "- 64 \<le> z \<Longrightarrow> z < 64 \<Longrightarrow> (if 64 \<le> z mod 128 then z mod 128 - 128 else z mod 128) = z" for z :: int
  by (cases "z < 0") (use mod_pos_pos_trivial [of "z + 128" 128] in simp, simp)

lemma appendS64_induct [case_names last more]:
  assumes "\<And>v. - 64 \<le> sint v \<and> sint v < 64 \<Longrightarrow> P v"
    and "\<And>v. \<not> (- 64 \<le> sint v \<and> sint v < 64) \<Longrightarrow> P (signed_drop_bit 7 v) \<Longrightarrow> P v"
  shows "P (v :: u64)"
proof (induction "nat \<bar>sint v\<bar>" arbitrary: v rule: less_induct)
  case less
  show ?case
  proof (cases "- 64 \<le> sint v \<and> sint v < 64")
    case False
    then have "nat \<bar>sint (signed_drop_bit 7 v)\<bar> < nat \<bar>sint v\<bar>"
      unfolding sint_sdrop7 by (rule abs_div_128)
    then show ?thesis using less assms(2) False by blast
  qed (rule assms(1))
qed

lemma appendS64_group:
  "leb_prefix (appendS64 v) = Some (appendS64 v) \<and> leb_value True (appendS64 v) = sint v"
proof (induction v rule: appendS64_induct)
  case (last v)
  have "leb_value True [ucast (v AND 0x7f)] = (if 64 \<le> sint v mod 128 then sint v mod 128 - 128 else sint v mod 128)"
    using bit6_byte [of "ucast (v AND 0x7f)"] unfolding sint_mod_128
    by (simp add: leb_value_def unat_cast7 unat_cast7_low)
  also have "\<dots> = sint v" using last by (intro sext7) auto
  finally have "leb_value True [ucast (v AND 0x7f)] = sint v" .
  then show ?case using last by (simp add: appendS64_unfold [of v] append_simps)
next
  case (more v)
  then have e: "appendS64 v = (ucast (v AND 0x7f) OR 0x80) # appendS64 (signed_drop_bit 7 v)"
    using appendS64_unfold [of v] by (simp only: if_False)
  have "appendS64 (signed_drop_bit 7 v) \<noteq> []"
    using more(2) leb_prefix_not_Nil [of "appendS64 (signed_drop_bit 7 v)"] by auto
  moreover have "sint v mod 128 + 128 * (sint v div 128) = sint v" by simp
  ultimately show ?case
    unfolding e using more(2) sint_mod_128 [of v] by (simp add: append_simps leb_value_Cons sint_sdrop7)
qed

lemma appendS64_length:
  "- (64 * 128 ^ n) \<le> sint v \<and> sint v < 64 * 128 ^ n \<Longrightarrow> length (appendS64 v) \<le> Suc n"
proof (induction v arbitrary: n rule: appendS64_induct)
  case (last v)
  then show ?case by (subst appendS64_unfold) simp
next
  case (more v)
  then obtain m where n: "n = Suc m" by (cases n) auto
  then have "- (64 * 128 ^ m) \<le> sint v div 128 \<and> sint v div 128 < 64 * 128 ^ m"
    using more(3) by auto
  then show ?case using more(1,2) n by (subst appendS64_unfold) (simp add: sint_sdrop7)
qed

section \<open>Reading back what the encoder wrote\<close>

lemma leb_prefix_encoded:
  "leb_prefix (appendU32 u @ rest) = Some (appendU32 u)" "leb_prefix (appendS64 v @ rest) = Some (appendS64 v)"
  using appendU32_group [of u] appendS64_group [of v] by (simp_all add: leb_prefix_append)

lemma leb_value_appendU32: "leb_value False (appendU32 u) = int (unat u)"
  using appendU32_group [of u] by (simp add: leb_value_def)

lemma appendU32_length_5: "length (appendU32 u) \<le> 5"
  using appendU32_length [of u 5] unsigned_less [of u, where 'a = nat] by simp

lemma appendS64_length_bits:
  assumes "7 * n < mb" "mb \<le> 7 * n + 7" "leb_in_range True mb (sint v)"
  shows "length (appendS64 v) \<le> (mb + 6) div 7"
proof -
  have "(64::int) * 128 ^ n = 2 ^ (7 * n + 6)" by (simp add: power_add power_mult)
  moreover have "(2::int) ^ (mb - 1) \<le> 2 ^ (7 * n + 6)" using assms(2) by (intro power_increasing) auto
  moreover have "- (2 ^ (mb - 1)) \<le> sint v \<and> sint v < 2 ^ (mb - 1)" using assms(3) by (simp only: leb_in_range_def if_True)
  ultimately have "- (64 * 128 ^ n) \<le> sint v \<and> sint v < 64 * 128 ^ n" by linarith
  then have "length (appendS64 v) \<le> Suc n" by (rule appendS64_length)
  moreover have "(mb + 6) div 7 = Suc n" using assms(1,2) by (intro div_nat_eqI) auto
  ultimately show ?thesis by simp
qed

context leb_decoder
begin

lemma leb_appendU32:
  assumes "drop (pos_of r) (bytes_of r) = appendU32 u @ rest" "mb = 32 \<or> mb = 33 \<or> mb = 64"
  shows "leb False mb r = (Inr (ucast u), jump (pos_of r + length (appendU32 u)) r)"
proof -
  have "leb_in_range False mb (leb_value False (appendU32 u))"
    using unsigned_less [of u, where 'a = int] assms(2) by (auto simp: leb_value_appendU32 leb_in_range_def)
  moreover have "length (appendU32 u) \<le> (mb + 6) div 7" using appendU32_length_5 [of u] assms(2) by auto
  ultimately have "leb False mb r = (Inr (word_of_int (leb_value False (appendU32 u))), jump (pos_of r + length (appendU32 u)) r)"
    using assms by (intro leb_group) (auto simp: leb_prefix_encoded)
  then show ?thesis by (simp add: leb_value_appendU32)
qed

lemma leb_appendS64:
  assumes "drop (pos_of r) (bytes_of r) = appendS64 v @ rest" "1 \<le> mb" "mb \<le> 64" "leb_in_range True mb (sint v)"
  shows "leb True mb r = (Inr v, jump (pos_of r + length (appendS64 v)) r)"
proof -
  have "7 * ((mb - 1) div 7) < mb" "mb \<le> 7 * ((mb - 1) div 7) + 7"
    using assms(2) by linarith+
  then have "length (appendS64 v) \<le> (mb + 6) div 7" using assms(4) by (rule appendS64_length_bits)
  then have "leb True mb r = (Inr (word_of_int (leb_value True (appendS64 v))), jump (pos_of r + length (appendS64 v)) r)"
    using assms appendS64_group [of v] by (intro leb_group) (auto simp: leb_prefix_encoded)
  then show ?thesis using appendS64_group [of v] by simp
qed

end

lemma ucast_ucast_32: "ucast (ucast u :: u64) = u" for u :: u32
  by (simp add: ucast_up_ucast_id is_up)

lemma ucast_scast_32: "ucast (scast i :: u64) = i" for i :: u32
  by (rule bit_word_eqI) (auto simp: bit_simps)

lemma sint_scast_32: "sint (scast i :: u64) = sint i" for i :: u32
  by (simp add: sint_up_scast is_up)

lemma sint_range_64: "leb_in_range True 64 (sint v)" for v :: u64
  using sint_range_size [of v] by (simp add: leb_in_range_def word_size)

lemma read_appendU32:
  assumes "drop (pos r) (data r) = appendU32 u @ rest"
  shows "r_u32 r = (Inr u, r\<lparr>pos := pos r + length (appendU32 u)\<rparr>)"
  using internal.leb_appendU32 [OF assms, of 32]
  by (simp add: r_u32_leb mapR_def bindR_def ucast_ucast_32)

lemma read_appendS64:
  assumes "drop (pos r) (data r) = appendS64 v @ rest"
  shows "r_i64 r = (Inr v, r\<lparr>pos := pos r + length (appendS64 v)\<rparr>)"
  unfolding r_i64_def
  using assms sint_range_64 [of v] by (intro internal.leb_appendS64) auto

lemma read_appendS32:
  assumes "drop (pos r) (data r) = appendS32 i @ rest"
  shows "r_i32 r = (Inr i, r\<lparr>pos := pos r + length (appendS32 i)\<rparr>)"
proof -
  have "leb_in_range True 32 (sint (scast i :: u64))"
    using sint_range_size [of i] unfolding sint_scast_32 by (simp add: leb_in_range_def word_size)
  then have "r_leb True 32 r = (Inr (scast i), r\<lparr>pos := pos r + length (appendS32 i)\<rparr>)"
    using assms unfolding appendS32_def by (intro internal.leb_appendS64) auto
  then show ?thesis by (simp add: r_i32_leb mapR_def bindR_def ucast_scast_32)
qed

lemma read_appendS33:
  assumes "drop (pos r) (data r) = appendS64 v @ rest" "- (2 ^ 32) \<le> sint v" "sint v < 2 ^ 32"
  shows "r_s33 r = (Inr v, r\<lparr>pos := pos r + length (appendS64 v)\<rparr>)"
  unfolding r_s33_def using assms by (intro internal.leb_appendS64) (auto simp: leb_in_range_def)

section \<open>Properties\<close>

text \<open>
  C17. \<open>reader.leb\<close> accepts exactly the well-formed LEB128 groups: for every width from 1 to 64
  bits, signed or unsigned, it returns a value precisely when the bytes at the cursor begin with
  a group of at most \<open>\<lceil>maxBits/7\<rceil>\<close> bytes whose mathematical value fits the width; the result is
  that value, and the cursor moves past exactly the group.
\<close>

theorem leb_decodes_spec:
  assumes "1 \<le> maxBits" "maxBits \<le> 64"
  shows "r_leb sgd maxBits r = (Inr v, r') \<longleftrightarrow>
     (\<exists>n. leb_spec sgd maxBits (drop (pos r) (data r)) = Some (v, n) \<and> r' = r\<lparr>pos := pos r + n\<rparr>)"
  using assms by (rule internal.leb_iff)

lemma leb_decodes_spec_witness:
  "r_leb True 33 ((newReader [0x00, 0x80, 0x7f, 0x55])\<lparr>pos := 1\<rparr>) =
     (Inr (- 128), (newReader [0x00, 0x80, 0x7f, 0x55])\<lparr>pos := 3\<rparr>)"
  using leb_decodes_spec [of 33 True "(newReader [0x00, 0x80, 0x7f, 0x55])\<lparr>pos := 1\<rparr>" "- 128"]
  by (simp add: leb_spec_def leb_value_def leb_in_range_def newReader_def)

text \<open>
  C18. The exported cursor and the internal one decode alike: on the same bytes at the same
  offset \<open>Reader.leb128\<close> succeeds exactly when \<open>reader.leb\<close> does, with the same value and the
  same number of bytes consumed, although the two check the last byte differently.
\<close>

theorem leb128_agrees_with_leb:
  assumes "1 \<le> maxBits" "maxBits \<le> 64"
  shows "(\<exists>x'. R_leb128 sgd maxBits \<lparr>xdata = bs, xpos = p\<rparr> = (Inr v, x') \<and> xpos x' = q) \<longleftrightarrow>
         (\<exists>r'. r_leb sgd maxBits \<lparr>data = bs, pos = p, budget = b\<rparr> = (Inr v, r') \<and> pos r' = q)"
  using assms by (auto simp: internal.leb_iff exported.leb_iff)

lemma leb128_agrees_with_leb_witness:
  "(\<exists>x'. R_leb128 False 32 \<lparr>xdata = [0xe5, 0x8e, 0x26], xpos = 0\<rparr> = (Inr 624485, x') \<and> xpos x' = 3)"
  using leb128_agrees_with_leb [of 32 False "[0xe5, 0x8e, 0x26]" 0 624485 3]
  by (simp add: internal.leb_iff leb_spec_def leb_value_def leb_in_range_def)

text \<open>
  C20. The single-byte fast paths of the 32-bit reads change nothing: \<open>u32\<close>, \<open>i32\<close>, \<open>U32\<close> and
  \<open>I32\<close> return, on every input and in every cursor state, what the general LEB128 loop returns
  truncated to 32 bits, errors and final cursor included.
\<close>

theorem fast_paths_agree:
  "r_u32 r = mapR ucast (r_leb False 32) r \<and> r_i32 r = mapR ucast (r_leb True 32) r \<and>
   R_U32 x = mapR ucast (R_leb128 False 32) x \<and> R_I32 x = mapR ucast (R_leb128 True 32) x"
  using r_u32_leb r_i32_leb R_U32_leb R_I32_leb by auto

text \<open>
  C19. What the encoder writes, the decoder reads back: \<open>u32\<close> after \<open>appendU32\<close>, \<open>i32\<close> after
  \<open>appendS32\<close>,and \<open>i64\<close> after \<open>appendS64\<close> return the value written and stop right behind the bytes
  written, whatever precedes and whatever follows them.
\<close>

theorem encoded_integers_read_back:
  "r_u32 \<lparr>data = pre @ appendU32 u @ rest, pos = length pre, budget = b\<rparr> =
     (Inr u, \<lparr>data = pre @ appendU32 u @ rest, pos = length pre + length (appendU32 u), budget = b\<rparr>) \<and>
   r_i32 \<lparr>data = pre @ appendS32 i @ rest, pos = length pre, budget = b\<rparr> =
     (Inr i, \<lparr>data = pre @ appendS32 i @ rest, pos = length pre + length (appendS32 i), budget = b\<rparr>) \<and>
   r_i64 \<lparr>data = pre @ appendS64 l @ rest, pos = length pre, budget = b\<rparr> =
     (Inr l, \<lparr>data = pre @ appendS64 l @ rest, pos = length pre + length (appendS64 l), budget = b\<rparr>)"
  using read_appendU32 [of "\<lparr>data = pre @ appendU32 u @ rest, pos = length pre, budget = b\<rparr>"]
    read_appendS32 [of "\<lparr>data = pre @ appendS32 i @ rest, pos = length pre, budget = b\<rparr>"]
    read_appendS64 [of "\<lparr>data = pre @ appendS64 l @ rest, pos = length pre, budget = b\<rparr>"]
  by simp

end
