(* ===== verification/Types.thy ===== *)
theory Types
  imports Prelude
begin

unbundle bit_operations_syntax

text \<open>
  The type language of \<^verbatim>\<open>compiler/wasm/types.go\<close> and its equality (\<^verbatim>\<open>compiler/wasm/equal.go\<close>).

  Heap, reference, value, storage and field types share one two-word encoding; the record
  \<open>packed\<close> is that pair of words and every constructor and accessor below is the code's bit
  arithmetic. The constants of Go's open byte enumerations (numeric, abstract heap, packed and
  external kinds are converted from arbitrary input bytes) stay bytes; the closed two-bit
  enumerations are datatypes with their codes.

  The second half relates the words to the types they stand for: \<open>heap_view\<close>, \<open>ref_view\<close>,
  \<open>val_view\<close>, \<open>storage_view\<close> and \<open>field_view\<close> read a word pair as an element of a datatype, and
  the code's equality tests decide equality of views.
\<close>

section \<open>Enumerations\<close>

type_synonym NumType = byte
type_synonym AbsHeapType = byte
type_synonym PackType = byte
type_synonym ExternKind = byte

abbreviation NumI32 :: NumType where "NumI32 \<equiv> 0x7F"
abbreviation NumI64 :: NumType where "NumI64 \<equiv> 0x7E"
abbreviation NumF32 :: NumType where "NumF32 \<equiv> 0x7D"
abbreviation NumF64 :: NumType where "NumF64 \<equiv> 0x7C"

abbreviation HeapString :: AbsHeapType where "HeapString \<equiv> 0x64"
abbreviation HeapExn :: AbsHeapType where "HeapExn \<equiv> 0x69"
abbreviation HeapArray :: AbsHeapType where "HeapArray \<equiv> 0x6A"
abbreviation HeapStruct :: AbsHeapType where "HeapStruct \<equiv> 0x6B"
abbreviation HeapI31 :: AbsHeapType where "HeapI31 \<equiv> 0x6C"
abbreviation HeapEq :: AbsHeapType where "HeapEq \<equiv> 0x6D"
abbreviation HeapAny :: AbsHeapType where "HeapAny \<equiv> 0x6E"
abbreviation HeapExtern :: AbsHeapType where "HeapExtern \<equiv> 0x6F"
abbreviation HeapFunc :: AbsHeapType where "HeapFunc \<equiv> 0x70"
abbreviation HeapNone :: AbsHeapType where "HeapNone \<equiv> 0x71"
abbreviation HeapNoExtern :: AbsHeapType where "HeapNoExtern \<equiv> 0x72"
abbreviation HeapNoFunc :: AbsHeapType where "HeapNoFunc \<equiv> 0x73"
abbreviation HeapNoExn :: AbsHeapType where "HeapNoExn \<equiv> 0x74"

abbreviation PackI16 :: PackType where "PackI16 \<equiv> 0x77"
abbreviation PackI8 :: PackType where "PackI8 \<equiv> 0x78"

abbreviation ExternFunc :: ExternKind where "ExternFunc \<equiv> 0"
abbreviation ExternTable :: ExternKind where "ExternTable \<equiv> 1"
abbreviation ExternMem :: ExternKind where "ExternMem \<equiv> 2"
abbreviation ExternGlobal :: ExternKind where "ExternGlobal \<equiv> 3"
abbreviation ExternTag :: ExternKind where "ExternTag \<equiv> 4"

datatype HeapTypeKind = HeapAbs | HeapTypeIndex | HeapDefType | heapBottom

fun heap_kind_code :: "HeapTypeKind \<Rightarrow> u64" where
  "heap_kind_code HeapAbs = 0"
| "heap_kind_code HeapTypeIndex = 1"
| "heap_kind_code HeapDefType = 2"
| "heap_kind_code heapBottom = 3"

definition heap_kind_of :: "u64 \<Rightarrow> HeapTypeKind" where
  "heap_kind_of w = (if w = 0 then HeapAbs else if w = 1 then HeapTypeIndex else if w = 2 then HeapDefType else heapBottom)"

datatype ValTypeKind = ValNum | ValVec | ValRef | ValBot

fun val_kind_code :: "ValTypeKind \<Rightarrow> u64" where
  "val_kind_code ValNum = 0"
| "val_kind_code ValVec = 1"
| "val_kind_code ValRef = 2"
| "val_kind_code ValBot = 3"

definition val_kind_of :: "u64 \<Rightarrow> ValTypeKind" where
  "val_kind_of w = (if w = 0 then ValNum else if w = 1 then ValVec else if w = 2 then ValRef else ValBot)"

datatype Mut = Const | Var

datatype CompTypeKind = CompArray | CompStruct | CompFunc

fun comp_kind_code :: "CompTypeKind \<Rightarrow> u64" where
  "comp_kind_code CompArray = 0"
| "comp_kind_code CompStruct = 1"
| "comp_kind_code CompFunc = 2"

section \<open>Type indexes and definitions\<close>

record TypeIdx =
  ti_Index :: u32
  ti_Rec :: bool

record packed =
  lo :: u64
  hi :: u64

type_synonym HeapType = packed
type_synonym RefType = packed
type_synonym ValType = packed
type_synonym StorageType = packed
type_synonym FieldType = packed

record CompType =
  ct_Kind :: CompTypeKind
  ct_Array :: FieldType
  ct_Fields :: "FieldType list"
  ct_Params :: "ValType list"
  ct_Results :: "ValType list"

record OptionalTypeIdx =
  oti_bits :: u64

record TypeMetadata =
  tm_Describes :: OptionalTypeIdx
  tm_Descriptor :: OptionalTypeIdx

record SubType =
  st_Final :: bool
  st_Supers :: "TypeIdx list"
  st_Metadata :: TypeMetadata
  st_Comp :: CompType
  st_HasPrefix :: bool

record RecType =
  SubTypes :: "SubType list"

record DefType =
  dt_Rec :: RecType
  dt_GroupIndex :: u32
  dt_Index :: u32

section \<open>The bit layout\<close>

definition heapKindMask :: u64 where "heapKindMask = 0x3"
definition heapAbsMask :: u64 where "heapAbsMask = push_bit 8 0xff"
definition typeRecBit :: u64 where "typeRecBit = push_bit 16 1"
definition defPresentBit :: u64 where "defPresentBit = push_bit 17 1"
definition defKindMask :: u64 where "defKindMask = push_bit 18 0x3"
definition nullableBit :: u64 where "nullableBit = push_bit 20 1"
definition exactBit :: u64 where "exactBit = push_bit 21 1"
definition bareBit :: u64 where "bareBit = push_bit 22 1"
definition defKindValidBit :: u64 where "defKindValidBit = push_bit 23 1"
definition valKindMask :: u64 where "valKindMask = push_bit 24 0x3"
definition numTypeMask :: u64 where "numTypeMask = push_bit 32 0xff"
definition packedBit :: u64 where "packedBit = push_bit 40 1"
definition packTypeMask :: u64 where "packTypeMask = push_bit 41 0xff"
definition mutableBit :: u64 where "mutableBit = push_bit 49 1"

section \<open>Heap types\<close>

definition AbsHeap :: "AbsHeapType \<Rightarrow> HeapType" where
  "AbsHeap a = \<lparr>lo = push_bit 0 (heap_kind_code HeapAbs) OR push_bit 8 (ucast a), hi = 0\<rparr>"

definition IndexedHeap :: "TypeIdx \<Rightarrow> HeapType" where
  "IndexedHeap idx =
     (let l = push_bit 0 (heap_kind_code HeapTypeIndex)
      in \<lparr>lo = (if ti_Rec idx then l OR typeRecBit else l), hi = ucast (ti_Index idx)\<rparr>)"

definition DefinedHeap :: "DefType option \<Rightarrow> HeapType" where
  "DefinedHeap def =
     (let l = push_bit 0 (heap_kind_code HeapDefType)
      in case def of
           None \<Rightarrow> \<lparr>lo = l, hi = 0\<rparr>
         | Some d \<Rightarrow>
             (let l1 = l OR defPresentBit;
                  h = ucast (dt_GroupIndex d) OR push_bit 32 (ucast (dt_Index d));
                  sts = SubTypes (dt_Rec d)
              in if unat (dt_Index d) < length sts
                 then \<lparr>lo = l1 OR (defKindValidBit OR push_bit 18 (comp_kind_code (ct_Kind (st_Comp (sts ! unat (dt_Index d)))))), hi = h\<rparr>
                 else \<lparr>lo = l1, hi = h\<rparr>))"

definition HeapType_Kind :: "HeapType \<Rightarrow> HeapTypeKind" where
  "HeapType_Kind h = heap_kind_of (drop_bit 0 (lo h) AND heapKindMask)"

definition HeapType_Abs :: "HeapType \<Rightarrow> AbsHeapType" where
  "HeapType_Abs h = ucast (drop_bit 8 (lo h AND heapAbsMask))"

definition HeapType_Type :: "HeapType \<Rightarrow> TypeIdx" where
  "HeapType_Type h = \<lparr>ti_Index = ucast (hi h), ti_Rec = (lo h AND typeRecBit \<noteq> 0)\<rparr>"

text \<open>\<open>Def\<close> returns group, member, the code of the component kind and the presence bit.\<close>

definition HeapType_Def :: "HeapType \<Rightarrow> u32 \<times> u32 \<times> u64 \<times> bool" where
  "HeapType_Def h =
     (ucast (hi h), ucast (drop_bit 32 (hi h)), drop_bit 18 (lo h AND defKindMask), lo h AND defPresentBit \<noteq> 0)"

definition DefCompKind :: "HeapType \<Rightarrow> u64 \<times> bool" where
  "DefCompKind h = (drop_bit 18 (lo h AND defKindMask), lo h AND defKindValidBit \<noteq> 0)"

section \<open>Reference types\<close>

definition AbsRef :: "AbsHeapType \<Rightarrow> RefType" where
  "AbsRef a = (let h = AbsHeap a in \<lparr>lo = lo h OR nullableBit OR bareBit, hi = hi h\<rparr>)"

definition Ref :: "bool \<Rightarrow> HeapType \<Rightarrow> bool \<Rightarrow> RefType" where
  "Ref nullable heap exact =
     (let l0 = lo heap;
          l1 = (if nullable then l0 OR nullableBit else l0);
          l2 = (if exact then l1 OR exactBit else l1)
      in \<lparr>lo = l2, hi = hi heap\<rparr>)"

definition Nullable :: "RefType \<Rightarrow> bool" where "Nullable rt = (lo rt AND nullableBit \<noteq> 0)"
definition Exact :: "RefType \<Rightarrow> bool" where "Exact rt = (lo rt AND exactBit \<noteq> 0)"
definition Bare :: "RefType \<Rightarrow> bool" where "Bare rt = (lo rt AND bareBit \<noteq> 0)"

definition RefType_Heap :: "RefType \<Rightarrow> HeapType" where
  "RefType_Heap rt =
     \<lparr>lo = lo rt AND (heapKindMask OR heapAbsMask OR typeRecBit OR defPresentBit OR defKindMask OR defKindValidBit),
      hi = hi rt\<rparr>"

definition WithNullable :: "bool \<Rightarrow> RefType \<Rightarrow> RefType" where
  "WithNullable nullable rt =
     (if nullable then rt\<lparr>lo := lo rt OR nullableBit\<rparr> else rt\<lparr>lo := lo rt AND NOT nullableBit\<rparr>)"

definition WithHeap :: "HeapType \<Rightarrow> RefType \<Rightarrow> RefType" where
  "WithHeap heap rt = \<lparr>lo = lo heap OR (lo rt AND (nullableBit OR exactBit OR bareBit)), hi = hi heap\<rparr>"

definition IsDefaultable :: "RefType \<Rightarrow> bool" where "IsDefaultable rt = Nullable rt"

section \<open>Value types\<close>

definition newValType :: "ValTypeKind \<Rightarrow> NumType \<Rightarrow> ValType" where
  "newValType kind num = \<lparr>lo = push_bit 24 (val_kind_code kind) OR push_bit 32 (ucast num), hi = 0\<rparr>"

definition RefVal :: "RefType \<Rightarrow> ValType" where
  "RefVal rt = \<lparr>lo = lo rt OR push_bit 24 (val_kind_code ValRef), hi = hi rt\<rparr>"

definition I32 :: ValType where "I32 = newValType ValNum NumI32"
definition I64 :: ValType where "I64 = newValType ValNum NumI64"
definition F32 :: ValType where "F32 = newValType ValNum NumF32"
definition F64 :: ValType where "F64 = newValType ValNum NumF64"
definition V128 :: ValType where "V128 = newValType ValVec 0"
definition Bot :: ValType where "Bot = newValType ValBot 0"
definition FuncRef :: ValType where "FuncRef = RefVal (AbsRef HeapFunc)"
definition ExternRef :: ValType where "ExternRef = RefVal (AbsRef HeapExtern)"
definition AnyRef :: ValType where "AnyRef = RefVal (AbsRef HeapAny)"
definition EqRef :: ValType where "EqRef = RefVal (AbsRef HeapEq)"
definition I31Ref :: ValType where "I31Ref = RefVal (AbsRef HeapI31)"
definition StringRef :: ValType where "StringRef = RefVal (Ref True (AbsHeap HeapString) False)"

definition ValType_Kind :: "ValType \<Rightarrow> ValTypeKind" where
  "ValType_Kind v = val_kind_of (drop_bit 24 (lo v AND valKindMask))"

definition ValType_Num :: "ValType \<Rightarrow> NumType" where
  "ValType_Num v = ucast (drop_bit 32 (lo v AND numTypeMask))"

definition ValType_Ref :: "ValType \<Rightarrow> RefType" where
  "ValType_Ref v =
     \<lparr>lo = lo v AND NOT (valKindMask OR numTypeMask OR packedBit OR packTypeMask OR mutableBit), hi = hi v\<rparr>"

section \<open>Storage and field types\<close>

definition StorageVal :: "ValType \<Rightarrow> StorageType" where "StorageVal v = v"

definition StoragePacked :: "PackType \<Rightarrow> StorageType" where
  "StoragePacked pack = \<lparr>lo = packedBit OR push_bit 41 (ucast pack), hi = 0\<rparr>"

definition Storage_Packed :: "StorageType \<Rightarrow> bool" where "Storage_Packed s = (lo s AND packedBit \<noteq> 0)"

definition Storage_Val :: "StorageType \<Rightarrow> ValType" where
  "Storage_Val s = \<lparr>lo = lo s AND NOT (packedBit OR packTypeMask OR mutableBit), hi = hi s\<rparr>"

definition Storage_Pack :: "StorageType \<Rightarrow> PackType" where
  "Storage_Pack s = ucast (drop_bit 41 (lo s AND packTypeMask))"

definition NewFieldType :: "StorageType \<Rightarrow> Mut \<Rightarrow> FieldType" where
  "NewFieldType storage mut =
     (let l = lo storage in \<lparr>lo = (if mut = Var then l OR mutableBit else l), hi = hi storage\<rparr>)"

definition Field_Storage :: "FieldType \<Rightarrow> StorageType" where
  "Field_Storage f = \<lparr>lo = lo f AND NOT mutableBit, hi = hi f\<rparr>"

definition Field_Mut :: "FieldType \<Rightarrow> Mut" where
  "Field_Mut f = (if lo f AND mutableBit \<noteq> 0 then Var else Const)"

section \<open>Optional type indexes\<close>

definition optionalTypeIdxRec :: u64 where "optionalTypeIdxRec = push_bit 32 1"
definition optionalTypeIdxPresent :: u64 where "optionalTypeIdxPresent = push_bit 33 1"

definition SomeTypeIdx :: "TypeIdx \<Rightarrow> OptionalTypeIdx" where
  "SomeTypeIdx idx =
     (let b = optionalTypeIdxPresent OR ucast (ti_Index idx)
      in \<lparr>oti_bits = (if ti_Rec idx then b OR optionalTypeIdxRec else b)\<rparr>)"

definition noTypeIdx :: OptionalTypeIdx where "noTypeIdx = \<lparr>oti_bits = 0\<rparr>"

definition OptionalTypeIdx_Get :: "OptionalTypeIdx \<Rightarrow> TypeIdx \<times> bool" where
  "OptionalTypeIdx_Get oti =
     (\<lparr>ti_Index = ucast (oti_bits oti), ti_Rec = (oti_bits oti AND optionalTypeIdxRec \<noteq> 0)\<rparr>,
      oti_bits oti AND optionalTypeIdxPresent \<noteq> 0)"

definition OptionalTypeIdx_Present :: "OptionalTypeIdx \<Rightarrow> bool" where
  "OptionalTypeIdx_Present oti = (oti_bits oti AND optionalTypeIdxPresent \<noteq> 0)"

section \<open>Printing\<close>

definition AbsHeapType_String :: "AbsHeapType \<Rightarrow> string" where
  "AbsHeapType_String a =
     (if a = HeapString then ''string'' else if a = HeapExn then ''exn''
      else if a = HeapArray then ''array'' else if a = HeapStruct then ''struct''
      else if a = HeapI31 then ''i31'' else if a = HeapEq then ''eq''
      else if a = HeapAny then ''any'' else if a = HeapExtern then ''extern''
      else if a = HeapFunc then ''func'' else if a = HeapNone then ''none''
      else if a = HeapNoExtern then ''noextern'' else if a = HeapNoFunc then ''nofunc''
      else if a = HeapNoExn then ''noexn'' else ''heap?'')"

definition HeapType_String :: "HeapType \<Rightarrow> string" where
  "HeapType_String h =
     (case HeapType_Kind h of
        heapBottom \<Rightarrow> ''bot''
      | HeapAbs \<Rightarrow> AbsHeapType_String (HeapType_Abs h)
      | HeapTypeIndex \<Rightarrow> ''type '' @ decimal (unat (ti_Index (HeapType_Type h)))
      | HeapDefType \<Rightarrow>
          (case HeapType_Def h of (grp, mem, _, valid) \<Rightarrow>
             if \<not> valid then ''def ?''
             else ''def '' @ decimal (unat grp) @ ''.'' @ decimal (unat mem)))"

definition RefType_String :: "RefType \<Rightarrow> string" where
  "RefType_String rt =
     (let p0 = (if Nullable rt then ''ref null'' else ''ref'');
          p1 = (if Exact rt then p0 @ '' exact'' else p0)
      in p1 @ '' '' @ HeapType_String (RefType_Heap rt))"

text \<open>The bottom type prints as U+22A5, whose UTF-8 bytes are written out.\<close>

definition ValType_String :: "ValType \<Rightarrow> string" where
  "ValType_String v =
     (case ValType_Kind v of
        ValNum \<Rightarrow>
          (if ValType_Num v = NumI32 then ''i32'' else if ValType_Num v = NumI64 then ''i64''
           else if ValType_Num v = NumF32 then ''f32'' else if ValType_Num v = NumF64 then ''f64''
           else ''val?'')
      | ValVec \<Rightarrow> ''v128''
      | ValRef \<Rightarrow>
          (let rt = ValType_Ref v
           in if Bare rt \<and> Nullable rt \<and> \<not> Exact rt \<and> HeapType_Kind (RefType_Heap rt) = HeapAbs
                 \<and> HeapType_Abs (RefType_Heap rt) = HeapFunc then ''funcref''
              else if Bare rt \<and> Nullable rt \<and> \<not> Exact rt \<and> HeapType_Kind (RefType_Heap rt) = HeapAbs
                 \<and> HeapType_Abs (RefType_Heap rt) = HeapExtern then ''externref''
              else RefType_String rt)
      | ValBot \<Rightarrow> [CHR 0xE2, CHR 0x8A, CHR 0xA5])"

section \<open>Equality\<close>

definition equalHeapType :: "HeapType \<Rightarrow> HeapType \<Rightarrow> bool" where
  "equalHeapType a b =
     (if HeapType_Kind a \<noteq> HeapType_Kind b \<or> HeapType_Abs a \<noteq> HeapType_Abs b
         \<or> HeapType_Type a \<noteq> HeapType_Type b then False
      else if HeapType_Kind a = HeapDefType
      then (case (HeapType_Def a, HeapType_Def b) of ((ag, ai, _, av), (bg, bi, _, bv)) \<Rightarrow>
              av = bv \<and> (\<not> av \<or> ag = bg \<and> ai = bi))
      else True)"

definition equalRefType :: "RefType \<Rightarrow> RefType \<Rightarrow> bool" where
  "equalRefType a b =
     (Nullable a = Nullable b \<and> Exact a = Exact b \<and> equalHeapType (RefType_Heap a) (RefType_Heap b))"

definition equalValType :: "ValType \<Rightarrow> ValType \<Rightarrow> bool" where
  "equalValType a b =
     (if ValType_Kind a \<noteq> ValType_Kind b \<or> ValType_Num a \<noteq> ValType_Num b then False
      else if ValType_Kind a = ValRef then equalRefType (ValType_Ref a) (ValType_Ref b)
      else True)"

definition EqualValType :: "ValType \<Rightarrow> ValType \<Rightarrow> bool" where "EqualValType a b = equalValType a b"

definition equalStorageType :: "StorageType \<Rightarrow> StorageType \<Rightarrow> bool" where
  "equalStorageType a b =
     (if Storage_Packed a \<noteq> Storage_Packed b \<or> Storage_Pack a \<noteq> Storage_Pack b then False
      else if \<not> Storage_Packed a \<and> \<not> equalValType (Storage_Val a) (Storage_Val b) then False
      else True)"

definition equalFieldType :: "FieldType \<Rightarrow> FieldType \<Rightarrow> bool" where
  "equalFieldType a b =
     (Field_Mut a = Field_Mut b \<and> equalStorageType (Field_Storage a) (Field_Storage b))"

definition equalCompType :: "CompType \<Rightarrow> CompType \<Rightarrow> bool" where
  "equalCompType a b =
     (if ct_Kind a \<noteq> ct_Kind b \<or> length (ct_Params a) \<noteq> length (ct_Params b)
         \<or> length (ct_Results a) \<noteq> length (ct_Results b) \<or> length (ct_Fields a) \<noteq> length (ct_Fields b) then False
      else if \<not> list_all2 equalValType (ct_Params a) (ct_Params b) then False
      else if \<not> list_all2 equalValType (ct_Results a) (ct_Results b) then False
      else if \<not> list_all2 equalFieldType (ct_Fields a) (ct_Fields b) then False
      else if ct_Kind a = CompArray \<and> \<not> equalFieldType (ct_Array a) (ct_Array b) then False
      else True)"

section \<open>External types\<close>

record Limits =
  lim_Min :: u64
  lim_Max :: u64
  lim_HasMax :: bool
  lim_Addr64 :: bool

record TagType =
  tag_Type :: TypeIdx

record GlobalType =
  gt_Type :: ValType
  gt_Mutable :: bool

record MemType =
  mt_Limits :: Limits
  mt_Shared :: bool

record TableType =
  tt_Ref :: RefType
  tt_Limits :: Limits

record ExternType =
  et_Kind :: ExternKind
  et_flags :: byte
  et_index :: u32
  et_value :: ValType
  et_min :: u64
  et_max :: u64

definition externTypeRecursive :: byte where "externTypeRecursive = 1"
definition externTypeHasMax :: byte where "externTypeHasMax = 2"
definition externTypeAddr64 :: byte where "externTypeAddr64 = 4"
definition externTypeShared :: byte where "externTypeShared = 8"
definition externTypeMutable :: byte where "externTypeMutable = 16"

definition zeroExternType :: "ExternKind \<Rightarrow> ExternType" where
  "zeroExternType k = \<lparr>et_Kind = k, et_flags = 0, et_index = 0, et_value = \<lparr>lo = 0, hi = 0\<rparr>, et_min = 0, et_max = 0\<rparr>"

definition orFlag :: "bool \<Rightarrow> byte \<Rightarrow> ExternType \<Rightarrow> ExternType" where
  "orFlag c f e = (if c then e\<lparr>et_flags := et_flags e OR f\<rparr> else e)"

definition setLimitFlags :: "Limits \<Rightarrow> ExternType \<Rightarrow> ExternType" where
  "setLimitFlags l e = orFlag (lim_Addr64 l) externTypeAddr64 (orFlag (lim_HasMax l) externTypeHasMax e)"

definition NewFuncExternType :: "TypeIdx \<Rightarrow> ExternType" where
  "NewFuncExternType t =
     orFlag (ti_Rec t) externTypeRecursive ((zeroExternType ExternFunc)\<lparr>et_index := ti_Index t\<rparr>)"

definition NewTableExternType :: "TableType \<Rightarrow> ExternType" where
  "NewTableExternType t =
     setLimitFlags (tt_Limits t)
       ((zeroExternType ExternTable)\<lparr>et_value := RefVal (tt_Ref t), et_min := lim_Min (tt_Limits t), et_max := lim_Max (tt_Limits t)\<rparr>)"

definition NewMemExternType :: "MemType \<Rightarrow> ExternType" where
  "NewMemExternType t =
     orFlag (mt_Shared t) externTypeShared
       (setLimitFlags (mt_Limits t)
         ((zeroExternType ExternMem)\<lparr>et_min := lim_Min (mt_Limits t), et_max := lim_Max (mt_Limits t)\<rparr>))"

definition NewGlobalExternType :: "GlobalType \<Rightarrow> ExternType" where
  "NewGlobalExternType t =
     orFlag (gt_Mutable t) externTypeMutable ((zeroExternType ExternGlobal)\<lparr>et_value := gt_Type t\<rparr>)"

definition NewTagExternType :: "TagType \<Rightarrow> ExternType" where
  "NewTagExternType t =
     orFlag (ti_Rec (tag_Type t)) externTypeRecursive
       ((zeroExternType ExternTag)\<lparr>et_index := ti_Index (tag_Type t)\<rparr>)"

definition ExternType_limits :: "ExternType \<Rightarrow> Limits" where
  "ExternType_limits e =
     \<lparr>lim_Min = et_min e, lim_Max = et_max e, lim_HasMax = (et_flags e AND externTypeHasMax \<noteq> 0),
      lim_Addr64 = (et_flags e AND externTypeAddr64 \<noteq> 0)\<rparr>"

definition ExternType_FuncType :: "ExternType \<Rightarrow> TypeIdx" where
  "ExternType_FuncType e = \<lparr>ti_Index = et_index e, ti_Rec = (et_flags e AND externTypeRecursive \<noteq> 0)\<rparr>"

definition ExternType_TableType :: "ExternType \<Rightarrow> TableType" where
  "ExternType_TableType e = \<lparr>tt_Ref = ValType_Ref (et_value e), tt_Limits = ExternType_limits e\<rparr>"

definition ExternType_MemType :: "ExternType \<Rightarrow> MemType" where
  "ExternType_MemType e = \<lparr>mt_Limits = ExternType_limits e, mt_Shared = (et_flags e AND externTypeShared \<noteq> 0)\<rparr>"

definition ExternType_GlobalType :: "ExternType \<Rightarrow> GlobalType" where
  "ExternType_GlobalType e = \<lparr>gt_Type = et_value e, gt_Mutable = (et_flags e AND externTypeMutable \<noteq> 0)\<rparr>"

definition ExternType_TagType :: "ExternType \<Rightarrow> TagType" where
  "ExternType_TagType e = \<lparr>tag_Type = \<lparr>ti_Index = et_index e, ti_Rec = (et_flags e AND externTypeRecursive \<noteq> 0)\<rparr>\<rparr>"

record ExternIdx =
  ei_Kind :: ExternKind
  ei_Index :: u32

record Import =
  im_Module :: "byte list"
  im_Name :: "byte list"
  im_Type :: ExternType

record Export =
  ex_Name :: "byte list"
  ex_Index :: ExternIdx

record LocalRun =
  lr_Count :: u32
  lr_Type :: ValType

record Locals =
  Runs :: "LocalRun list"

section \<open>Branch hints\<close>

record BranchHint =
  bh_Offset :: u32
  bh_Likely :: bool

record FuncBranchHints =
  fbh_FuncIndex :: u32
  fbh_Hints :: "BranchHint list"

text \<open>\<open>BranchHintsForFunc\<close>: halve while more than eight entries remain, then scan.\<close>

function narrowHints :: "u32 \<Rightarrow> FuncBranchHints list \<Rightarrow> FuncBranchHints list" where
  "narrowHints funcIndex hints =
     (if length hints > 8
      then (let mid = length hints div 2
            in if fbh_FuncIndex (hints ! mid) < funcIndex
               then narrowHints funcIndex (drop (mid + 1) hints)
               else narrowHints funcIndex (take (mid + 1) hints))
      else hints)"
  by pat_completeness auto
termination
  by (relation "measure (\<lambda>(_, hints). length hints)") (auto simp: min_def)

declare narrowHints.simps [simp del]

fun scanHints :: "u32 \<Rightarrow> FuncBranchHints list \<Rightarrow> BranchHint list option" where
  "scanHints funcIndex [] = None"
| "scanHints funcIndex (h # hs) =
     (if fbh_FuncIndex h = funcIndex then Some (fbh_Hints h)
      else if fbh_FuncIndex h > funcIndex then None
      else scanHints funcIndex hs)"

definition BranchHintsForFunc :: "FuncBranchHints list \<Rightarrow> u32 \<Rightarrow> BranchHint list option" where
  "BranchHintsForFunc hints funcIndex = scanHints funcIndex (narrowHints funcIndex hints)"


section \<open>Well-formed words\<close>

text \<open>
  A word pair is a heap, reference, value or storage type when it sets only the bits the layout
  gives to it.
\<close>

definition heapBits :: u64 where
  "heapBits = heapKindMask OR heapAbsMask OR typeRecBit OR defPresentBit OR defKindMask OR defKindValidBit"

definition refBits :: u64 where "refBits = heapBits OR nullableBit OR exactBit OR bareBit"

definition valBits :: u64 where "valBits = refBits OR valKindMask OR numTypeMask"

definition heap_wf :: "HeapType \<Rightarrow> bool" where "heap_wf h = (lo h AND NOT heapBits = 0)"
definition ref_wf :: "RefType \<Rightarrow> bool" where "ref_wf rt = (lo rt AND NOT refBits = 0)"

definition val_wf :: "ValType \<Rightarrow> bool" where
  "val_wf v = (lo v AND NOT valBits = 0 \<and> (ValType_Kind v = ValRef \<longrightarrow> ValType_Num v = 0))"

definition storage_wf :: "StorageType \<Rightarrow> bool" where
  "storage_wf s = (if Storage_Packed s then s = StoragePacked (Storage_Pack s) else val_wf s)"

subsection \<open>Bits of the masks\<close>

lemma bit_field_mask:
  "bit (push_bit k 0xff :: u64) n \<longleftrightarrow> k \<le> n \<and> n < k + 8 \<and> n < 64"
  "bit (push_bit k 0x3 :: u64) n \<longleftrightarrow> k \<le> n \<and> n < k + 2 \<and> n < 64"
proof -
  have e: "(0xff :: u64) = mask 8" "(0x3 :: u64) = mask 2" by (simp_all add: mask_eq_exp_minus_1)
  show "bit (push_bit k 0xff :: u64) n \<longleftrightarrow> k \<le> n \<and> n < k + 8 \<and> n < 64"
    "bit (push_bit k 0x3 :: u64) n \<longleftrightarrow> k \<le> n \<and> n < k + 2 \<and> n < 64"
    unfolding e by (auto simp: bit_simps)
qed

lemma bit_flag: "bit (push_bit k 1 :: u64) n \<longleftrightarrow> n = k \<and> n < 64"
  by (auto simp: bit_simps)

lemma heapKindMask_eq: "heapKindMask = push_bit 0 0x3"
  by (simp add: heapKindMask_def)

lemma mask_bits:
  "bit heapKindMask n \<longleftrightarrow> n < 2"
  "bit heapAbsMask n \<longleftrightarrow> 8 \<le> n \<and> n < 16"
  "bit typeRecBit n \<longleftrightarrow> n = 16"
  "bit defPresentBit n \<longleftrightarrow> n = 17"
  "bit defKindMask n \<longleftrightarrow> 18 \<le> n \<and> n < 20"
  "bit nullableBit n \<longleftrightarrow> n = 20"
  "bit exactBit n \<longleftrightarrow> n = 21"
  "bit bareBit n \<longleftrightarrow> n = 22"
  "bit defKindValidBit n \<longleftrightarrow> n = 23"
  "bit valKindMask n \<longleftrightarrow> 24 \<le> n \<and> n < 26"
  "bit numTypeMask n \<longleftrightarrow> 32 \<le> n \<and> n < 40"
  "bit packedBit n \<longleftrightarrow> n = 40"
  "bit packTypeMask n \<longleftrightarrow> 41 \<le> n \<and> n < 49"
  "bit mutableBit n \<longleftrightarrow> n = 49"
  using bit_field_mask(2) [of 0 n]
  unfolding heapKindMask_eq heapAbsMask_def typeRecBit_def defPresentBit_def defKindMask_def
    nullableBit_def exactBit_def bareBit_def defKindValidBit_def valKindMask_def numTypeMask_def
    packedBit_def packTypeMask_def mutableBit_def bit_field_mask bit_flag
  by auto

lemma group_bits:
  "bit heapBits n \<longleftrightarrow> n < 2 \<or> 8 \<le> n \<and> n < 20 \<or> n = 23"
  "bit refBits n \<longleftrightarrow> n < 2 \<or> 8 \<le> n \<and> n < 24"
  "bit valBits n \<longleftrightarrow> n < 2 \<or> 8 \<le> n \<and> n < 26 \<or> 32 \<le> n \<and> n < 40"
  unfolding valBits_def refBits_def heapBits_def bit_or_iff mask_bits by auto

lemma bit_u64_less: "bit x n \<Longrightarrow> n < 64" for x :: u64
  using bit_imp_le_length [of x n] by simp

lemma and_not_zero_iff: "x AND NOT m = 0 \<longleftrightarrow> (\<forall>n. bit x n \<longrightarrow> bit m n)" for x m :: u64
proof
  assume z: "x AND NOT m = 0"
  show "\<forall>n. bit x n \<longrightarrow> bit m n"
  proof (intro allI impI, rule ccontr)
    fix n assume "bit x n" "\<not> bit m n"
    then have "bit (x AND NOT m) n" by (simp add: bit_simps bit_u64_less)
    then show False by (simp add: z)
  qed
next
  assume "\<forall>n. bit x n \<longrightarrow> bit m n"
  then show "x AND NOT m = 0" by (intro bit_word_eqI) (auto simp: bit_simps)
qed

lemma flag_test: "(x AND f \<noteq> 0) = bit x k" if "\<And>n. bit f n \<longleftrightarrow> n = k" for x f :: u64
  using bit_eq_iff [of "x AND f" 0] that by (auto simp: bit_and_iff dest: bit_u64_less)

lemma flags:
  "Nullable p = bit (lo p) 20" "Exact p = bit (lo p) 21" "Bare p = bit (lo p) 22"
  "Storage_Packed p = bit (lo p) 40" "Field_Mut p = (if bit (lo p) 49 then Var else Const)"
  "ti_Rec (HeapType_Type p) = bit (lo p) 16" "ti_Index (HeapType_Type p) = ucast (hi p)"
  by (simp_all add: Nullable_def Exact_def Bare_def Storage_Packed_def Field_Mut_def HeapType_Type_def
      flag_test mask_bits)

lemma field_extract:
  "drop_bit k (x AND m) = take_bit w (drop_bit k x)" if "\<And>n. bit m n \<longleftrightarrow> k \<le> n \<and> n < k + w" for x m :: u64
  by (rule bit_word_eqI) (auto simp: bit_simps that dest: bit_imp_le_length)

lemma fields:
  "HeapType_Kind p = heap_kind_of (take_bit 2 (lo p))"
  "HeapType_Abs p = ucast (drop_bit 8 (lo p))"
  "ValType_Kind p = val_kind_of (take_bit 2 (drop_bit 24 (lo p)))"
  "ValType_Num p = ucast (drop_bit 32 (lo p))"
  "Storage_Pack p = ucast (drop_bit 41 (lo p))"
proof -
  have c: "ucast (take_bit 8 x) = (ucast x :: byte)" for x :: u64
    by (rule bit_word_eqI) (auto simp: bit_simps)
  show "HeapType_Kind p = heap_kind_of (take_bit 2 (lo p))"
    using field_extract [of heapKindMask 0 2 "lo p"] by (simp add: HeapType_Kind_def mask_bits numeral_2_eq_2)
  show "HeapType_Abs p = ucast (drop_bit 8 (lo p))"
    using field_extract [of heapAbsMask 8 8 "lo p"] by (simp add: HeapType_Abs_def mask_bits c)
  show "ValType_Kind p = val_kind_of (take_bit 2 (drop_bit 24 (lo p)))"
    using field_extract [of valKindMask 24 2 "lo p"] by (simp add: ValType_Kind_def mask_bits)
  show "ValType_Num p = ucast (drop_bit 32 (lo p))"
    using field_extract [of numTypeMask 32 8 "lo p"] by (simp add: ValType_Num_def mask_bits c)
  show "Storage_Pack p = ucast (drop_bit 41 (lo p))"
    using field_extract [of packTypeMask 41 8 "lo p"] by (simp add: Storage_Pack_def mask_bits c)
qed

lemma wf_iff:
  "heap_wf h \<longleftrightarrow> (\<forall>n. bit (lo h) n \<longrightarrow> n < 2 \<or> 8 \<le> n \<and> n < 20 \<or> n = 23)"
  "ref_wf h \<longleftrightarrow> (\<forall>n. bit (lo h) n \<longrightarrow> n < 2 \<or> 8 \<le> n \<and> n < 24)"
  unfolding heap_wf_def ref_wf_def and_not_zero_iff group_bits by (rule refl)+

subsection \<open>Codes\<close>

lemma kind_codes [pack_simps]:
  "heap_kind_of (heap_kind_code hk) = hk" "val_kind_of (val_kind_code vk) = vk"
  by (cases hk; simp add: heap_kind_of_def) (cases vk; simp add: val_kind_of_def)

lemma code_bits:
  "bit (heap_kind_code hk) n \<Longrightarrow> n < 2" "bit (val_kind_code vk) n \<Longrightarrow> n < 2" "bit (comp_kind_code ck) n \<Longrightarrow> n < 2"
proof -
  have e: "(0::u64) = take_bit 2 0" "(1::u64) = take_bit 2 1" "(2::u64) = take_bit 2 2" "(3::u64) = take_bit 2 3"
    by simp_all
  have "heap_kind_code hk = take_bit 2 (heap_kind_code hk)" by (cases hk) (simp_all flip: e)
  then show "bit (heap_kind_code hk) n \<Longrightarrow> n < 2" by (metis bit_take_bit_iff)
  have "val_kind_code vk = take_bit 2 (val_kind_code vk)" by (cases vk) (simp_all flip: e)
  then show "bit (val_kind_code vk) n \<Longrightarrow> n < 2" by (metis bit_take_bit_iff)
  have "comp_kind_code ck = take_bit 2 (comp_kind_code ck)" by (cases ck) (simp_all flip: e)
  then show "bit (comp_kind_code ck) n \<Longrightarrow> n < 2" by (metis bit_take_bit_iff)
qed

lemma bit_byte_less: "bit x n \<Longrightarrow> n < 8" for x :: byte
  using bit_imp_le_length [of x n] by simp

lemma bit_u32_less: "bit x n \<Longrightarrow> n < 32" for x :: u32
  using bit_imp_le_length [of x n] by simp

lemmas bit_bounds = bit_byte_less bit_u32_less bit_u64_less code_bits

subsection \<open>Heap types\<close>

lemma heap_wf_constructors [pack_simps, intro]:
  "heap_wf (AbsHeap a)" "heap_wf (IndexedHeap i)" "heap_wf (DefinedHeap d)"
  unfolding wf_iff AbsHeap_def IndexedHeap_def DefinedHeap_def Let_def
  by (auto simp: bit_simps mask_bits dest!: bit_bounds split: option.splits if_splits)

lemma take_bit_or_push: "2 \<le> k \<Longrightarrow> take_bit 2 (c OR push_bit k y) = take_bit 2 c" for c y :: u64
  by (rule bit_word_eqI) (auto simp: bit_simps)

lemma take_bit_or_flag: "(\<And>n. bit f n \<Longrightarrow> 2 \<le> n) \<Longrightarrow> take_bit 2 (c OR f) = take_bit 2 c" for c f :: u64
  by (rule bit_word_eqI) (fastforce simp: bit_simps)

lemma take_bit_code [pack_simps]: "take_bit 2 (heap_kind_code hk) = heap_kind_code hk" "take_bit 2 (val_kind_code vk) = val_kind_code vk"
  by (cases hk; simp) (cases vk; simp)

lemma abs_heap [pack_simps]:
  "HeapType_Kind (AbsHeap a) = HeapAbs" "HeapType_Abs (AbsHeap a) = a"
  "HeapType_Type (AbsHeap a) = \<lparr>ti_Index = 0, ti_Rec = False\<rparr>" "hi (AbsHeap a) = 0"
proof -
  show "HeapType_Kind (AbsHeap a) = HeapAbs"
    by (simp add: fields AbsHeap_def heap_kind_of_def take_bit_or_push [of 8 0, simplified])
  show "HeapType_Abs (AbsHeap a) = a"
    unfolding fields by (rule bit_word_eqI) (auto simp: AbsHeap_def bit_simps)
  show "HeapType_Type (AbsHeap a) = \<lparr>ti_Index = 0, ti_Rec = False\<rparr>"
    by (rule TypeIdx.equality) (auto simp: flags AbsHeap_def bit_simps dest: bit_bounds)
qed (simp add: AbsHeap_def)

lemma indexed_heap [pack_simps]:
  "HeapType_Kind (IndexedHeap i) = HeapTypeIndex" "HeapType_Abs (IndexedHeap i) = 0" "HeapType_Type (IndexedHeap i) = i"
proof -
  show "HeapType_Kind (IndexedHeap i) = HeapTypeIndex"
    using take_bit_or_flag [of typeRecBit 1]
    by (simp add: fields IndexedHeap_def heap_kind_of_def mask_bits)
  show "HeapType_Abs (IndexedHeap i) = 0"
    unfolding fields by (rule bit_word_eqI) (auto simp: IndexedHeap_def bit_simps mask_bits)
  show "HeapType_Type (IndexedHeap i) = i"
    by (rule TypeIdx.equality) (auto simp: flags IndexedHeap_def bit_simps mask_bits ucast_up_ucast_id is_up)
qed

lemma defined_heap [pack_simps]:
  "HeapType_Kind (DefinedHeap d) = HeapDefType" "HeapType_Abs (DefinedHeap d) = 0" "\<not> ti_Rec (HeapType_Type (DefinedHeap d))"
proof -
  have z: "take_bit 2 defPresentBit = 0" "take_bit 2 defKindValidBit = 0" "take_bit 2 (push_bit 18 c) = 0" for c :: u64
    by (rule bit_word_eqI; auto simp: bit_simps mask_bits)+
  have "take_bit 2 (lo (DefinedHeap d)) = 2"
    by (cases d) (simp_all add: DefinedHeap_def Let_def z)
  then show "HeapType_Kind (DefinedHeap d) = HeapDefType" by (simp add: fields heap_kind_of_def)
  show "HeapType_Abs (DefinedHeap d) = 0"
    unfolding fields
    by (rule bit_word_eqI) (auto simp: DefinedHeap_def Let_def bit_simps mask_bits split: option.splits dest: bit_bounds)
  show "\<not> ti_Rec (HeapType_Type (DefinedHeap d))"
    by (auto simp: flags DefinedHeap_def Let_def bit_simps mask_bits split: option.splits dest: bit_bounds)
qed

lemma hi_coordinates:
  "(ucast (ucast g OR push_bit 32 (ucast m) :: u64) :: u32) = g"
  "(ucast (drop_bit 32 (ucast g OR push_bit 32 (ucast m) :: u64)) :: u32) = m" for g m :: u32
  by (rule bit_word_eqI; auto simp: bit_simps dest: bit_bounds)+

lemma defined_coordinates [pack_simps]:
  "HeapType_Def (DefinedHeap None) = (0, 0, 0, False)"
  "HeapType_Def (DefinedHeap (Some d)) =
     (dt_GroupIndex d, dt_Index d, fst (DefCompKind (DefinedHeap (Some d))), True)"
proof -
  have z: "2 AND defKindMask = 0" by (rule bit_word_eqI) (auto simp: bit_simps mask_bits)
  show "HeapType_Def (DefinedHeap None) = (0, 0, 0, False)"
    by (simp add: HeapType_Def_def DefinedHeap_def z flag_test mask_bits)
  have "hi (DefinedHeap (Some d)) = ucast (dt_GroupIndex d) OR push_bit 32 (ucast (dt_Index d))"
    by (simp add: DefinedHeap_def Let_def)
  moreover have "bit (lo (DefinedHeap (Some d))) 17"
    by (simp add: DefinedHeap_def Let_def bit_simps mask_bits)
  ultimately show "HeapType_Def (DefinedHeap (Some d)) =
     (dt_GroupIndex d, dt_Index d, fst (DefCompKind (DefinedHeap (Some d))), True)"
    by (simp only: HeapType_Def_def DefCompKind_def hi_coordinates fst_conv flag_test mask_bits)
qed

lemma defined_kind [pack_simps]:
  "unat (dt_Index d) < length (SubTypes (dt_Rec d)) \<Longrightarrow>
     DefCompKind (DefinedHeap (Some d)) =
       (comp_kind_code (ct_Kind (st_Comp (SubTypes (dt_Rec d) ! unat (dt_Index d)))), True)"
  "\<not> unat (dt_Index d) < length (SubTypes (dt_Rec d)) \<Longrightarrow> DefCompKind (DefinedHeap (Some d)) = (0, False)"
proof -
  let ?k = "ct_Kind (st_Comp (SubTypes (dt_Rec d) ! unat (dt_Index d)))"
  have k: "drop_bit 18 (((2 OR defPresentBit) OR defKindValidBit OR push_bit 18 (comp_kind_code ?k)) AND defKindMask) = comp_kind_code ?k"
    by (rule bit_word_eqI) (auto simp: bit_simps mask_bits dest: bit_bounds)
  assume "unat (dt_Index d) < length (SubTypes (dt_Rec d))"
  then have "lo (DefinedHeap (Some d)) = (2 OR defPresentBit) OR defKindValidBit OR push_bit 18 (comp_kind_code ?k)"
    by (simp add: DefinedHeap_def Let_def)
  then show "DefCompKind (DefinedHeap (Some d)) = (comp_kind_code ?k, True)"
    by (simp only: DefCompKind_def k flag_test mask_bits) (simp add: bit_simps mask_bits)
next
  have k: "drop_bit 18 ((2 OR defPresentBit) AND defKindMask) = 0"
    by (rule bit_word_eqI) (auto simp: bit_simps mask_bits)
  assume "\<not> unat (dt_Index d) < length (SubTypes (dt_Rec d))"
  then have "lo (DefinedHeap (Some d)) = 2 OR defPresentBit"
    by (simp add: DefinedHeap_def Let_def)
  then show "DefCompKind (DefinedHeap (Some d)) = (0, False)"
    by (simp only: DefCompKind_def k flag_test mask_bits) (simp add: bit_simps mask_bits)
qed

subsection \<open>Reference types\<close>

lemma packed_eqI: "(\<And>n. bit (lo p) n = bit (lo q) n) \<Longrightarrow> hi p = hi q \<Longrightarrow> p = (q :: packed)"
  by (rule packed.equality) (auto simp: bit_eq_iff)

lemma heap_of_wf [pack_simps, intro]: "heap_wf (RefType_Heap rt)"
  unfolding wf_iff RefType_Heap_def by (auto simp: bit_simps mask_bits)

lemma ref_accessors [pack_simps]:
  assumes "heap_wf h"
  shows "RefType_Heap (Ref nl h e) = h" "Nullable (Ref nl h e) = nl" "Exact (Ref nl h e) = e" "\<not> Bare (Ref nl h e)"
    "ref_wf (Ref nl h e)"
proof -
  note w = assms [unfolded wf_iff, rule_format]
  show "RefType_Heap (Ref nl h e) = h"
    by (rule packed_eqI) (auto simp: RefType_Heap_def Ref_def Let_def bit_simps mask_bits dest: w)
  show "Nullable (Ref nl h e) = nl" "Exact (Ref nl h e) = e" "\<not> Bare (Ref nl h e)"
    by (auto simp: flags Ref_def Let_def bit_simps mask_bits dest: w)
  show "ref_wf (Ref nl h e)"
    by (auto simp: wf_iff Ref_def Let_def bit_simps mask_bits split: if_splits dest: w)
qed

lemma abs_ref [pack_simps]:
  "RefType_Heap (AbsRef a) = AbsHeap a" "Nullable (AbsRef a)" "\<not> Exact (AbsRef a)" "Bare (AbsRef a)" "ref_wf (AbsRef a)"
proof -
  show "RefType_Heap (AbsRef a) = AbsHeap a"
    by (rule packed_eqI) (auto simp: RefType_Heap_def AbsRef_def AbsHeap_def Let_def bit_simps mask_bits dest: bit_bounds)
  show "Nullable (AbsRef a)" "\<not> Exact (AbsRef a)" "Bare (AbsRef a)"
    by (auto simp: flags AbsRef_def AbsHeap_def Let_def bit_simps mask_bits dest: bit_bounds)
  show "ref_wf (AbsRef a)"
    by (auto simp: wf_iff AbsRef_def AbsHeap_def Let_def bit_simps mask_bits dest: bit_bounds)
qed

lemma with_nullable [pack_simps]:
  "RefType_Heap (WithNullable b rt) = RefType_Heap rt" "Nullable (WithNullable b rt) = b"
  "Exact (WithNullable b rt) = Exact rt" "Bare (WithNullable b rt) = Bare rt"
  by (rule packed_eqI, auto simp: RefType_Heap_def WithNullable_def bit_simps mask_bits)
     (auto simp: flags WithNullable_def bit_simps mask_bits)

lemma with_heap [pack_simps]:
  assumes "heap_wf h"
  shows "RefType_Heap (WithHeap h rt) = h" "Nullable (WithHeap h rt) = Nullable rt"
    "Exact (WithHeap h rt) = Exact rt" "Bare (WithHeap h rt) = Bare rt" "ref_wf (WithHeap h rt)"
proof -
  note w = assms [unfolded wf_iff, rule_format]
  show "RefType_Heap (WithHeap h rt) = h"
    by (rule packed_eqI) (auto simp: RefType_Heap_def WithHeap_def bit_simps mask_bits dest: w)
  show "Nullable (WithHeap h rt) = Nullable rt" "Exact (WithHeap h rt) = Exact rt" "Bare (WithHeap h rt) = Bare rt"
    by (auto simp: flags WithHeap_def bit_simps mask_bits dest: w)
  show "ref_wf (WithHeap h rt)"
    by (auto simp: wf_iff WithHeap_def bit_simps mask_bits dest: w)
qed


subsection \<open>Value types\<close>

lemma val_kind_bits: "ValType_Kind p = val_kind_of (take_bit 2 (drop_bit 24 (lo p)))"
  by (rule fields)

lemma val_wf_iff:
  "val_wf v \<longleftrightarrow> (\<forall>n. bit (lo v) n \<longrightarrow> n < 2 \<or> 8 \<le> n \<and> n < 26 \<or> 32 \<le> n \<and> n < 40) \<and>
     (ValType_Kind v = ValRef \<longrightarrow> ValType_Num v = 0)"
  unfolding val_wf_def and_not_zero_iff group_bits by (rule refl)

lemma new_val_type [pack_simps]:
  "ValType_Kind (newValType k n) = k" "ValType_Num (newValType k n) = n"
  "k \<noteq> ValRef \<or> n = 0 \<Longrightarrow> val_wf (newValType k n)"
proof -
  have "take_bit 2 (drop_bit 24 (lo (newValType k n))) = val_kind_code k"
    by (rule bit_word_eqI) (auto simp: newValType_def bit_simps dest: bit_bounds)
  then show k: "ValType_Kind (newValType k n) = k" by (simp only: fields kind_codes)
  show n: "ValType_Num (newValType k n) = n"
    unfolding fields by (rule bit_word_eqI) (auto simp: newValType_def bit_simps dest: bit_bounds)
  show "k \<noteq> ValRef \<or> n = 0 \<Longrightarrow> val_wf (newValType k n)"
    unfolding val_wf_iff k n by (auto simp: newValType_def bit_simps dest!: bit_bounds)
qed

lemma bit_two: "bit (2::u64) n \<longleftrightarrow> n = 1"
  using bit_exp_iff [of 1 n, where 'a = "64 word"] by auto

lemma ref_val_bits: "bit (lo (RefVal rt)) n \<longleftrightarrow> bit (lo rt) n \<or> n = 25" "hi (RefVal rt) = hi rt"
proof -
  have "bit (push_bit 24 (2::u64)) n \<longleftrightarrow> n = 25" unfolding bit_push_bit_iff bit_two by auto
  then show "bit (lo (RefVal rt)) n \<longleftrightarrow> bit (lo rt) n \<or> n = 25" by (simp add: RefVal_def bit_or_iff)
qed (simp add: RefVal_def)

lemma val_kind_ref_iff: "ValType_Kind v = ValRef \<longleftrightarrow> bit (lo v) 25 \<and> \<not> bit (lo v) 24"
proof -
  have "ValType_Kind v = ValRef \<longleftrightarrow> take_bit 2 (drop_bit 24 (lo v)) = 2"
    by (simp add: fields val_kind_of_def)
  also have "\<dots> \<longleftrightarrow> bit (lo v) 25 \<and> \<not> bit (lo v) 24"
  proof
    assume e: "take_bit 2 (drop_bit 24 (lo v)) = 2"
    have "bit (take_bit 2 (drop_bit 24 (lo v))) n \<longleftrightarrow> n = 1" for n unfolding e by (rule bit_two)
    from this [of 0] this [of 1] show "bit (lo v) 25 \<and> \<not> bit (lo v) 24" by (simp add: bit_simps)
  next
    assume "bit (lo v) 25 \<and> \<not> bit (lo v) 24"
    then show "take_bit 2 (drop_bit 24 (lo v)) = 2"
      by (intro bit_word_eqI) (auto simp: bit_simps bit_two less_2_cases_iff)
  qed
  finally show ?thesis .
qed

lemma val_num_0_iff: "ValType_Num v = 0 \<longleftrightarrow> (\<forall>n. bit (lo v) n \<longrightarrow> \<not> (32 \<le> n \<and> n < 40))"
proof -
  have "ValType_Num v = 0 \<longleftrightarrow> (\<forall>k < 8. \<not> bit (lo v) (32 + k))"
    unfolding fields bit_eq_iff [of _ "0::byte"] by (auto simp: bit_simps)
  also have "\<dots> \<longleftrightarrow> (\<forall>n. bit (lo v) n \<longrightarrow> \<not> (32 \<le> n \<and> n < 40))"
  proof (intro iffI allI impI notI)
    fix n assume h: "\<forall>k < 8. \<not> bit (lo v) (32 + k)" "bit (lo v) n" "32 \<le> n \<and> n < 40"
    then have "n - 32 < 8" "32 + (n - 32) = n" by auto
    then show False using h(1,2) by metis
  qed auto
  finally show ?thesis .
qed

lemma ref_val [pack_simps]:
  assumes "ref_wf rt"
  shows "ValType_Kind (RefVal rt) = ValRef" "ValType_Num (RefVal rt) = 0" "ValType_Ref (RefVal rt) = rt" "val_wf (RefVal rt)"
proof -
  note w = assms [unfolded wf_iff, rule_format]
  show k: "ValType_Kind (RefVal rt) = ValRef" by (auto simp: val_kind_ref_iff ref_val_bits dest: w)
  show n: "ValType_Num (RefVal rt) = 0" by (auto simp: val_num_0_iff ref_val_bits dest: w)
  show "ValType_Ref (RefVal rt) = rt"
    by (rule packed_eqI) (auto simp: ValType_Ref_def ref_val_bits bit_simps mask_bits dest: w bit_bounds)
  show "val_wf (RefVal rt)"
    unfolding val_wf_iff k n by (auto simp: ref_val_bits dest!: w)
qed

lemma ref_of_val_wf [pack_simps]: "val_wf v \<Longrightarrow> ref_wf (ValType_Ref v)"
  by (auto simp: val_wf_iff wf_iff ValType_Ref_def bit_simps mask_bits)

lemma bit_24_25: "24 \<le> n \<Longrightarrow> n < 26 \<Longrightarrow> n \<noteq> 25 \<Longrightarrow> n = (24 :: nat)"
  by simp

lemma ref_val_collapse: "val_wf v \<Longrightarrow> ValType_Kind v = ValRef \<Longrightarrow> RefVal (ValType_Ref v) = v"
  by (rule packed_eqI)
     (auto simp: val_wf_iff val_kind_ref_iff val_num_0_iff ref_val_bits ValType_Ref_def bit_simps mask_bits dest: bit_bounds bit_24_25)

subsection \<open>Storage and field types\<close>

lemma storage_val [pack_simps]:
  assumes "val_wf v"
  shows "\<not> Storage_Packed (StorageVal v)" "Storage_Val (StorageVal v) = v" "storage_wf (StorageVal v)" "Storage_Pack (StorageVal v) = 0"
proof -
  note w = assms [unfolded val_wf_iff, THEN conjunct1, rule_format]
  show p: "\<not> Storage_Packed (StorageVal v)" by (auto simp: flags StorageVal_def dest: w)
  show "Storage_Val (StorageVal v) = v"
    by (rule packed_eqI) (auto simp: Storage_Val_def StorageVal_def bit_simps mask_bits dest: w bit_bounds)
  show "storage_wf (StorageVal v)" using p assms by (simp add: storage_wf_def StorageVal_def)
  show "Storage_Pack (StorageVal v) = 0"
    unfolding fields StorageVal_def by (rule bit_word_eqI) (auto simp: bit_simps dest: w)
qed

lemma storage_packed [pack_simps]:
  "Storage_Packed (StoragePacked p)" "Storage_Pack (StoragePacked p) = p" "storage_wf (StoragePacked p)"
proof -
  show s: "Storage_Packed (StoragePacked p)" by (simp add: flags StoragePacked_def bit_simps mask_bits)
  show q: "Storage_Pack (StoragePacked p) = p"
    unfolding fields by (rule bit_word_eqI) (auto simp: StoragePacked_def bit_simps mask_bits dest: bit_bounds)
  show "storage_wf (StoragePacked p)" by (simp add: storage_wf_def s q)
qed

lemma storage_wf_bits:
  assumes "storage_wf s" "bit (lo s) n"
  shows "n < 49"
proof (cases "Storage_Packed s")
  case True
  then obtain p where "s = StoragePacked p" using assms(1) unfolding storage_wf_def by metis
  then show ?thesis using assms(2) by (auto simp: StoragePacked_def bit_simps mask_bits dest: bit_bounds)
next
  case False
  then show ?thesis using assms by (force simp: storage_wf_def val_wf_iff)
qed

lemma field_accessors [pack_simps]:
  assumes "storage_wf s"
  shows "Field_Storage (NewFieldType s m) = s" "Field_Mut (NewFieldType s m) = m"
proof -
  note w = storage_wf_bits [OF assms]
  show "Field_Storage (NewFieldType s m) = s"
    by (rule packed_eqI) (auto simp: Field_Storage_def NewFieldType_def Let_def bit_simps mask_bits dest: w bit_bounds)
  show "Field_Mut (NewFieldType s m) = m"
    by (cases m) (auto simp: flags NewFieldType_def Let_def bit_simps mask_bits dest: w)
qed

section \<open>What the words stand for\<close>

datatype heap_view = AbsV AbsHeapType | IndexV TypeIdx | DefV "(u32 \<times> u32) option" | BottomV

definition heap_view :: "HeapType \<Rightarrow> heap_view" where
  "heap_view h =
     (case HeapType_Kind h of
        HeapAbs \<Rightarrow> AbsV (HeapType_Abs h)
      | HeapTypeIndex \<Rightarrow> IndexV (HeapType_Type h)
      | HeapDefType \<Rightarrow> (case HeapType_Def h of (g, m, _, valid) \<Rightarrow> DefV (if valid then Some (g, m) else None))
      | heapBottom \<Rightarrow> BottomV)"

definition heap_canon :: "HeapType \<Rightarrow> bool" where
  "heap_canon h = (heap_wf h \<and>
     (case HeapType_Kind h of
        HeapAbs \<Rightarrow> hi h = 0 \<and> \<not> ti_Rec (HeapType_Type h)
      | HeapTypeIndex \<Rightarrow> HeapType_Abs h = 0
      | HeapDefType \<Rightarrow> HeapType_Abs h = 0 \<and> \<not> ti_Rec (HeapType_Type h)
          \<and> (case HeapType_Def h of (_, _, _, valid) \<Rightarrow> valid \<or> hi h = 0)
      | heapBottom \<Rightarrow> HeapType_Abs h = 0 \<and> hi h = 0 \<and> \<not> ti_Rec (HeapType_Type h)))"

datatype val_view = NumV NumType | VecV | BotV | RefV bool bool heap_view

definition val_view :: "ValType \<Rightarrow> val_view" where
  "val_view v =
     (case ValType_Kind v of
        ValNum \<Rightarrow> NumV (ValType_Num v)
      | ValVec \<Rightarrow> VecV
      | ValRef \<Rightarrow> (let rt = ValType_Ref v in RefV (Nullable rt) (Exact rt) (heap_view (RefType_Heap rt)))
      | ValBot \<Rightarrow> BotV)"

definition val_canon :: "ValType \<Rightarrow> bool" where
  "val_canon v = (val_wf v \<and>
     (case ValType_Kind v of
        ValNum \<Rightarrow> True
      | ValVec \<Rightarrow> ValType_Num v = 0
      | ValRef \<Rightarrow> heap_canon (RefType_Heap (ValType_Ref v))
      | ValBot \<Rightarrow> ValType_Num v = 0))"

datatype storage_view = PackedV PackType | PlainV val_view

definition storage_view :: "StorageType \<Rightarrow> storage_view" where
  "storage_view s = (if Storage_Packed s then PackedV (Storage_Pack s) else PlainV (val_view (Storage_Val s)))"

definition storage_canon :: "StorageType \<Rightarrow> bool" where
  "storage_canon s = (storage_wf s \<and> (\<not> Storage_Packed s \<longrightarrow> val_canon (Storage_Val s)))"

definition field_view :: "FieldType \<Rightarrow> Mut \<times> storage_view" where
  "field_view f = (Field_Mut f, storage_view (Field_Storage f))"

definition field_canon :: "FieldType \<Rightarrow> bool" where
  "field_canon f = storage_canon (Field_Storage f)"

definition comp_view ::
  "CompType \<Rightarrow> CompTypeKind \<times> (Mut \<times> storage_view) option \<times> (Mut \<times> storage_view) list \<times> val_view list \<times> val_view list" where
  "comp_view c =
     (ct_Kind c, if ct_Kind c = CompArray then Some (field_view (ct_Array c)) else None,
      map field_view (ct_Fields c), map val_view (ct_Params c), map val_view (ct_Results c))"

definition comp_canon :: "CompType \<Rightarrow> bool" where
  "comp_canon c = ((ct_Kind c = CompArray \<longrightarrow> field_canon (ct_Array c)) \<and> list_all field_canon (ct_Fields c) \<and>
     list_all val_canon (ct_Params c) \<and> list_all val_canon (ct_Results c))"

subsection \<open>Constructors give canonical words\<close>

lemma heap_canon_constructors [pack_simps]:
  "heap_canon (AbsHeap a)" "heap_canon (IndexedHeap i)" "heap_canon (DefinedHeap d)"
proof -
  have "hi (DefinedHeap None) = 0" by (simp add: DefinedHeap_def)
  then show "heap_canon (DefinedHeap d)" by (cases d) (simp_all add: heap_canon_def pack_simps)
qed (simp_all add: heap_canon_def pack_simps)

lemma heap_views [pack_simps]:
  "heap_view (AbsHeap a) = AbsV a" "heap_view (IndexedHeap i) = IndexV i"
  "heap_view (DefinedHeap d) = DefV (map_option (\<lambda>d. (dt_GroupIndex d, dt_Index d)) d)"
  by (simp_all add: heap_view_def pack_simps) (cases d; simp add: pack_simps)

lemma val_canon_num [pack_simps]: "val_canon (newValType ValNum n)" "val_view (newValType ValNum n) = NumV n"
  "val_canon V128" "val_view V128 = VecV" "val_canon Bot" "val_view Bot = BotV"
  by (simp_all add: val_canon_def val_view_def V128_def Bot_def pack_simps)

lemma val_canon_ref [pack_simps]:
  assumes "ref_wf rt" "heap_canon (RefType_Heap rt)"
  shows "val_canon (RefVal rt)" "val_view (RefVal rt) = RefV (Nullable rt) (Exact rt) (heap_view (RefType_Heap rt))"
  using assms by (simp_all add: val_canon_def val_view_def Let_def ref_val)

lemma storage_canon_constructors [pack_simps]:
  "val_canon v \<Longrightarrow> storage_canon (StorageVal v)" "storage_canon (StoragePacked p)"
  "val_canon v \<Longrightarrow> storage_view (StorageVal v) = PlainV (val_view v)" "storage_view (StoragePacked p) = PackedV p"
  by (simp_all add: storage_canon_def storage_view_def val_canon_def pack_simps)

lemma field_canon_constructors [pack_simps]:
  "storage_canon s \<Longrightarrow> field_canon (NewFieldType s m)"
  "storage_canon s \<Longrightarrow> field_view (NewFieldType s m) = (m, storage_view s)"
  by (simp_all add: field_canon_def field_view_def field_accessors storage_canon_def)

subsection \<open>Equality decides equality of views\<close>

lemma equalHeapType_view:
  assumes "heap_canon a" "heap_canon b"
  shows "equalHeapType a b \<longleftrightarrow> heap_view a = heap_view b"
proof -
  have "HeapType_Type p = \<lparr>ti_Index = ucast (hi p), ti_Rec = ti_Rec (HeapType_Type p)\<rparr>"
    and "HeapType_Def p = (ucast (hi p), ucast (drop_bit 32 (hi p)), fst (DefCompKind p), snd (snd (snd (HeapType_Def p))))"
    for p by (simp_all add: HeapType_Type_def HeapType_Def_def DefCompKind_def)
  note e = this
  show ?thesis
    using assms e(1) [of a] e(1) [of b] e(2) [of a] e(2) [of b]
    by (cases "HeapType_Kind a"; cases "HeapType_Kind b")
       (auto simp: equalHeapType_def heap_view_def heap_canon_def split: if_splits)
qed

lemma equalValType_view:
  assumes "val_canon a" "val_canon b"
  shows "equalValType a b \<longleftrightarrow> val_view a = val_view b"
  using assms
  by (cases "ValType_Kind a"; cases "ValType_Kind b")
     (auto simp: equalValType_def equalRefType_def val_view_def val_canon_def val_wf_def Let_def equalHeapType_view)

lemma storage_pack_0: "storage_wf s \<Longrightarrow> \<not> Storage_Packed s \<Longrightarrow> Storage_Pack s = 0"
  using storage_val(4) [of s] by (simp add: storage_wf_def StorageVal_def)

lemma equalFieldType_view:
  assumes "field_canon a" "field_canon b"
  shows "equalFieldType a b \<longleftrightarrow> field_view a = field_view b"
  using assms
  by (auto simp: equalFieldType_def equalStorageType_def field_view_def storage_view_def field_canon_def
      storage_canon_def equalValType_view storage_pack_0)

lemma list_all2_view:
  assumes "\<And>x y. P x \<Longrightarrow> P y \<Longrightarrow> eq x y \<longleftrightarrow> f x = f y"
  shows "list_all P xs \<Longrightarrow> list_all P ys \<Longrightarrow> list_all2 eq xs ys \<longleftrightarrow> map f xs = map f ys"
proof (induction xs arbitrary: ys)
  case (Cons x xs)
  then show ?case using assms by (cases ys) auto
qed auto

lemmas views_of_lists =
  list_all2_view [of val_canon equalValType val_view, OF equalValType_view]
  list_all2_view [of field_canon equalFieldType field_view, OF equalFieldType_view]

lemma equalCompType_view:
  assumes "comp_canon a" "comp_canon b"
  shows "equalCompType a b \<longleftrightarrow> comp_view a = comp_view b"
proof -
  have "list_all2 equalValType (ct_Params a) (ct_Params b) \<longleftrightarrow> map val_view (ct_Params a) = map val_view (ct_Params b)"
    "list_all2 equalValType (ct_Results a) (ct_Results b) \<longleftrightarrow> map val_view (ct_Results a) = map val_view (ct_Results b)"
    "list_all2 equalFieldType (ct_Fields a) (ct_Fields b) \<longleftrightarrow> map field_view (ct_Fields a) = map field_view (ct_Fields b)"
    using assms by (simp_all add: comp_canon_def views_of_lists)
  then show ?thesis
    using assms by (auto simp: equalCompType_def comp_view_def comp_canon_def equalFieldType_view dest: map_eq_imp_length_eq)
qed

section \<open>External types and optional indexes\<close>

lemma flag_test_byte: "(x AND f \<noteq> 0) = bit x k" if "f = 2 ^ k" for x f :: byte
  using that and_exp_neq_0 [of x k] by simp

lemma extern_flag_bits:
  "(x AND externTypeRecursive \<noteq> 0) = bit x 0" "(x AND externTypeHasMax \<noteq> 0) = bit x 1"
  "(x AND externTypeAddr64 \<noteq> 0) = bit x 2" "(x AND externTypeShared \<noteq> 0) = bit x 3"
  "(x AND externTypeMutable \<noteq> 0) = bit x 4"
  using flag_test_byte [of 1 0 x] flag_test_byte [of 2 1 x] flag_test_byte [of 4 2 x] flag_test_byte [of 8 3 x]
    flag_test_byte [of 16 4 x]
  by (simp_all add: externTypeRecursive_def externTypeHasMax_def externTypeAddr64_def externTypeShared_def
      externTypeMutable_def)

lemma extern_accessors:
  "ExternType_FuncType (NewFuncExternType t) = t"
  "ref_wf (tt_Ref tt) \<Longrightarrow> ExternType_TableType (NewTableExternType tt) = tt"
  "ExternType_MemType (NewMemExternType m) = m"
  "ExternType_GlobalType (NewGlobalExternType g) = g"
  "ExternType_TagType (NewTagExternType tg) = tg"
  unfolding ExternType_FuncType_def ExternType_TableType_def ExternType_MemType_def ExternType_GlobalType_def
    ExternType_TagType_def ExternType_limits_def extern_flag_bits
  by (simp_all add: NewFuncExternType_def NewTableExternType_def NewMemExternType_def NewGlobalExternType_def
      NewTagExternType_def setLimitFlags_def orFlag_def zeroExternType_def ref_val
      externTypeRecursive_def externTypeHasMax_def externTypeAddr64_def externTypeShared_def externTypeMutable_def)

lemma optional_type_idx [pack_simps]:
  "OptionalTypeIdx_Get (SomeTypeIdx i) = (i, True)" "OptionalTypeIdx_Present (SomeTypeIdx i)"
  "\<not> OptionalTypeIdx_Present noTypeIdx" "\<not> snd (OptionalTypeIdx_Get noTypeIdx)"
proof -
  have f: "bit optionalTypeIdxRec n \<longleftrightarrow> n = 32" "bit optionalTypeIdxPresent n \<longleftrightarrow> n = 33" for n
    unfolding optionalTypeIdxRec_def optionalTypeIdxPresent_def bit_flag by auto
  have b: "bit (oti_bits (SomeTypeIdx i)) n \<longleftrightarrow> bit (ti_Index i) n \<or> n = 33 \<or> n = 32 \<and> ti_Rec i" for n
    by (auto simp: SomeTypeIdx_def Let_def bit_simps f dest: bit_bounds)
  have "ucast (oti_bits (SomeTypeIdx i)) = ti_Index i"
    by (rule bit_word_eqI) (auto simp: b bit_simps)
  moreover have "\<not> bit (ti_Index i) 32" "\<not> bit (ti_Index i) 33" by (auto dest: bit_bounds)
  ultimately show "OptionalTypeIdx_Get (SomeTypeIdx i) = (i, True)" "OptionalTypeIdx_Present (SomeTypeIdx i)"
    by (simp_all add: OptionalTypeIdx_Get_def OptionalTypeIdx_Present_def flag_test f b)
qed (simp_all add: OptionalTypeIdx_Get_def OptionalTypeIdx_Present_def noTypeIdx_def)

section \<open>Branch hint lookup\<close>

abbreviation hints_sorted :: "FuncBranchHints list \<Rightarrow> bool" where
  "hints_sorted \<equiv> sorted_wrt (\<lambda>a b. fbh_FuncIndex a < fbh_FuncIndex b)"

abbreviation hints_map :: "FuncBranchHints list \<Rightarrow> (u32 \<times> BranchHint list) list" where
  "hints_map \<equiv> map (\<lambda>h. (fbh_FuncIndex h, fbh_Hints h))"

lemma map_of_hints_None:
  "(\<And>h. h \<in> set hs \<Longrightarrow> fbh_FuncIndex h \<noteq> f) \<Longrightarrow> map_of (hints_map hs) f = None"
  by (force simp: map_of_eq_None_iff)

lemma scanHints_lookup: "hints_sorted hs \<Longrightarrow> scanHints f hs = map_of (hints_map hs) f"
proof (induction hs)
  case (Cons h hs)
  have "fbh_FuncIndex h > f \<Longrightarrow> map_of (hints_map hs) f = None"
    using Cons.prems by (intro map_of_hints_None) force
  then show ?case using Cons by auto
qed simp

lemma narrowHints_lookup:
  "hints_sorted hs \<Longrightarrow> hints_sorted (narrowHints f hs) \<and> map_of (hints_map (narrowHints f hs)) f = map_of (hints_map hs) f"
proof (induction f hs rule: narrowHints.induct)
  case (1 f hs)
  let ?m = "length hs div 2"
  have split: "hs = take (?m + 1) hs @ drop (?m + 1) hs" by simp
  then have srt: "hints_sorted (take (?m + 1) hs)" "hints_sorted (drop (?m + 1) hs)"
    and ord: "\<And>a b. a \<in> set (take (?m + 1) hs) \<Longrightarrow> b \<in> set (drop (?m + 1) hs) \<Longrightarrow> fbh_FuncIndex a < fbh_FuncIndex b"
    using "1.prems" by (metis sorted_wrt_append)+
  have mo: "map_of (hints_map hs) f = (case map_of (hints_map (take (?m + 1) hs)) f of
      None \<Rightarrow> map_of (hints_map (drop (?m + 1) hs)) f | Some v \<Rightarrow> Some v)"
    by (subst split) (simp only: map_append map_of_append map_add_def)
  show ?case
  proof (cases "length hs > 8")
    case True
    then have m: "?m < length hs" by simp
    have below: "fbh_FuncIndex a \<le> fbh_FuncIndex (hs ! ?m)" if "a \<in> set (take (?m + 1) hs)" for a
    proof -
      from that obtain i where i: "i \<le> ?m" "a = hs ! i" using m by (auto simp: in_set_conv_nth less_Suc_eq_le)
      then show ?thesis
        using sorted_wrt_nth_less [OF "1.prems", of i ?m] m by (cases "i = ?m") auto
    qed
    have mid: "hs ! ?m \<in> set (take (?m + 1) hs)" using m by (auto simp: in_set_conv_nth intro!: exI [of _ ?m])
    show ?thesis
    proof (cases "fbh_FuncIndex (hs ! ?m) < f")
      case less: True
      then have "map_of (hints_map (take (?m + 1) hs)) f = None"
        using below by (intro map_of_hints_None) force
      then show ?thesis
        using "1.IH"(1) [OF True refl less] srt(2) mo True less by (simp add: narrowHints.simps [of f hs] Let_def)
    next
      case geq: False
      then have "map_of (hints_map (drop (?m + 1) hs)) f = None"
        using ord [OF mid] by (intro map_of_hints_None) force
      then show ?thesis
        using "1.IH"(2) [OF True refl geq] srt(1) mo True geq
        by (simp add: narrowHints.simps [of f hs] Let_def split: option.split)
    qed
  next
    case False
    then show ?thesis using "1.prems" by (simp add: narrowHints.simps [of f hs])
  qed
qed


section \<open>Properties\<close>

text \<open>
  C29. A reference type survives every layer of the shared two-word encoding: packing a heap type
  with nullability and exactness, embedding the reference type in a value type, that in a storage
  type and that in a field type with a mutability, and then unpacking, gives back each ingredient;
  no field of the layout overlaps another.
\<close>

theorem packed_layers_roundtrip:
  assumes "heap_wf h"
  shows "let rt = Ref nl h e; v = RefVal rt; f = NewFieldType (StorageVal v) m
    in RefType_Heap rt = h \<and> Nullable rt = nl \<and> Exact rt = e \<and> \<not> Bare rt \<and>
       ValType_Kind v = ValRef \<and> ValType_Ref v = rt \<and>
       \<not> Storage_Packed (Field_Storage f) \<and> Storage_Val (Field_Storage f) = v \<and> Field_Mut f = m"
  using assms by (simp add: Let_def pack_simps)

lemma packed_layers_roundtrip_witness:
  "let rt = Ref True (IndexedHeap \<lparr>ti_Index = 0xFFFFFFFF, ti_Rec = True\<rparr>) True;
       f = NewFieldType (StorageVal (RefVal rt)) Var
   in HeapType_Type (RefType_Heap (ValType_Ref (Storage_Val (Field_Storage f)))) = \<lparr>ti_Index = 0xFFFFFFFF, ti_Rec = True\<rparr>
      \<and> Nullable (ValType_Ref (Storage_Val (Field_Storage f))) \<and> Field_Mut f = Var"
  using packed_layers_roundtrip [of "IndexedHeap \<lparr>ti_Index = 0xFFFFFFFF, ti_Rec = True\<rparr>" True True Var]
  by (simp add: Let_def heap_wf_constructors indexed_heap)

text \<open>
  C30. The code's structural equality on composite types decides equality of the types the words
  stand for: on canonical words \<open>equalCompType\<close> holds exactly when kind, array element, fields,
  parameters and results denote the same types. In particular the shorthand bit that records the
  one-byte encoding of a reference type never distinguishes two types.
\<close>

theorem equalCompType_decides_views:
  assumes "comp_canon a" "comp_canon b"
  shows "equalCompType a b \<longleftrightarrow> comp_view a = comp_view b"
  using assms by (rule equalCompType_view)

lemma equalCompType_decides_views_witness:
  "let c = \<lambda>ps. \<lparr>ct_Kind = CompFunc, ct_Array = \<lparr>lo = 0, hi = 0\<rparr>, ct_Fields = [], ct_Params = ps, ct_Results = [I32]\<rparr>
   in equalCompType (c [FuncRef]) (c [RefVal (Ref True (AbsHeap HeapFunc) False)])
      \<and> FuncRef \<noteq> RefVal (Ref True (AbsHeap HeapFunc) False)
      \<and> \<not> equalCompType (c [FuncRef]) (c [ExternRef])"
proof -
  have b: "Bare (ValType_Ref FuncRef)" "\<not> Bare (ValType_Ref (RefVal (Ref True (AbsHeap HeapFunc) False)))"
    by (simp_all add: FuncRef_def pack_simps)
  then have "FuncRef \<noteq> RefVal (Ref True (AbsHeap HeapFunc) False)" by metis
  moreover note eq = equalCompType_decides_views
    [of "\<lparr>ct_Kind = CompFunc, ct_Array = \<lparr>lo = 0, hi = 0\<rparr>, ct_Fields = [], ct_Params = [p], ct_Results = [I32]\<rparr>"
        "\<lparr>ct_Kind = CompFunc, ct_Array = \<lparr>lo = 0, hi = 0\<rparr>, ct_Fields = [], ct_Params = [q], ct_Results = [I32]\<rparr>" for p q]
  ultimately show ?thesis
    by (simp add: Let_def eq comp_canon_def comp_view_def FuncRef_def ExternRef_def I32_def pack_simps)
qed

text \<open>
  C31. An \<open>ExternType\<close> gives back the function, table, memory, global or tag type it was built from,
  limits, optional maximum, 64-bit addressing, sharedness and mutability included.
\<close>

theorem extern_types_roundtrip:
  assumes "ref_wf (tt_Ref tt)"
  shows "ExternType_FuncType (NewFuncExternType t) = t \<and> ExternType_TableType (NewTableExternType tt) = tt \<and>
    ExternType_MemType (NewMemExternType mt) = mt \<and> ExternType_GlobalType (NewGlobalExternType gt) = gt \<and>
    ExternType_TagType (NewTagExternType tg) = tg"
  using assms by (simp add: extern_accessors)

lemma extern_types_roundtrip_witness:
  "ExternType_TableType (NewTableExternType \<lparr>tt_Ref = AbsRef HeapFunc,
      tt_Limits = \<lparr>lim_Min = 1, lim_Max = 5, lim_HasMax = True, lim_Addr64 = False\<rparr>\<rparr>) =
    \<lparr>tt_Ref = AbsRef HeapFunc, tt_Limits = \<lparr>lim_Min = 1, lim_Max = 5, lim_HasMax = True, lim_Addr64 = False\<rparr>\<rparr>"
  using extern_types_roundtrip [of "\<lparr>tt_Ref = AbsRef HeapFunc,
      tt_Limits = \<lparr>lim_Min = 1, lim_Max = 5, lim_HasMax = True, lim_Addr64 = False\<rparr>\<rparr>"]
  by (simp add: abs_ref)

text \<open>
  C35. \<open>BranchHintsForFunc\<close>, a halving search that ends in a scan of at most eight entries with an
  early exit, finds exactly the hints recorded for the function whenever the section is sorted by
  strictly increasing function index.
\<close>

theorem BranchHintsForFunc_lookup:
  assumes "sorted_wrt (\<lambda>a b. fbh_FuncIndex a < fbh_FuncIndex b) hints"
  shows "BranchHintsForFunc hints f = map_of (map (\<lambda>h. (fbh_FuncIndex h, fbh_Hints h)) hints) f"
  using narrowHints_lookup [OF assms, of f] by (simp add: BranchHintsForFunc_def scanHints_lookup)

lemma BranchHintsForFunc_lookup_witness:
  "let hs = map (\<lambda>i. \<lparr>fbh_FuncIndex = i, fbh_Hints = [\<lparr>bh_Offset = i + 1, bh_Likely = True\<rparr>]\<rparr>)
              [2, 3, 5, 7, 11, 13, 17, 19, 23, 29, 31, 37]
   in BranchHintsForFunc hs 29 = Some [\<lparr>bh_Offset = 30, bh_Likely = True\<rparr>] \<and> BranchHintsForFunc hs 4 = None"
  using BranchHintsForFunc_lookup
    [of "map (\<lambda>i. \<lparr>fbh_FuncIndex = i, fbh_Hints = [\<lparr>bh_Offset = i + 1, bh_Likely = True\<rparr>]\<rparr>)
              [2, 3, 5, 7, 11, 13, 17, 19, 23, 29, 31, 37]"]
  by simp

end
