(* ===== verification/Decode.thy ===== *)
theory Decode
  imports Leb Types
begin

unbundle bit_operations_syntax

text \<open>
  The metadata decoders of \<^verbatim>\<open>compiler/wasm/decode.go\<close>, the allocation budget of
  \<^verbatim>\<open>decode_budget.go\<close> and the recursive-index marking of \<^verbatim>\<open>decode_recidx.go\<close>.

  A vector decoder reserves metadata bytes before it builds its elements. Element sizes are
  those of the Go compiler on 64-bit targets (\<open>unsafe.Sizeof\<close>). Names are the byte strings the
  code keeps in Go strings. Where the source reads a byte it has just peeked and drops the
  error, the model reads it with \<open>r_byte\<close>, which cannot fail there.

  \<open>decoder\<close> is the contract every decoder keeps: the input is unchanged, the cursor moves forward
  and stays inside the input, the budget's limits are unchanged, its remaining bytes never grow
  and its type count never passes the limit.
\<close>

section \<open>The budget\<close>

definition zeroDecodeLimits :: DecodeLimits where
  "zeroDecodeLimits = \<lparr>MaxTypes = 0, MaxMetadataBytes = 0\<rparr>"

definition budget_of :: "reader \<Rightarrow> decodeBudget" where
  "budget_of r = (case budget r of None \<Rightarrow> newDecodeBudget zeroDecodeLimits | Some b \<Rightarrow> b)"

definition r_reserve :: "u64 \<Rightarrow> u64 \<Rightarrow> (reader, unit) rd" where
  "r_reserve count width r =
     (let b = budget_of r; r0 = r\<lparr>budget := Some b\<rparr>
      in if width \<noteq> 0 \<and> count > remaining b div width
         then (Inl (MetadataLimitExceeded (MaxMetadataBytes (limits b)) (pos r0)), r0)
         else (Inr (), r0\<lparr>budget := Some (b\<lparr>remaining := remaining b - count * width\<rparr>)\<rparr>))"

definition reserveDecodedSlice :: "u64 \<Rightarrow> u32 \<Rightarrow> (reader, unit) rd" where
  "reserveDecodedSlice sz n = r_reserve (ucast n) (sz * 8 + 16)"

definition reserveMetadataStorage :: "u64 \<Rightarrow> u32 \<Rightarrow> (reader, unit) rd" where
  "reserveMetadataStorage sz n =
     (if n = 0 then returnR ()
      else bindR (r_reserve (ucast n) sz) (\<lambda>_. r_reserve 1 (min (ucast n * sz) 8192)))"

definition r_reserveType :: "(reader, unit) rd" where
  "r_reserveType r =
     (let b = budget_of r; r0 = r\<lparr>budget := Some b\<rparr>
      in if types b \<ge> MaxTypes (limits b) then (Inl (TypeCountLimitExceeded (MaxTypes (limits b))), r0)
         else (Inr (), r0\<lparr>budget := Some (b\<lparr>types := types b + 1\<rparr>)\<rparr>))"

section \<open>Peeking and failing\<close>

definition peekR :: "(reader, byte option) rd" where "peekR r = (Inr (r_peek r), r)"
definition offR :: "(reader, nat) rd" where "offR r = (Inr (pos r), r)"
definition leftR :: "(reader, nat) rd" where "leftR r = (Inr (r_left r), r)"

definition failAt :: "decode_code \<Rightarrow> (reader, 'a) rd" where
  "failAt c = failR (\<lambda>r. DecodeError c (pos r))"

definition failBack :: "decode_code \<Rightarrow> (reader, 'a) rd" where
  "failBack c = failR (\<lambda>r. DecodeError c (pos r - 1))"

section \<open>Names and vectors\<close>

text \<open>\<open>utf8.Valid\<close>: no overlong forms, no surrogates, nothing above U+10FFFF.\<close>

definition utf8_cont :: "byte \<Rightarrow> bool" where "utf8_cont b = (0x80 \<le> b \<and> b \<le> 0xBF)"

fun utf8_valid :: "byte list \<Rightarrow> bool" where
  "utf8_valid [] = True"
| "utf8_valid (b # bs) =
     (if b < 0x80 then utf8_valid bs
      else if 0xC2 \<le> b \<and> b \<le> 0xDF then
        (case bs of c1 # bs1 \<Rightarrow> utf8_cont c1 \<and> utf8_valid bs1 | _ \<Rightarrow> False)
      else if 0xE0 \<le> b \<and> b \<le> 0xEF then
        (case bs of c1 # c2 # bs2 \<Rightarrow>
           utf8_cont c1 \<and> (b = 0xE0 \<longrightarrow> 0xA0 \<le> c1) \<and> (b = 0xED \<longrightarrow> c1 \<le> 0x9F) \<and> utf8_cont c2 \<and> utf8_valid bs2
         | _ \<Rightarrow> False)
      else if 0xF0 \<le> b \<and> b \<le> 0xF4 then
        (case bs of c1 # c2 # c3 # bs3 \<Rightarrow>
           utf8_cont c1 \<and> (b = 0xF0 \<longrightarrow> 0x90 \<le> c1) \<and> (b = 0xF4 \<longrightarrow> c1 \<le> 0x8F)
           \<and> utf8_cont c2 \<and> utf8_cont c3 \<and> utf8_valid bs3
         | _ \<Rightarrow> False)
      else False)"

definition r_name :: "(reader, byte list) rd" where
  "r_name =
     bindR r_u32 (\<lambda>n. bindR offR (\<lambda>start. bindR (r_bytes (unat n)) (\<lambda>b.
       if \<not> utf8_valid b then failR (\<lambda>_. DecodeError ErrInvalidSection start)
       else bindR (r_reserve (of_nat (length b)) 2) (\<lambda>_. returnR b))))"

definition readVec :: "u64 \<Rightarrow> (reader, 'a) rd \<Rightarrow> (reader, 'a list) rd" where
  "readVec sz fn =
     bindR r_u32 (\<lambda>n. bindR (reserveDecodedSlice sz n) (\<lambda>_. repeatR (unat n) fn))"

definition boundedVecCap :: "u32 \<Rightarrow> nat \<Rightarrow> nat" where
  "boundedVecCap n remainingBytes =
     (let capHint = (if remainingBytes > 1024 then 1024 else remainingBytes)
      in if unat n < capHint then unat n else capHint)"

definition readMetadataVec :: "u64 \<Rightarrow> (reader, 'a) rd \<Rightarrow> (reader, 'a list) rd" where
  "readMetadataVec sz fn =
     bindR r_u32 (\<lambda>n. bindR leftR (\<lambda>left.
       if unat n > left then failAt ErrIndexOutOfBounds
       else bindR (reserveMetadataStorage sz n) (\<lambda>_. repeatR (unat n) fn)))"

section \<open>Types\<close>

definition decodeNumType :: "(reader, NumType) rd" where
  "decodeNumType = bindR r_byte (\<lambda>b.
     if b \<in> {NumI32, NumI64, NumF32, NumF64} then returnR b else failBack ErrInvalidType)"

definition isAbsHeapByte :: "byte \<Rightarrow> bool" where
  "isAbsHeapByte b = (b \<ge> 0x69 \<and> b \<le> 0x74 \<or> b = 0x64)"

definition decodeAbsHeapType :: "(reader, AbsHeapType) rd" where
  "decodeAbsHeapType = bindR r_byte (\<lambda>b. if isAbsHeapByte b then returnR b else failBack ErrInvalidType)"

definition decodeTypeIdx :: "(reader, TypeIdx) rd" where
  "decodeTypeIdx = mapR (\<lambda>x. \<lparr>ti_Index = x, ti_Rec = False\<rparr>) r_u32"

definition decodeS33TypeIdx :: "(reader, TypeIdx) rd" where
  "decodeS33TypeIdx = bindR r_s33 (\<lambda>x.
     if sint x < 0 then failAt ErrInvalidType else returnR \<lparr>ti_Index = ucast x, ti_Rec = False\<rparr>)"

definition decodeHeapType :: "(reader, HeapType) rd" where
  "decodeHeapType = bindR peekR (\<lambda>ob.
     case ob of
       Some b \<Rightarrow> if isAbsHeapByte b then mapR AbsHeap decodeAbsHeapType else mapR IndexedHeap decodeS33TypeIdx
     | None \<Rightarrow> mapR IndexedHeap decodeS33TypeIdx)"

definition decodeRefHeapType :: "(reader, bool \<times> HeapType) rd" where
  "decodeRefHeapType = bindR peekR (\<lambda>ob.
     if ob = Some 0x62
     then bindR r_byte (\<lambda>_. mapR (\<lambda>idx. (True, IndexedHeap idx)) decodeS33TypeIdx)
     else mapR (\<lambda>ht. (False, ht)) decodeHeapType)"

definition decodeRefType :: "(reader, RefType) rd" where
  "decodeRefType = bindR r_byte (\<lambda>b.
     if b = 0x63 then mapR (\<lambda>(exact, ht). Ref True ht exact) decodeRefHeapType
     else if b = 0x64 then mapR (\<lambda>(exact, ht). Ref False ht exact) decodeRefHeapType
     else if isAbsHeapByte b then returnR (AbsRef b)
     else failBack ErrInvalidType)"

definition decodeValType :: "(reader, ValType) rd" where
  "decodeValType = bindR peekR (\<lambda>ob.
     case ob of
       None \<Rightarrow> failAt ErrIndexOutOfBounds
     | Some b \<Rightarrow>
         if b \<in> {0x7f, 0x7e, 0x7d, 0x7c} then mapR (newValType ValNum) decodeNumType
         else if b = 0x7b then bindR r_byte (\<lambda>_. returnR V128)
         else if b \<in> {0x63, 0x64, 0x6f, 0x70, 0x6e, 0x6d, 0x6c, 0x6b, 0x6a, 0x69, 0x71, 0x72, 0x73, 0x74}
         then mapR RefVal decodeRefType
         else failAt ErrInvalidType)"

definition sizeofTypeIdx :: u64 where "sizeofTypeIdx = 8"
definition sizeofValType :: u64 where "sizeofValType = 16"
definition sizeofImport :: u64 where "sizeofImport = 72"
definition sizeofMemType :: u64 where "sizeofMemType = 32"
definition sizeofTagType :: u64 where "sizeofTagType = 8"
definition sizeofExport :: u64 where "sizeofExport = 24"
definition sizeofLocalRun :: u64 where "sizeofLocalRun = 24"
definition sizeofSubType :: u64 where "sizeofSubType = 152"
definition sizeofRecType :: u64 where "sizeofRecType = 24"

definition decodeResultType :: "(reader, ValType list) rd" where
  "decodeResultType = readVec sizeofValType decodeValType"

definition decodeMut :: "(reader, Mut) rd" where
  "decodeMut = bindR r_byte (\<lambda>b.
     if b = 0 then returnR Const else if b = 1 then returnR Var else failBack ErrInvalidType)"

definition decodeStorageType :: "(reader, StorageType) rd" where
  "decodeStorageType = bindR peekR (\<lambda>ob.
     case ob of
       Some b \<Rightarrow> if b = 0x77 \<or> b = 0x78 then bindR r_byte (\<lambda>_. returnR (StoragePacked b))
                 else mapR StorageVal decodeValType
     | None \<Rightarrow> mapR StorageVal decodeValType)"

definition decodeFieldType :: "(reader, FieldType) rd" where
  "decodeFieldType = bindR decodeStorageType (\<lambda>st. bindR decodeMut (\<lambda>m. returnR (NewFieldType st m)))"

definition zeroCompType :: "CompTypeKind \<Rightarrow> CompType" where
  "zeroCompType k = \<lparr>ct_Kind = k, ct_Array = \<lparr>lo = 0, hi = 0\<rparr>, ct_Fields = [], ct_Params = [], ct_Results = []\<rparr>"

definition decodeCompType :: "(reader, CompType) rd" where
  "decodeCompType = bindR r_byte (\<lambda>b.
     if b = 0x5e then mapR (\<lambda>ft. (zeroCompType CompArray)\<lparr>ct_Array := ft\<rparr>) decodeFieldType
     else if b = 0x5f then mapR (\<lambda>f. (zeroCompType CompStruct)\<lparr>ct_Fields := f\<rparr>) (readVec sizeofValType decodeFieldType)
     else if b = 0x60 then
       bindR decodeResultType (\<lambda>p. mapR (\<lambda>res. (zeroCompType CompFunc)\<lparr>ct_Params := p, ct_Results := res\<rparr>) decodeResultType)
     else failBack ErrInvalidType)"

text \<open>
  The metadata loop: \<open>describes\<close> (0x4c) at most once and before \<open>descriptor\<close> (0x4d), which occurs
  at most once.
\<close>

function typeMetadataLoop :: "TypeMetadata \<Rightarrow> (reader, TypeMetadata) rd" where
  "typeMetadataLoop tm r =
     (case r_peek r of
        None \<Rightarrow> (Inr tm, r)
      | Some b \<Rightarrow>
          if b \<noteq> 0x4c \<and> b \<noteq> 0x4d then (Inr tm, r)
          else
            (case decodeTypeIdx (snd (r_byte r)) of
               (Inl e, r1) \<Rightarrow> (Inl e, r1)
             | (Inr idx, r1) \<Rightarrow>
                 if b = 0x4c then
                   (if OptionalTypeIdx_Present (tm_Describes tm) \<or> OptionalTypeIdx_Present (tm_Descriptor tm)
                    then (Inl (DecodeError ErrInvalidType (pos r1)), r1)
                    else typeMetadataLoop (tm\<lparr>tm_Describes := SomeTypeIdx idx\<rparr>) r1)
                 else
                   (if OptionalTypeIdx_Present (tm_Descriptor tm)
                    then (Inl (DecodeError ErrInvalidType (pos r1)), r1)
                    else typeMetadataLoop (tm\<lparr>tm_Descriptor := SomeTypeIdx idx\<rparr>) r1)))"
  by pat_completeness auto
termination
  by (relation "measure (\<lambda>(tm, _). (if OptionalTypeIdx_Present (tm_Describes tm) then 0 else 1)
                                 + (if OptionalTypeIdx_Present (tm_Descriptor tm) then 0 else 1))")
     (auto simp: optional_type_idx)

declare typeMetadataLoop.simps [simp del]

definition noTypeMetadata :: TypeMetadata where
  "noTypeMetadata = \<lparr>tm_Describes = noTypeIdx, tm_Descriptor = noTypeIdx\<rparr>"

definition decodeTypeMetadata :: "(reader, TypeMetadata) rd" where
  "decodeTypeMetadata = typeMetadataLoop noTypeMetadata"

definition decodeSubType :: "(reader, SubType) rd" where
  "decodeSubType = bindR r_reserveType (\<lambda>_. bindR peekR (\<lambda>ob.
     case ob of
       None \<Rightarrow> failAt ErrIndexOutOfBounds
     | Some b \<Rightarrow>
         bindR (if b = 0x4f \<or> b = 0x50
                then bindR r_byte (\<lambda>_. mapR (\<lambda>supers. (b = 0x4f, supers, True)) (readVec sizeofTypeIdx decodeTypeIdx))
                else returnR (True, [], False))
           (\<lambda>(final, supers, prefixed). bindR decodeTypeMetadata (\<lambda>meta. bindR decodeCompType (\<lambda>ct.
              returnR \<lparr>st_Final = final, st_Supers = supers, st_Metadata = meta, st_Comp = ct, st_HasPrefix = prefixed\<rparr>)))))"

definition decodeRecType :: "(reader, RecType) rd" where
  "decodeRecType = bindR peekR (\<lambda>ob.
     if ob = Some 0x4e
     then bindR r_byte (\<lambda>_. mapR (\<lambda>sts. \<lparr>SubTypes = sts\<rparr>) (readMetadataVec sizeofSubType decodeSubType))
     else mapR (\<lambda>st. \<lparr>SubTypes = [st]\<rparr>) decodeSubType)"


text \<open>
  The type section. Singleton groups are packed into slabs: \<open>slab\<close> is the number of free entries of
  the current slab and \<open>nextSlab\<close> the size of the next one; only the reservations depend on them.
\<close>

fun typeGroups :: "nat \<Rightarrow> nat \<Rightarrow> nat \<Rightarrow> (reader, RecType list) rd" where
  "typeGroups 0 slab nextSlab = returnR []"
| "typeGroups (Suc n) slab nextSlab =
     bindR peekR (\<lambda>ob.
       if ob = Some 0x4e
       then bindR decodeRecType (\<lambda>g. mapR ((#) g) (typeGroups n slab nextSlab))
       else
         (let count = min nextSlab (Suc n);
              (slab1, next1) = (if slab = 0 then (count, min (nextSlab * 2) 1024) else (slab, nextSlab))
          in bindR (if slab = 0 then reserveMetadataStorage sizeofSubType (of_nat count) else returnR ()) (\<lambda>_.
             bindR decodeSubType (\<lambda>st. mapR ((#) \<lparr>SubTypes = [st]\<rparr>) (typeGroups n (slab1 - 1) next1)))))"

definition decodeTypeSection :: "(reader, RecType list) rd" where
  "decodeTypeSection =
     bindR r_u32 (\<lambda>n r.
       (let b = budget_of r; r0 = r\<lparr>budget := Some b\<rparr>
        in if ucast n > MaxTypes (limits b) then (Inl (GroupCountLimitExceeded (MaxTypes (limits b))), r0)
           else if unat n > r_left r0 then (Inl (DecodeError ErrIndexOutOfBounds (pos r0)), r0)
           else bindR (reserveMetadataStorage sizeofRecType n) (\<lambda>_. typeGroups (unat n) 0 16) r0))"

section \<open>Limits and external types\<close>

definition noLimits :: Limits where
  "noLimits = \<lparr>lim_Min = 0, lim_Max = 0, lim_HasMax = False, lim_Addr64 = False\<rparr>"

definition decodeLimits :: "(reader, Limits) rd" where
  "decodeLimits = bindR r_byte (\<lambda>flag.
     if flag = 0 \<or> flag = 1 then
       bindR r_u32 (\<lambda>mn.
         (let l = noLimits\<lparr>lim_Min := ucast mn\<rparr>
          in if flag = 1 then mapR (\<lambda>mx. l\<lparr>lim_Max := ucast mx, lim_HasMax := True\<rparr>) r_u32 else returnR l))
     else if flag = 4 \<or> flag = 5 then
       bindR r_u64 (\<lambda>mn.
         (let l = noLimits\<lparr>lim_Addr64 := True, lim_Min := mn\<rparr>
          in if flag = 5 then mapR (\<lambda>mx. l\<lparr>lim_Max := mx, lim_HasMax := True\<rparr>) r_u64 else returnR l))
     else failBack ErrInvalidLimits)"

definition decodeMemType :: "(reader, MemType) rd" where
  "decodeMemType = bindR r_byte (\<lambda>flag. bindR offR (\<lambda>off.
     let flagOffset = off - 1; shared = (flag = 2 \<or> flag = 3 \<or> flag = 6 \<or> flag = 7) in
     if flag \<in> {0, 1, 2, 3} then
       bindR r_u32 (\<lambda>mn.
         (let l = noLimits\<lparr>lim_Min := ucast mn\<rparr>
          in if flag = 2 then failR (\<lambda>_. DecodeError ErrInvalidLimits flagOffset)
             else if flag = 1 \<or> flag = 3
             then mapR (\<lambda>mx. \<lparr>mt_Limits = l\<lparr>lim_Max := ucast mx, lim_HasMax := True\<rparr>, mt_Shared = shared\<rparr>) r_u32
             else returnR \<lparr>mt_Limits = l, mt_Shared = shared\<rparr>))
     else if flag \<in> {4, 5, 6, 7} then
       bindR r_u64 (\<lambda>mn.
         (let l = noLimits\<lparr>lim_Addr64 := True, lim_Min := mn\<rparr>
          in if flag = 6 then failR (\<lambda>_. DecodeError ErrInvalidLimits flagOffset)
             else if flag = 5 \<or> flag = 7
             then mapR (\<lambda>mx. \<lparr>mt_Limits = l\<lparr>lim_Max := mx, lim_HasMax := True\<rparr>, mt_Shared = shared\<rparr>) r_u64
             else returnR \<lparr>mt_Limits = l, mt_Shared = shared\<rparr>))
     else failBack ErrInvalidLimits))"

definition decodeTableType :: "(reader, TableType) rd" where
  "decodeTableType = bindR decodeRefType (\<lambda>rt. mapR (\<lambda>lim. \<lparr>tt_Ref = rt, tt_Limits = lim\<rparr>) decodeLimits)"

definition decodeGlobalType :: "(reader, GlobalType) rd" where
  "decodeGlobalType = bindR decodeValType (\<lambda>vt. mapR (\<lambda>m. \<lparr>gt_Type = vt, gt_Mutable = (m = Var)\<rparr>) decodeMut)"

definition decodeTagType :: "(reader, TagType) rd" where
  "decodeTagType = bindR r_byte (\<lambda>b.
     if b \<noteq> 0 then failBack ErrInvalidType else mapR (\<lambda>idx. \<lparr>tag_Type = idx\<rparr>) decodeTypeIdx)"

definition decodeExternTypeKind :: "ExternKind \<Rightarrow> (reader, ExternType) rd" where
  "decodeExternTypeKind kind =
     (if kind = ExternFunc then mapR NewFuncExternType decodeTypeIdx
      else if kind = ExternTable then mapR NewTableExternType decodeTableType
      else if kind = ExternMem then mapR NewMemExternType decodeMemType
      else if kind = ExternGlobal then mapR NewGlobalExternType decodeGlobalType
      else if kind = ExternTag then mapR NewTagExternType decodeTagType
      else failBack ErrInvalidImport)"

definition decodeExternType :: "(reader, ExternType) rd" where
  "decodeExternType = bindR r_byte decodeExternTypeKind"

section \<open>Imports, exports, locals\<close>

text \<open>
  One encoded import group: an ordinary import, or (empty name, kind 0x7e or 0x7f) a compact group
  whose members share the module name and, for 0x7e, the type.
\<close>

definition decodeImportGroup :: "(reader, Import list \<times> bool) rd" where
  "decodeImportGroup =
     bindR r_name (\<lambda>md. bindR r_name (\<lambda>nm. bindR r_byte (\<lambda>kindByte.
       if nm \<noteq> [] \<or> (kindByte \<noteq> 0x7e \<and> kindByte \<noteq> 0x7f)
       then mapR (\<lambda>et. ([\<lparr>im_Module = md, im_Name = nm, im_Type = et\<rparr>], False)) (decodeExternTypeKind kindByte)
       else
         bindR (if kindByte = 0x7e then bindR r_byte decodeExternTypeKind else returnR (zeroExternType 0)) (\<lambda>sharedType.
         bindR r_u32 (\<lambda>count. bindR leftR (\<lambda>left.
           if unat count > left then failAt ErrIndexOutOfBounds
           else bindR (reserveDecodedSlice sizeofImport count) (\<lambda>_.
             mapR (\<lambda>is. (is, True))
               (repeatR (unat count) (bindR r_name (\<lambda>field.
                  mapR (\<lambda>et. \<lparr>im_Module = md, im_Name = field, im_Type = et\<rparr>)
                    (if kindByte = 0x7f then bindR r_byte decodeExternTypeKind else returnR sharedType)))))))))))"

definition decodeImports :: "(reader, Import list \<times> bool) rd" where
  "decodeImports =
     bindR r_u32 (\<lambda>n. bindR (reserveDecodedSlice sizeofImport n) (\<lambda>_.
       mapR (\<lambda>gs. (concat (map fst gs), list_ex snd gs)) (repeatR (unat n) decodeImportGroup)))"

definition decodeExternIdx :: "(reader, ExternIdx) rd" where
  "decodeExternIdx = bindR r_byte (\<lambda>k. bindR r_u32 (\<lambda>idx.
     if k > 4 then failAt ErrInvalidExport else returnR \<lparr>ei_Kind = k, ei_Index = idx\<rparr>))"

definition decodeExport :: "(reader, Export) rd" where
  "decodeExport = bindR r_name (\<lambda>nm. mapR (\<lambda>idx. \<lparr>ex_Name = nm, ex_Index = idx\<rparr>) decodeExternIdx)"

text \<open>Locals: the closure passed to \<open>readVec\<close> keeps the running total of declared locals.\<close>

fun localRuns :: "nat \<Rightarrow> u64 \<Rightarrow> (reader, LocalRun list) rd" where
  "localRuns 0 tot = returnR []"
| "localRuns (Suc n) tot =
     bindR r_u32 (\<lambda>c. bindR decodeValType (\<lambda>vt.
       if (ucast c :: u64) > 0xFFFFFFFF - tot then failAt ErrInvalidModule
       else mapR ((#) \<lparr>lr_Count = c, lr_Type = vt\<rparr>) (localRuns n (tot + ucast c))))"

definition decodeLocals :: "(reader, Locals) rd" where
  "decodeLocals =
     bindR r_u32 (\<lambda>n. bindR (reserveDecodedSlice sizeofLocalRun n) (\<lambda>_.
       mapR (\<lambda>runs. \<lparr>Runs = runs\<rparr>) (localRuns (unat n) 0)))"

fun coalesceFrom :: "LocalRun \<Rightarrow> LocalRun list \<Rightarrow> LocalRun list" where
  "coalesceFrom lst [] = [lst]"
| "coalesceFrom lst (run # runs) =
     (if lr_Type lst = lr_Type run then coalesceFrom (lst\<lparr>lr_Count := lr_Count lst + lr_Count run\<rparr>) runs
      else lst # coalesceFrom run runs)"

definition coalesceCompilerLocalRuns :: "LocalRun list \<Rightarrow> LocalRun list" where
  "coalesceCompilerLocalRuns runs = (case runs of [] \<Rightarrow> [] | run # rest \<Rightarrow> coalesceFrom run rest)"

section \<open>Recursive type indexes\<close>

definition markRecursiveTypeIdx :: "TypeIdx \<Rightarrow> u32 \<Rightarrow> u32 \<Rightarrow> TypeIdx" where
  "markRecursiveTypeIdx idx base limit =
     (if ti_Rec idx \<or> ti_Index idx < base \<or> ti_Index idx \<ge> limit then idx
      else \<lparr>ti_Index = ti_Index idx - base, ti_Rec = True\<rparr>)"

definition markRecursiveRefTypeIndexes :: "RefType \<Rightarrow> u32 \<Rightarrow> u32 \<Rightarrow> RefType" where
  "markRecursiveRefTypeIndexes rt base limit =
     (let heap = RefType_Heap rt
      in if HeapType_Kind heap \<noteq> HeapTypeIndex then rt
         else WithHeap (IndexedHeap (markRecursiveTypeIdx (HeapType_Type heap) base limit)) rt)"

definition markRecursiveValTypeIndexes :: "ValType \<Rightarrow> u32 \<Rightarrow> u32 \<Rightarrow> ValType" where
  "markRecursiveValTypeIndexes vt base limit =
     (if ValType_Kind vt \<noteq> ValRef then vt
      else RefVal (markRecursiveRefTypeIndexes (ValType_Ref vt) base limit))"

definition markRecursiveFieldTypeIndexes :: "FieldType \<Rightarrow> u32 \<Rightarrow> u32 \<Rightarrow> FieldType" where
  "markRecursiveFieldTypeIndexes ft base limit =
     (let storage = Field_Storage ft
      in if Storage_Packed storage then ft
         else NewFieldType (StorageVal (markRecursiveValTypeIndexes (Storage_Val storage) base limit)) (Field_Mut ft))"

definition markRecursiveCompTypeIndexes :: "CompType \<Rightarrow> u32 \<Rightarrow> u32 \<Rightarrow> CompType" where
  "markRecursiveCompTypeIndexes ct base limit =
     (case ct_Kind ct of
        CompFunc \<Rightarrow> ct\<lparr>ct_Params := map (\<lambda>v. markRecursiveValTypeIndexes v base limit) (ct_Params ct),
                      ct_Results := map (\<lambda>v. markRecursiveValTypeIndexes v base limit) (ct_Results ct)\<rparr>
      | CompStruct \<Rightarrow> ct\<lparr>ct_Fields := map (\<lambda>f. markRecursiveFieldTypeIndexes f base limit) (ct_Fields ct)\<rparr>
      | CompArray \<Rightarrow> ct\<lparr>ct_Array := markRecursiveFieldTypeIndexes (ct_Array ct) base limit\<rparr>)"

definition markOptional :: "OptionalTypeIdx \<Rightarrow> u32 \<Rightarrow> u32 \<Rightarrow> OptionalTypeIdx" where
  "markOptional oti base limit =
     (case OptionalTypeIdx_Get oti of (idx, ok) \<Rightarrow>
        if ok then SomeTypeIdx (markRecursiveTypeIdx idx base limit) else oti)"

definition markRecursiveSubTypeIndexes :: "SubType \<Rightarrow> u32 \<Rightarrow> u32 \<Rightarrow> SubType" where
  "markRecursiveSubTypeIndexes st base limit =
     st\<lparr>st_Supers := map (\<lambda>i. markRecursiveTypeIdx i base limit) (st_Supers st),
        st_Metadata := \<lparr>tm_Describes = markOptional (tm_Describes (st_Metadata st)) base limit,
                        tm_Descriptor = markOptional (tm_Descriptor (st_Metadata st)) base limit\<rparr>,
        st_Comp := markRecursiveCompTypeIndexes (st_Comp st) base limit\<rparr>"

fun markGroups :: "u32 \<Rightarrow> RecType list \<Rightarrow> RecType list" where
  "markGroups base [] = []"
| "markGroups base (rt # rts) =
     (let limit = base + of_nat (length (SubTypes rt))
      in rt\<lparr>SubTypes := map (\<lambda>st. markRecursiveSubTypeIndexes st base limit) (SubTypes rt)\<rparr> # markGroups limit rts)"

definition markRecursiveTypeIndexes :: "RecType list \<Rightarrow> RecType list" where
  "markRecursiveTypeIndexes groups = markGroups 0 groups"


section \<open>The decoder contract\<close>

definition advances :: "reader \<Rightarrow> reader \<Rightarrow> bool" where
  "advances r r' =
     (data r' = data r \<and> pos r \<le> pos r' \<and> (pos r \<le> length (data r) \<longrightarrow> pos r' \<le> length (data r)) \<and>
      limits (budget_of r') = limits (budget_of r) \<and> remaining (budget_of r') \<le> remaining (budget_of r) \<and>
      types (budget_of r) \<le> types (budget_of r') \<and>
      (types (budget_of r) \<le> MaxTypes (limits (budget_of r)) \<longrightarrow>
         types (budget_of r') \<le> MaxTypes (limits (budget_of r))))"

definition decoder :: "(reader, 'a) rd \<Rightarrow> bool" where
  "decoder m = (\<forall>r. advances r (snd (m r)))"

text \<open>\<open>gives m P\<close>: every result of \<open>m\<close> satisfies \<open>P\<close>.\<close>

definition gives :: "('s, 'a) rd \<Rightarrow> ('a \<Rightarrow> bool) \<Rightarrow> bool" where
  "gives m P = (\<forall>r x r'. m r = (Inr x, r') \<longrightarrow> P x)"

lemma advances_refl [simp, intro]: "advances r r"
  by (simp add: advances_def)

lemma advances_trans: "advances r r' \<Longrightarrow> advances r' r'' \<Longrightarrow> advances r r''"
  unfolding advances_def by (intro conjI; elim conjE; simp)

lemma budget_of_pos [simp]: "budget_of (r\<lparr>pos := p\<rparr>) = budget_of r" "budget_of (r\<lparr>budget := Some b\<rparr>) = b"
  by (simp_all add: budget_of_def)

lemma advances_pos: "pos r \<le> p \<Longrightarrow> (pos r \<le> length (data r) \<longrightarrow> p \<le> length (data r)) \<Longrightarrow> advances r (r\<lparr>pos := p\<rparr>)"
  by (simp add: advances_def)

lemma decoderI: "(\<And>r x r'. m r = (x, r') \<Longrightarrow> advances r r') \<Longrightarrow> decoder m"
  by (simp add: decoder_def) (metis prod.collapse)

lemma decoderD: "decoder m \<Longrightarrow> m r = (x, r') \<Longrightarrow> advances r r'"
  by (metis decoder_def snd_conv)

lemma decoder_return [cursor_rules]: "decoder (returnR x)" and decoder_fail [cursor_rules]: "decoder (failR e)"
  by (simp_all add: decoder_def)

lemma decoder_failAt [cursor_rules]: "decoder (failAt c)" and decoder_failBack [cursor_rules]: "decoder (failBack c)"
  by (simp_all add: failAt_def failBack_def cursor_rules)

lemma decoder_bind [cursor_rules]:
  assumes "decoder m" "\<And>x. decoder (f x)"
  shows "decoder (bindR m f)"
proof (rule decoderI)
  fix r y r'
  assume e: "bindR m f r = (y, r')"
  obtain x r1 where m: "m r = (x, r1)" by fastforce
  then have "advances r r1" using assms(1) decoderD by metis
  moreover have "advances r1 r'"
  proof (cases x)
    case (Inl a)
    then show ?thesis using e m by (simp add: bindR_def)
  next
    case (Inr a)
    then have "f a r1 = (y, r')" using e m by (simp add: bindR_def)
    then show ?thesis using assms(2) decoderD by metis
  qed
  ultimately show "advances r r'" by (rule advances_trans)
qed

lemma decoder_map [cursor_rules]: "decoder m \<Longrightarrow> decoder (mapR f m)"
  by (simp add: mapR_def cursor_rules)

lemma decoder_if [cursor_rules]: "(c \<Longrightarrow> decoder a) \<Longrightarrow> (\<not> c \<Longrightarrow> decoder b) \<Longrightarrow> decoder (if c then a else b)"
  by simp

lemma decoder_option [cursor_rules]:
  "(x = None \<Longrightarrow> decoder a) \<Longrightarrow> (\<And>y. x = Some y \<Longrightarrow> decoder (b y)) \<Longrightarrow> decoder (case x of None \<Rightarrow> a | Some y \<Rightarrow> b y)"
  by (cases x) auto

lemma decoder_prod [cursor_rules]: "(\<And>a b. x = (a, b) \<Longrightarrow> decoder (f a b)) \<Longrightarrow> decoder (case x of (a, b) \<Rightarrow> f a b)"
  by (cases x) auto

lemma decoder_Let [cursor_rules]: "(\<And>x. x = e \<Longrightarrow> decoder (f x)) \<Longrightarrow> decoder (let x = e in f x)"
  by (simp add: Let_def)

lemma decoder_repeat [cursor_rules]: "decoder m \<Longrightarrow> decoder (repeatR n m)"
  by (induction n) (auto intro!: cursor_rules)

lemma decoder_peek [cursor_rules]: "decoder peekR" "decoder offR" "decoder leftR"
  by (simp_all add: decoder_def peekR_def offR_def leftR_def)

lemma decoder_byte [cursor_rules]: "decoder r_byte"
  by (rule decoderI) (auto simp: r_byte_def split: if_splits intro!: advances_pos)

lemma decoder_bytes [cursor_rules]: "decoder (r_bytes n)"
  by (rule decoderI) (auto simp: r_bytes_def split: if_splits intro!: advances_pos)

lemma decoder_leb [cursor_rules]: "decoder (r_leb sgd mb)"
proof -
  have "advances r (snd (leb_loop sgd mb i res sh r))" for i res sh r
  proof (induction sgd mb i res sh r rule: leb_loop.induct)
    case (1 sgd mb i res sh r)
    obtain x r1 where b: "r_byte r = (x, r1)" by fastforce
    then have a: "advances r r1" using decoder_byte decoderD by metis
    show ?case
    proof (cases "i \<ge> (mb + 6) div 7")
      case True
      then show ?thesis by (simp add: leb_loop.simps [of sgd mb i res sh r])
    next
      case False
      then show ?thesis
        using a b 1 [OF False]
        by (cases x) (auto simp: leb_loop.simps [of sgd mb i res sh r] Let_def intro: advances_trans)
    qed
  qed
  then show ?thesis by (simp add: decoder_def r_leb_def)
qed

lemma decoder_ints [cursor_rules]: "decoder r_u32" "decoder r_u33" "decoder r_u64" "decoder r_s33" "decoder r_i32" "decoder r_i64"
proof -
  have e: "r_u32 = mapR ucast (r_leb False 32)" "r_i32 = mapR ucast (r_leb True 32)"
    by (simp_all add: fun_eq_iff r_u32_leb r_i32_leb)
  show "decoder r_u32" "decoder r_u33" "decoder r_u64" "decoder r_s33" "decoder r_i32" "decoder r_i64"
    unfolding e r_u33_def r_u64_def r_s33_def r_i64_def by (intro cursor_rules)+
qed

section \<open>Reservations\<close>

lemma reserve_no_wrap:
  fixes c w m :: u64
  assumes "w = 0 \<or> \<not> c > m div w"
  shows "unat (c * w) = unat c * unat w" "unat c * unat w \<le> unat m"
proof -
  have "unat c * unat w \<le> unat m"
  proof (cases "w = 0")
    case False
    then have "c \<le> m div w" using assms by simp
    then have "unat c \<le> unat m div unat w" by (simp only: word_le_nat_alt unat_div)
    then have "unat c * unat w \<le> unat m div unat w * unat w" by simp
    then show ?thesis by (meson div_times_less_eq_dividend le_trans)
  qed simp
  then show "unat c * unat w \<le> unat m" .
  moreover have "unat m < 2 ^ 64" using unsigned_less [of m, where 'a = nat] by simp
  ultimately have "unat c * unat w < 2 ^ LENGTH(64)" by simp
  then show "unat (c * w) = unat c * unat w" by (simp add: unat_word_ariths)
qed

lemma reserve_exact:
  assumes "r_reserve c w r = (Inr u, r')"
  shows "unat (remaining (budget_of r)) = unat (remaining (budget_of r')) + unat c * unat w"
    and "limits (budget_of r') = limits (budget_of r)" "types (budget_of r') = types (budget_of r)"
    and "data r' = data r" "pos r' = pos r"
proof -
  let ?b = "budget_of r"
  have c: "w = 0 \<or> \<not> c > remaining ?b div w" and r': "r' = r\<lparr>budget := Some (?b\<lparr>remaining := remaining ?b - c * w\<rparr>)\<rparr>"
    using assms by (auto simp: r_reserve_def Let_def split: if_splits)
  have "c * w \<le> remaining ?b" using reserve_no_wrap [OF c] by (simp add: word_le_nat_alt)
  then have "unat (remaining ?b - c * w) = unat (remaining ?b) - unat (c * w)" by (rule unat_sub)
  then show "unat (remaining (budget_of r)) = unat (remaining (budget_of r')) + unat c * unat w"
    using reserve_no_wrap [OF c] by (simp add: r')
qed (use assms in \<open>auto simp: r_reserve_def Let_def split: if_splits\<close>)

lemma decoder_reserve [cursor_rules]: "decoder (r_reserve c w)"
proof (rule decoderI)
  fix r x r'
  assume e: "r_reserve c w r = (x, r')"
  show "advances r r'"
  proof (cases x)
    case (Inl a)
    then show ?thesis using e by (auto simp: r_reserve_def Let_def advances_def split: if_splits)
  next
    case (Inr a)
    note x = reserve_exact [OF e [unfolded Inr]]
    have "remaining (budget_of r') \<le> remaining (budget_of r)" using x(1) by (simp add: word_le_nat_alt)
    then show ?thesis using x(2-5) by (simp add: advances_def)
  qed
qed

lemma inc_bounded: "x < m \<Longrightarrow> x \<le> x + 1 \<and> x + 1 \<le> m" for x m :: u64
proof -
  assume "x < m"
  then have "unat x < unat m" by (simp add: word_less_nat_alt)
  moreover have "unat m < 2 ^ 64" using unsigned_less [of m, where 'a = nat] by simp
  ultimately have "unat (x + 1) = unat x + 1" by (simp add: unat_word_ariths)
  then show ?thesis using \<open>unat x < unat m\<close> by (simp add: word_le_nat_alt)
qed

lemma decoder_reserveType [cursor_rules]: "decoder r_reserveType"
proof (rule decoderI)
  fix r x r'
  assume e: "r_reserveType r = (x, r')"
  let ?b = "budget_of r"
  have "types ?b < MaxTypes (limits ?b) \<Longrightarrow> types ?b \<le> types ?b + 1 \<and> types ?b + 1 \<le> MaxTypes (limits ?b)"
    by (rule inc_bounded)
  then show "advances r r'"
    using e by (auto simp: r_reserveType_def Let_def advances_def split: if_splits)
qed

section \<open>Every metadata decoder keeps the contract\<close>

lemma decoder_storage [cursor_rules]: "decoder (reserveDecodedSlice sz n)" "decoder (reserveMetadataStorage sz n)" "decoder r_name"
  unfolding reserveDecodedSlice_def reserveMetadataStorage_def r_name_def by (intro cursor_rules)+

text \<open>
  Vector decoding is generic in the element decoder. The locale fixes one that keeps the contract
  and proves what its vectors promise; it is interpreted on the element decoders of the code.
\<close>

locale element_decoder =
  fixes fn :: "(reader, 'a) rd" and sz :: u64
  assumes fn_decoder: "decoder fn" and sz_small: "unat sz < 2 ^ 40"
begin

lemma vec_decoder: "decoder (readVec sz fn)" and metadata_vec_decoder: "decoder (readMetadataVec sz fn)"
  unfolding readVec_def readMetadataVec_def by (intro cursor_rules fn_decoder)+

lemma repeat_length: "repeatR n fn r = (Inr xs, r') \<Longrightarrow> length xs = n"
  by (induction n arbitrary: r xs) (auto simp: bindR_eq_Inr)

lemma stride: "unat (sz * 8 + 16) = unat sz * 8 + 16"
  using sz_small by (simp add: unat_word_ariths)

lemma vec_paid:
  assumes "readVec sz fn r = (Inr xs, r')"
  shows "unat (remaining (budget_of r')) + length xs * (unat sz * 8 + 16) \<le> unat (remaining (budget_of r))"
proof -
  obtain n r1 r2 where u: "r_u32 r = (Inr n, r1)" and s: "reserveDecodedSlice sz n r1 = (Inr (), r2)"
    and rep: "repeatR (unat n) fn r2 = (Inr xs, r')"
    using assms by (auto simp: readVec_def bindR_eq_Inr)
  have "advances r r1" "advances r2 r'"
    using u rep decoderD decoder_ints(1) decoder_repeat fn_decoder by metis+
  then have "remaining (budget_of r1) \<le> remaining (budget_of r)" "remaining (budget_of r') \<le> remaining (budget_of r2)"
    by (simp_all add: advances_def)
  moreover have "unat (remaining (budget_of r1)) = unat (remaining (budget_of r2)) + unat n * (unat sz * 8 + 16)"
    using reserve_exact(1) [OF s [unfolded reserveDecodedSlice_def]] stride by (simp add: unat_u32_u64)
  moreover have "length xs = unat n" using repeat_length [OF rep] .
  ultimately show ?thesis by (simp add: word_le_nat_alt)
qed

lemma metadata_vec_fits:
  assumes "readMetadataVec sz fn r = (Inr xs, r')" "pos r \<le> length (data r)"
  shows "length xs \<le> length (data r) - pos r"
proof -
  obtain n r1 r2 where u: "r_u32 r = (Inr n, r1)" and l: "\<not> unat n > r_left r1" and rep: "repeatR (unat n) fn r2 = (Inr xs, r')"
    using assms(1) by (auto simp: readMetadataVec_def bindR_eq_Inr leftR_def failAt_def split: if_splits)
  have "advances r r1" using u decoderD decoder_ints(1) by metis
  then have "r_left r1 \<le> length (data r) - pos r" by (auto simp: advances_def r_left_def)
  then show ?thesis using l repeat_length [OF rep] by simp
qed

end

lemma decoder_types [cursor_rules]:
  "decoder decodeNumType" "decoder decodeAbsHeapType" "decoder decodeTypeIdx" "decoder decodeS33TypeIdx"
  "decoder decodeMut"
  unfolding decodeNumType_def decodeAbsHeapType_def decodeTypeIdx_def decodeS33TypeIdx_def decodeMut_def
  by (intro cursor_rules)+

lemma decoder_heap [cursor_rules]: "decoder decodeHeapType" "decoder decodeRefHeapType" "decoder decodeRefType"
proof -
  show h: "decoder decodeHeapType" unfolding decodeHeapType_def by (intro cursor_rules)
  show r: "decoder decodeRefHeapType" unfolding decodeRefHeapType_def by (intro cursor_rules h)
  show "decoder decodeRefType" unfolding decodeRefType_def by (intro cursor_rules r)
qed

lemma decoder_val [cursor_rules]: "decoder decodeValType" "decoder decodeStorageType" "decoder decodeFieldType"
proof -
  show h: "decoder decodeValType" unfolding decodeValType_def by (intro cursor_rules)
  show r: "decoder decodeStorageType" unfolding decodeStorageType_def by (intro cursor_rules h)
  show "decoder decodeFieldType" unfolding decodeFieldType_def by (intro cursor_rules r)
qed

interpretation val_vec: element_decoder decodeValType sizeofValType
  by unfold_locales (auto simp: sizeofValType_def intro: cursor_rules)

interpretation field_vec: element_decoder decodeFieldType sizeofValType
  by unfold_locales (auto simp: sizeofValType_def intro: cursor_rules)

interpretation type_idx_vec: element_decoder decodeTypeIdx sizeofTypeIdx
  by unfold_locales (auto simp: sizeofTypeIdx_def intro: cursor_rules)

lemma decoder_comp [cursor_rules]: "decoder decodeResultType" "decoder decodeCompType"
proof -
  show h: "decoder decodeResultType" unfolding decodeResultType_def by (rule val_vec.vec_decoder)
  show "decoder decodeCompType" unfolding decodeCompType_def by (intro cursor_rules h field_vec.vec_decoder)
qed

lemma decoder_metadata [cursor_rules]: "decoder decodeTypeMetadata"
proof -
  have "advances r (snd (typeMetadataLoop tm r))" for tm r
  proof (induction tm r rule: typeMetadataLoop.induct)
    case (1 tm r)
    show ?case
    proof (cases "r_peek r = Some 0x4c \<or> r_peek r = Some 0x4d")
      case True
      then obtain b where b: "r_peek r = Some b" "b = 0x4c \<or> b = 0x4d" by auto
      obtain x r1 where d: "decodeTypeIdx (snd (r_byte r)) = (x, r1)" by fastforce
      have "advances r (snd (r_byte r))" using decoder_byte by (simp add: decoder_def)
      moreover have "advances (snd (r_byte r)) r1" using d decoder_types(3) decoderD by metis
      ultimately have a: "advances r r1" by (rule advances_trans)
      show ?thesis
        using a b d "1.IH" [OF b(1)]
        by (cases x) (auto simp: typeMetadataLoop.simps [of tm r] intro: advances_trans)
    next
      case False
      then show ?thesis by (auto simp: typeMetadataLoop.simps [of tm r] split: option.splits)
    qed
  qed
  then show ?thesis by (simp add: decoder_def decodeTypeMetadata_def)
qed

lemma decoder_subtype [cursor_rules]: "decoder decodeSubType"
  unfolding decodeSubType_def by (intro cursor_rules type_idx_vec.vec_decoder)

interpretation subtype_vec: element_decoder decodeSubType sizeofSubType
  by unfold_locales (auto simp: sizeofSubType_def intro: cursor_rules)

lemma decoder_rectype [cursor_rules]: "decoder decodeRecType"
  unfolding decodeRecType_def by (intro cursor_rules subtype_vec.metadata_vec_decoder)

lemma decoder_type_groups [cursor_rules]: "decoder (typeGroups n slab nextSlab)"
  by (induction n arbitrary: slab nextSlab) (simp_all only: typeGroups.simps, (intro cursor_rules | assumption)+)

lemma advances_budget: "advances r (r\<lparr>budget := Some (budget_of r)\<rparr>)"
  by (simp add: advances_def)

lemma decoder_type_section [cursor_rules]: "decoder decodeTypeSection"
proof -
  have "advances r (snd (bindR (reserveMetadataStorage sizeofRecType n) (\<lambda>_. typeGroups (unat n) 0 16) (r\<lparr>budget := Some (budget_of r)\<rparr>)))" for r n
  proof -
    have "decoder (bindR (reserveMetadataStorage sizeofRecType n) (\<lambda>_. typeGroups (unat n) 0 16))" by (intro cursor_rules)
    then show ?thesis using advances_budget advances_trans unfolding decoder_def by blast
  qed
  then show ?thesis
    unfolding decodeTypeSection_def
    by (intro decoder_bind decoder_ints) (simp add: decoder_def Let_def advances_budget)
qed

lemma decoder_limits [cursor_rules]: "decoder decodeLimits" "decoder decodeMemType"
  unfolding decodeLimits_def decodeMemType_def by (intro cursor_rules)+

lemma decoder_externs [cursor_rules]:
  "decoder decodeTableType" "decoder decodeGlobalType" "decoder decodeTagType" "decoder (decodeExternTypeKind k)" "decoder decodeExternType"
proof -
  show t: "decoder decodeTableType" "decoder decodeGlobalType" "decoder decodeTagType"
    unfolding decodeTableType_def decodeGlobalType_def decodeTagType_def by (intro cursor_rules)+
  show k: "decoder (decodeExternTypeKind k)" for k unfolding decodeExternTypeKind_def by (intro cursor_rules t)
  show "decoder decodeExternType" unfolding decodeExternType_def by (intro cursor_rules k)
qed

lemma decoder_imports [cursor_rules]: "decoder decodeImportGroup" "decoder decodeImports"
proof -
  show g: "decoder decodeImportGroup" unfolding decodeImportGroup_def by (intro cursor_rules)
  show "decoder decodeImports" unfolding decodeImports_def by (intro cursor_rules g)
qed

lemma decoder_exports [cursor_rules]: "decoder decodeExternIdx" "decoder decodeExport"
proof -
  show g: "decoder decodeExternIdx" unfolding decodeExternIdx_def by (intro cursor_rules)
  show "decoder decodeExport" unfolding decodeExport_def by (intro cursor_rules g)
qed

lemma decoder_locals [cursor_rules]: "decoder (localRuns n t)" "decoder decodeLocals"
proof -
  show l: "decoder (localRuns n t)" for n t
    by (induction n arbitrary: t) (simp_all only: localRuns.simps, (intro cursor_rules | assumption)+)
  show "decoder decodeLocals" unfolding decodeLocals_def by (intro cursor_rules l)
qed

interpretation mem_vec: element_decoder decodeMemType sizeofMemType
  by unfold_locales (auto simp: sizeofMemType_def intro: cursor_rules)

interpretation tag_vec: element_decoder decodeTagType sizeofTagType
  by unfold_locales (auto simp: sizeofTagType_def intro: cursor_rules)

interpretation export_vec: element_decoder decodeExport sizeofExport
  by unfold_locales (auto simp: sizeofExport_def intro: cursor_rules)

section \<open>Decoded types are canonical\<close>

lemma givesI: "(\<And>r x r'. m r = (Inr x, r') \<Longrightarrow> P x) \<Longrightarrow> gives m P"
  by (simp add: gives_def)

lemma givesD: "gives m P \<Longrightarrow> m r = (Inr x, r') \<Longrightarrow> P x"
  by (auto simp: gives_def)

lemma gives_return [result_rules]: "P x \<Longrightarrow> gives (returnR x) P"
  by (simp add: gives_def)

lemma gives_fail [result_rules]: "gives (failR e) P" "gives (failAt c) P" "gives (failBack c) P"
  by (simp_all add: gives_def failAt_def failBack_def)

lemma gives_any: "gives m (\<lambda>_. True)"
  by (simp add: gives_def)

lemma gives_bind:
  assumes "gives m Q" "\<And>x. Q x \<Longrightarrow> gives (f x) P"
  shows "gives (bindR m f) P"
  using assms by (intro givesI) (auto simp: bindR_eq_Inr dest: givesD)

lemma gives_bind_any [result_rules]: "(\<And>x. gives (f x) P) \<Longrightarrow> gives (bindR m f) P"
  by (auto simp: gives_def bindR_eq_Inr)

lemma gives_map: "gives m Q \<Longrightarrow> (\<And>x. Q x \<Longrightarrow> P (f x)) \<Longrightarrow> gives (mapR f m) P"
  by (auto simp: gives_def mapR_eq_Inr)

lemma gives_map_any: "(\<And>x. P (f x)) \<Longrightarrow> gives (mapR f m) P"
  by (auto simp: gives_def mapR_eq_Inr)

lemma gives_if [result_rules]: "(c \<Longrightarrow> gives a P) \<Longrightarrow> (\<not> c \<Longrightarrow> gives b P) \<Longrightarrow> gives (if c then a else b) P"
  by simp

lemma gives_option [result_rules]:
  "(x = None \<Longrightarrow> gives a P) \<Longrightarrow> (\<And>y. x = Some y \<Longrightarrow> gives (b y) P) \<Longrightarrow> gives (case x of None \<Rightarrow> a | Some y \<Rightarrow> b y) P"
  by (cases x) auto

lemma gives_repeat: "gives m P \<Longrightarrow> gives (repeatR n m) (list_all P)"
proof (induction n)
  case (Suc n)
  then have "gives (bindR (repeatR n m) (\<lambda>xs. returnR (x # xs))) (list_all P)" if "P x" for x
    using that by (auto intro!: gives_bind [where Q = "list_all P"] gives_return)
  then show ?case using Suc.prems by (auto intro!: gives_bind [where Q = P])
qed (simp add: gives_return)

lemma gives_vec: "gives fn P \<Longrightarrow> gives (readVec sz fn) (list_all P)"
  unfolding readVec_def by (intro result_rules gives_repeat)

lemma gives_heap: "gives decodeHeapType heap_canon"
  unfolding decodeHeapType_def by (intro result_rules gives_map_any) (simp_all add: pack_simps)

lemma heap_canon_wf: "heap_canon h \<Longrightarrow> heap_wf h"
  by (simp add: heap_canon_def)

lemma gives_ref_heap: "gives decodeRefHeapType (\<lambda>(_, h). heap_canon h)"
proof -
  have "gives (mapR (\<lambda>ht. (False, ht)) decodeHeapType) (\<lambda>(_, h). heap_canon h)"
    by (rule gives_map [OF gives_heap]) simp
  moreover have "gives (mapR (\<lambda>idx. (True, IndexedHeap idx)) decodeS33TypeIdx) (\<lambda>(_, h). heap_canon h)"
    by (rule gives_map_any) (simp add: pack_simps)
  ultimately show ?thesis unfolding decodeRefHeapType_def by (intro result_rules)
qed

lemma gives_ref: "gives decodeRefType (\<lambda>rt. ref_wf rt \<and> heap_canon (RefType_Heap rt))"
  unfolding decodeRefType_def
  by (intro result_rules gives_map [OF gives_ref_heap]) (auto simp: pack_simps heap_canon_wf split: prod.splits)

lemma gives_val: "gives decodeValType val_canon"
  unfolding decodeValType_def
  by (intro result_rules gives_map [OF gives_ref] gives_map_any) (auto simp: pack_simps)

lemma gives_storage: "gives decodeStorageType storage_canon"
  unfolding decodeStorageType_def
  by (intro result_rules gives_map [OF gives_val]) (auto simp: pack_simps)

lemma gives_field: "gives decodeFieldType field_canon"
  unfolding decodeFieldType_def
  by (intro result_rules gives_bind [OF gives_storage]) (auto simp: pack_simps)

lemma gives_comp: "gives decodeCompType comp_canon"
  unfolding decodeCompType_def decodeResultType_def
  by (intro result_rules gives_map [OF gives_field] gives_map [OF gives_vec [OF gives_field]]
      gives_bind [OF gives_vec [OF gives_val]] gives_map [OF gives_vec [OF gives_val]])
     (auto simp: comp_canon_def zeroCompType_def)


section \<open>Locals\<close>

definition local_total :: "LocalRun list \<Rightarrow> nat" where
  "local_total runs = sum_list (map (\<lambda>run. unat (lr_Count run)) runs)"

text \<open>The locals a list of runs declares, one by one.\<close>

definition expand_runs :: "LocalRun list \<Rightarrow> ValType list" where
  "expand_runs runs = concat (map (\<lambda>run. replicate (unat (lr_Count run)) (lr_Type run)) runs)"

lemma localRuns_total:
  "localRuns n t r = (Inr runs, r') \<Longrightarrow> unat t \<le> 0xFFFFFFFF \<Longrightarrow>
     unat t + local_total runs \<le> 0xFFFFFFFF \<and> length runs = n \<and> list_all (\<lambda>run. val_canon (lr_Type run)) runs"
proof (induction n arbitrary: t r runs)
  case 0
  then show ?case by (simp add: local_total_def)
next
  case (Suc n)
  from Suc.prems(1) obtain c r1 vt r2 rs where vt: "decodeValType r1 = (Inr vt, r2)"
    and ok: "\<not> (ucast c :: u64) > 0xFFFFFFFF - t"
    and rest: "localRuns n (t + ucast c) r2 = (Inr rs, r')" and runs: "runs = \<lparr>lr_Count = c, lr_Type = vt\<rparr> # rs"
    by (auto simp: bindR_eq_Inr mapR_eq_Inr failAt_def split: if_splits)
  have "t \<le> 0xFFFFFFFF" using Suc.prems(2) by (simp add: word_le_nat_alt)
  then have "unat (0xFFFFFFFF - t) = 0xFFFFFFFF - unat t" by (simp add: unat_sub)
  then have c: "unat t + unat c \<le> 0xFFFFFFFF"
    using ok Suc.prems(2) by (simp add: word_less_nat_alt unat_u32_u64 not_less)
  then have s: "unat (t + ucast c) = unat t + unat c" by (simp add: unat_word_ariths unat_u32_u64)
  then have "unat (t + ucast c) \<le> 0xFFFFFFFF" using c by simp
  from Suc.IH [OF rest this] show ?case
    using s runs givesD [OF gives_val vt] by (auto simp: local_total_def)
qed

lemma decodeLocals_total:
  assumes "decodeLocals r = (Inr l, r')"
  shows "local_total (Runs l) \<le> 0xFFFFFFFF" "list_all (\<lambda>run. val_canon (lr_Type run)) (Runs l)"
proof -
  from assms obtain n r1 runs where "localRuns n 0 r1 = (Inr runs, r')" "l = \<lparr>Runs = runs\<rparr>"
    by (auto simp: decodeLocals_def bindR_eq_Inr mapR_eq_Inr)
  then show "local_total (Runs l) \<le> 0xFFFFFFFF" "list_all (\<lambda>run. val_canon (lr_Type run)) (Runs l)"
    using localRuns_total [of n 0 r1 runs r'] by auto
qed

lemma coalesceFrom_expand:
  "unat (lr_Count lst) + local_total runs \<le> 0xFFFFFFFF \<Longrightarrow>
     expand_runs (coalesceFrom lst runs) = expand_runs (lst # runs)"
proof (induction lst runs rule: coalesceFrom.induct)
  case (2 lst run runs)
  show ?case
  proof (cases "lr_Type lst = lr_Type run")
    case True
    have u: "unat (lr_Count lst + lr_Count run) = unat (lr_Count lst) + unat (lr_Count run)"
      using "2.prems" by (simp add: unat_word_ariths local_total_def)
    have "expand_runs (coalesceFrom lst (run # runs)) = expand_runs (lst\<lparr>lr_Count := lr_Count lst + lr_Count run\<rparr> # runs)"
      using "2.IH"(1) [OF True] "2.prems" True u by (simp add: local_total_def)
    then show ?thesis using True u by (simp add: expand_runs_def replicate_add)
  next
    case False
    then have "expand_runs (coalesceFrom run runs) = expand_runs (run # runs)"
      using "2.IH"(2) [OF False] "2.prems" by (simp add: local_total_def)
    then show ?thesis using False by (simp add: expand_runs_def)
  qed
qed (simp add: expand_runs_def)

lemma coalesceFrom_distinct:
  "\<exists>h rest. coalesceFrom lst runs = h # rest \<and> lr_Type h = lr_Type lst \<and>
     successively (\<lambda>a b. lr_Type a \<noteq> lr_Type b) (coalesceFrom lst runs)"
proof (induction lst runs rule: coalesceFrom.induct)
  case (2 lst run runs)
  show ?case
  proof (cases "lr_Type lst = lr_Type run")
    case True
    then show ?thesis using "2.IH"(1) by auto
  next
    case False
    then obtain h rest where "coalesceFrom run runs = h # rest" "lr_Type h = lr_Type run"
      "successively (\<lambda>a b. lr_Type a \<noteq> lr_Type b) (coalesceFrom run runs)"
      using "2.IH"(2) by auto
    then show ?thesis using False by auto
  qed
qed simp

lemma coalesce_runs:
  assumes "local_total runs \<le> 0xFFFFFFFF"
  shows "expand_runs (coalesceCompilerLocalRuns runs) = expand_runs runs"
    "successively (\<lambda>a b. lr_Type a \<noteq> lr_Type b) (coalesceCompilerLocalRuns runs)"
proof -
  show "expand_runs (coalesceCompilerLocalRuns runs) = expand_runs runs"
    using assms by (cases runs) (simp_all add: coalesceCompilerLocalRuns_def coalesceFrom_expand local_total_def)
  show "successively (\<lambda>a b. lr_Type a \<noteq> lr_Type b) (coalesceCompilerLocalRuns runs)"
  proof (cases runs)
    case (Cons run rest)
    then show ?thesis using coalesceFrom_distinct [of run rest] by (auto simp: coalesceCompilerLocalRuns_def)
  qed (simp add: coalesceCompilerLocalRuns_def)
qed

section \<open>Recursive indexes\<close>

text \<open>The absolute index a marked index stands for in the group that starts at \<open>base\<close>.\<close>

definition absolute_idx :: "u32 \<Rightarrow> TypeIdx \<Rightarrow> u32" where
  "absolute_idx base idx = (if ti_Rec idx then base + ti_Index idx else ti_Index idx)"

fun map_heap_view :: "(TypeIdx \<Rightarrow> TypeIdx) \<Rightarrow> heap_view \<Rightarrow> heap_view" where
  "map_heap_view f (IndexV i) = IndexV (f i)"
| "map_heap_view f v = v"

fun map_val_view :: "(TypeIdx \<Rightarrow> TypeIdx) \<Rightarrow> val_view \<Rightarrow> val_view" where
  "map_val_view f (RefV n e h) = RefV n e (map_heap_view f h)"
| "map_val_view f v = v"

fun map_storage_view :: "(TypeIdx \<Rightarrow> TypeIdx) \<Rightarrow> storage_view \<Rightarrow> storage_view" where
  "map_storage_view f (PlainV v) = PlainV (map_val_view f v)"
| "map_storage_view f v = v"

lemma mark_idx:
  assumes "\<not> ti_Rec idx"
  shows "absolute_idx base (markRecursiveTypeIdx idx base limit) = ti_Index idx"
    "ti_Rec (markRecursiveTypeIdx idx base limit) \<longleftrightarrow> base \<le> ti_Index idx \<and> ti_Index idx < limit"
  using assms by (auto simp: absolute_idx_def markRecursiveTypeIdx_def)

text \<open>
  Marking and, later, resolving recursive indexes rewrite a type the same way: only the index of an
  indexed heap type changes, through the reference, value and field layers.
\<close>

locale index_rewriting =
  fixes idx :: "TypeIdx \<Rightarrow> TypeIdx"
    and ref :: "RefType \<Rightarrow> RefType"
    and val :: "ValType \<Rightarrow> ValType"
    and field :: "FieldType \<Rightarrow> FieldType"
  assumes ref: "ref rt = (if HeapType_Kind (RefType_Heap rt) \<noteq> HeapTypeIndex then rt
      else WithHeap (IndexedHeap (idx (HeapType_Type (RefType_Heap rt)))) rt)"
    and val: "val v = (if ValType_Kind v \<noteq> ValRef then v else RefVal (ref (ValType_Ref v)))"
    and field: "field f = (if Storage_Packed (Field_Storage f) then f
      else NewFieldType (StorageVal (val (Storage_Val (Field_Storage f)))) (Field_Mut f))"
begin

lemma val_rewritten:
  assumes "val_canon v"
  shows "val_canon (val v) \<and> val_view (val v) = map_val_view idx (val_view v)"
proof (cases "ValType_Kind v = ValRef")
  case True
  let ?rt = "ValType_Ref v" and ?h = "RefType_Heap (ValType_Ref v)"
  have w: "ref_wf ?rt" "heap_canon ?h" using True assms by (simp_all add: val_canon_def pack_simps)
  have vw: "val_view v = RefV (Nullable ?rt) (Exact ?rt) (heap_view ?h)" using True by (simp add: val_view_def Let_def)
  have eq: "RefVal ?rt = v" using ref_val_collapse True assms by (simp add: val_canon_def)
  show ?thesis
  proof (cases "HeapType_Kind ?h = HeapTypeIndex")
    case True
    then have "heap_view ?h = IndexV (HeapType_Type ?h)" by (simp add: heap_view_def)
    then show ?thesis using True \<open>ValType_Kind v = ValRef\<close> vw by (simp add: val ref pack_simps)
  next
    case False
    then have "map_heap_view f (heap_view ?h) = heap_view ?h" for f
      by (cases "HeapType_Kind ?h") (auto simp: heap_view_def split: prod.splits)
    then show ?thesis using False \<open>ValType_Kind v = ValRef\<close> vw assms eq by (simp add: val ref)
  qed
next
  case False
  then have "map_val_view f (val_view v) = val_view v" for f
    by (cases "ValType_Kind v") (auto simp: val_view_def)
  then show ?thesis using False assms by (simp add: val)
qed

lemmas val_canon_rewritten = val_rewritten [THEN conjunct1]
lemmas val_view_rewritten = val_rewritten [THEN conjunct2]

lemma field_rewritten:
  assumes "field_canon f"
  shows "field_canon (field f) \<and>
     field_view (field f) = (Field_Mut f, map_storage_view idx (storage_view (Field_Storage f)))"
proof (cases "Storage_Packed (Field_Storage f)")
  case False
  then have "val_canon (Storage_Val (Field_Storage f))" using assms by (simp add: field_canon_def storage_canon_def)
  moreover have "storage_view (Field_Storage f) = PlainV (val_view (Storage_Val (Field_Storage f)))"
    using False by (simp add: storage_view_def)
  ultimately show ?thesis using False by (simp add: field pack_simps val_rewritten)
qed (use assms in \<open>auto simp: field field_view_def storage_view_def\<close>)

lemmas field_canon_rewritten = field_rewritten [THEN conjunct1]
lemmas field_view_rewritten = field_rewritten [THEN conjunct2]

end

interpretation marking: index_rewriting "\<lambda>i. markRecursiveTypeIdx i base limit" "\<lambda>rt. markRecursiveRefTypeIndexes rt base limit"
  "\<lambda>v. markRecursiveValTypeIndexes v base limit" "\<lambda>f. markRecursiveFieldTypeIndexes f base limit" for base limit
  by unfold_locales
    (simp_all add: markRecursiveRefTypeIndexes_def markRecursiveValTypeIndexes_def markRecursiveFieldTypeIndexes_def Let_def)

lemmas mark_val = marking.val_canon_rewritten marking.val_view_rewritten
lemmas mark_field = marking.field_canon_rewritten marking.field_view_rewritten

text \<open>
  The type indexes of a declared type, one list per place: the supertypes, the described and the describing type, and each
  value or field type of its composite type.
\<close>

fun heap_indexes :: "heap_view \<Rightarrow> TypeIdx list" where
  "heap_indexes (IndexV i) = [i]"
| "heap_indexes v = []"

fun val_indexes :: "val_view \<Rightarrow> TypeIdx list" where
  "val_indexes (RefV n e h) = heap_indexes h"
| "val_indexes v = []"

fun storage_indexes :: "storage_view \<Rightarrow> TypeIdx list" where
  "storage_indexes (PlainV v) = val_indexes v"
| "storage_indexes v = []"

definition field_indexes :: "FieldType \<Rightarrow> TypeIdx list" where
  "field_indexes f = storage_indexes (snd (field_view f))"

definition comp_indexes :: "CompType \<Rightarrow> TypeIdx list list" where
  "comp_indexes ct =
     (case ct_Kind ct of
        CompFunc \<Rightarrow> map (\<lambda>v. val_indexes (val_view v)) (ct_Params ct @ ct_Results ct)
      | CompStruct \<Rightarrow> map field_indexes (ct_Fields ct)
      | CompArray \<Rightarrow> [field_indexes (ct_Array ct)])"

definition optional_indexes :: "OptionalTypeIdx \<Rightarrow> TypeIdx list" where
  "optional_indexes oti = (case OptionalTypeIdx_Get oti of (idx, ok) \<Rightarrow> if ok then [idx] else [])"

definition type_indexes :: "SubType \<Rightarrow> TypeIdx list list" where
  "type_indexes st =
     [st_Supers st, optional_indexes (tm_Describes (st_Metadata st)), optional_indexes (tm_Descriptor (st_Metadata st))] @
     comp_indexes (st_Comp st)"

lemma optional_index: "optional_indexes (SomeTypeIdx i) = [i]" "optional_indexes noTypeIdx = []"
  by (simp_all add: optional_indexes_def optional_type_idx(1)) (simp add: OptionalTypeIdx_Get_def noTypeIdx_def)

lemma mapped_indexes:
  "heap_indexes (map_heap_view f h) = map f (heap_indexes h)"
  "val_indexes (map_val_view f v) = map f (val_indexes v)"
  "storage_indexes (map_storage_view f w) = map f (storage_indexes w)"
proof -
  show h: "heap_indexes (map_heap_view f h) = map f (heap_indexes h)" for h by (cases h) simp_all
  show v: "val_indexes (map_val_view f v) = map f (val_indexes v)" for v by (cases v) (simp_all add: h)
  show "storage_indexes (map_storage_view f w) = map f (storage_indexes w)" by (cases w) (simp_all add: v)
qed

lemma marked_comp_indexes:
  assumes "comp_canon ct"
  shows "comp_indexes (markRecursiveCompTypeIndexes ct base limit) = map (map (\<lambda>i. markRecursiveTypeIdx i base limit)) (comp_indexes ct)"
proof -
  have v: "val_indexes (val_view (markRecursiveValTypeIndexes v base limit)) = map (\<lambda>i. markRecursiveTypeIdx i base limit) (val_indexes (val_view v))"
    if "val_canon v" for v using that by (simp add: mark_val mapped_indexes)
  have f: "field_indexes (markRecursiveFieldTypeIndexes f base limit) = map (\<lambda>i. markRecursiveTypeIdx i base limit) (field_indexes f)"
    if "field_canon f" for f using that by (simp add: field_indexes_def mark_field mapped_indexes) (simp add: field_view_def)
  show ?thesis using assms
    by (cases "ct_Kind ct") (auto simp: comp_indexes_def markRecursiveCompTypeIndexes_def comp_canon_def list_all_iff v f)
qed

lemma marked_type_indexes:
  assumes "comp_canon (st_Comp st)"
  shows "type_indexes (markRecursiveSubTypeIndexes st base limit) = map (map (\<lambda>i. markRecursiveTypeIdx i base limit)) (type_indexes st)"
proof -
  have "optional_indexes (markOptional oti base limit) = map (\<lambda>i. markRecursiveTypeIdx i base limit) (optional_indexes oti)" for oti
    by (auto simp: optional_indexes_def markOptional_def optional_type_idx split: prod.splits)
  then show ?thesis using marked_comp_indexes [OF assms] by (simp add: type_indexes_def markRecursiveSubTypeIndexes_def)
qed

definition group_base :: "RecType list \<Rightarrow> nat \<Rightarrow> nat" where
  "group_base gs k = sum_list (map (\<lambda>g. length (SubTypes g)) (take k gs))"

lemma markGroups_nth:
  "k < length gs \<Longrightarrow>
     markGroups base gs ! k =
       (let b = base + of_nat (group_base gs k); l = b + of_nat (length (SubTypes (gs ! k)))
        in (gs ! k)\<lparr>SubTypes := map (\<lambda>st. markRecursiveSubTypeIndexes st b l) (SubTypes (gs ! k))\<rparr>)"
proof (induction gs arbitrary: base k)
  case (Cons g gs)
  show ?case
  proof (cases k)
    case 0
    then show ?thesis by (simp add: Let_def group_base_def)
  next
    case (Suc j)
    then have "base + of_nat (group_base (g # gs) k) = base + of_nat (length (SubTypes g)) + (of_nat (group_base gs j) :: u32)"
      by (simp add: group_base_def)
    then show ?thesis using Cons Suc by (simp add: Let_def add.assoc)
  qed
qed simp

lemma markGroups_length: "length (markGroups base gs) = length gs"
  by (induction gs arbitrary: base) (auto simp: Let_def)

lemma group_base_le: "k < length gs \<Longrightarrow> group_base gs k + length (SubTypes (gs ! k)) \<le> group_base gs (length gs)"
proof -
  assume k: "k < length gs"
  have "group_base gs k + length (SubTypes (gs ! k)) = group_base gs (Suc k)"
    using k by (simp add: group_base_def take_Suc_conv_app_nth)
  also have "\<dots> \<le> group_base gs (Suc k) + sum_list (map (\<lambda>g. length (SubTypes g)) (drop (Suc k) gs))" by simp
  also have "\<dots> = group_base gs (length gs)"
    unfolding group_base_def by (metis append_take_drop_id map_append sum_list.append take_all_iff order_refl)
  finally show ?thesis .
qed

section \<open>Properties\<close>

text \<open>
  C22. A reservation of \<open>count\<close> items of \<open>width\<close> bytes succeeds exactly when the product, computed
  without wrap-around, fits the remaining budget, and then takes exactly that many bytes; otherwise
  it fails with the configured limit and takes nothing.
\<close>

theorem reserve_takes_exact_product:
  "(if width \<noteq> 0 \<and> unat count * unat width > unat (remaining (budget_of r))
    then fst (r_reserve count width r) = Inl (MetadataLimitExceeded (MaxMetadataBytes (limits (budget_of r))) (pos r))
         \<and> budget_of (snd (r_reserve count width r)) = budget_of r
    else fst (r_reserve count width r) = Inr () \<and>
         unat (remaining (budget_of (snd (r_reserve count width r)))) + unat count * unat width = unat (remaining (budget_of r)))"
proof (cases "width \<noteq> 0 \<and> count > remaining (budget_of r) div width")
  case True
  then have "unat count > unat (remaining (budget_of r)) div unat width"
    by (simp only: word_less_nat_alt unat_div)
  then have "unat count * unat width > unat (remaining (budget_of r))"
    using True by (simp add: div_less_iff_less_mult unat_gt_0)
  then show ?thesis using True by (simp add: r_reserve_def Let_def)
next
  case False
  then have "unat count * unat width \<le> unat (remaining (budget_of r))" by (intro reserve_no_wrap) auto
  moreover have f: "fst (r_reserve count width r) = Inr ()" using False by (auto simp: r_reserve_def Let_def)
  moreover have "r_reserve count width r = (Inr (), snd (r_reserve count width r))" using f by (simp add: prod_eq_iff)
  then have "unat (remaining (budget_of r)) = unat (remaining (budget_of (snd (r_reserve count width r)))) + unat count * unat width"
    by (rule reserve_exact)
  ultimately show ?thesis by simp
qed

text \<open>
  C23. A decoded vector is paid for: after \<open>decodeResultType\<close> returns \<open>xs\<close>, the metadata budget has
  shrunk by at least 144 bytes (eight value types and the allocator allowance) per element, so the
  number of decoded elements is bounded by the configured metadata limit whatever the input claims.
\<close>

theorem decoded_vector_is_paid:
  assumes "decodeResultType r = (Inr xs, r')"
  shows "unat (remaining (budget_of r')) + length xs * 144 \<le> unat (remaining (budget_of r))"
  using val_vec.vec_paid [OF assms [unfolded decodeResultType_def]] by (simp add: sizeofValType_def)

lemma decoded_vector_is_paid_witness:
  "\<exists>r'. decodeResultType ((newReader [2, 0x7f, 0x70])\<lparr>budget := Some (newDecodeBudget \<lparr>MaxTypes = 10, MaxMetadataBytes = 1000\<rparr>)\<rparr>) =
     (Inr [I32, FuncRef], r') \<and> unat (remaining (budget_of r')) + 2 * 144 \<le> 1000"
proof -
  let ?r = "(newReader [2, 0x7f, 0x70])\<lparr>budget := Some (newDecodeBudget \<lparr>MaxTypes = 10, MaxMetadataBytes = 1000\<rparr>)\<rparr>"
  have d: "fst (decodeResultType ?r) = Inr [I32, FuncRef]" by code_simp
  then have "decodeResultType ?r = (Inr [I32, FuncRef], snd (decodeResultType ?r))" by (simp add: prod_eq_iff)
  moreover from decoded_vector_is_paid [OF this]
  have "unat (remaining (budget_of (snd (decodeResultType ?r)))) + 2 * 144 \<le> 1000"
    by (simp add: budget_of_def newDecodeBudget_def)
  ultimately show ?thesis by blast
qed

text \<open>
  C24. Whatever bytes are decoded, the composite type \<open>decodeCompType\<close> returns is canonical: it only
  uses the bits the layout assigns, and so structural equality on it decides equality of types.
\<close>

theorem decoded_types_are_canonical:
  assumes "decodeCompType r = (Inr ct, r')"
  shows "comp_canon ct"
  using gives_comp assms by (rule givesD)

lemma decoded_types_are_canonical_witness:
  "\<exists>ct r'. decodeCompType (newReader [0x60, 1, 0x63, 0x05, 1, 0x7e]) = (Inr ct, r') \<and> comp_canon ct"
proof -
  let ?r = "newReader [0x60, 1, 0x63, 0x05, 1, 0x7e]"
  have "isl (fst (decodeCompType ?r)) = False" by code_simp
  then obtain ct where "fst (decodeCompType ?r) = Inr ct" by (cases "fst (decodeCompType ?r)") auto
  then have "decodeCompType ?r = (Inr ct, snd (decodeCompType ?r))" by (simp add: prod_eq_iff)
  with decoded_types_are_canonical [OF this] show ?thesis by blast
qed

text \<open>
  C27. A function body never declares more than \<open>2^32 - 1\<close> locals, and the compact form the
  compiler uses declares the same locals in the same order with no two neighbouring runs of one
  type, the 32-bit additions of run lengths included.
\<close>

theorem locals_bounded_and_coalesced:
  assumes "decodeLocals r = (Inr l, r')"
  shows "sum_list (map (\<lambda>run. unat (lr_Count run)) (Runs l)) \<le> 2 ^ 32 - 1 \<and>
    expand_runs (coalesceCompilerLocalRuns (Runs l)) = expand_runs (Runs l) \<and>
    successively (\<lambda>a b. lr_Type a \<noteq> lr_Type b) (coalesceCompilerLocalRuns (Runs l))"
  using decodeLocals_total [OF assms] coalesce_runs [of "Runs l"] by (simp add: local_total_def)

lemma locals_bounded_and_coalesced_witness:
  "\<exists>l r'. decodeLocals (newReader [3, 2, 0x7f, 1, 0x7f, 4, 0x7e]) = (Inr l, r') \<and>
     coalesceCompilerLocalRuns (Runs l) = [\<lparr>lr_Count = 3, lr_Type = I32\<rparr>, \<lparr>lr_Count = 4, lr_Type = I64\<rparr>] \<and>
     expand_runs (coalesceCompilerLocalRuns (Runs l)) = expand_runs (Runs l)"
proof -
  let ?r = "newReader [3, 2, 0x7f, 1, 0x7f, 4, 0x7e]"
  let ?l = "\<lparr>Runs = [\<lparr>lr_Count = 2, lr_Type = I32\<rparr>, \<lparr>lr_Count = 1, lr_Type = I32\<rparr>, \<lparr>lr_Count = 4, lr_Type = I64\<rparr>]\<rparr>"
  have "fst (decodeLocals ?r) = Inr ?l" by code_simp
  then have "decodeLocals ?r = (Inr ?l, snd (decodeLocals ?r))" by (simp add: prod_eq_iff)
  moreover have "coalesceCompilerLocalRuns (Runs ?l) = [\<lparr>lr_Count = 3, lr_Type = I32\<rparr>, \<lparr>lr_Count = 4, lr_Type = I64\<rparr>]" by code_simp
  moreover note locals_bounded_and_coalesced [of ?r ?l "snd (decodeLocals ?r)"]
  ultimately show ?thesis by blast
qed

text \<open>
  C25. Marking recursive indexes loses nothing and marks exactly the group's own members: in group
  \<open>k\<close> of a type section with at most \<open>2^32 - 1\<close> types, for every index of a declared type, whether of a
  supertype, of the described or describing type, or inside the composite type, an absolute index becomes
  relative iff it points into the group's half-open range, and the relative index denotes the same
  absolute type. No index is added, dropped or moved to another place.
\<close>

theorem marked_indexes_denote_the_same_types:
  assumes "k < length gs" "j < length (SubTypes (gs ! k))" "group_base gs (length gs) < 2 ^ 32"
    and "comp_canon (st_Comp (SubTypes (gs ! k) ! j))"
    and "\<forall>is \<in> set (type_indexes (SubTypes (gs ! k) ! j)). \<forall>i \<in> set is. \<not> ti_Rec i"
  shows "let base = group_base gs k
         in list_all2 (list_all2 (\<lambda>old new. absolute_idx (of_nat base) new = ti_Index old \<and>
              (ti_Rec new \<longleftrightarrow> base \<le> unat (ti_Index old) \<and> unat (ti_Index old) < base + length (SubTypes (gs ! k)))))
            (type_indexes (SubTypes (gs ! k) ! j)) (type_indexes (SubTypes (markRecursiveTypeIndexes gs ! k) ! j))"
proof -
  let ?b = "of_nat (group_base gs k) :: u32" and ?n = "length (SubTypes (gs ! k))" and ?st = "SubTypes (gs ! k) ! j"
  have "group_base gs k + ?n < 2 ^ 32" using group_base_le [OF assms(1)] assms(3) by simp
  then have u: "unat ?b = group_base gs k" "unat (?b + of_nat ?n) = group_base gs k + ?n"
    by (simp_all add: unat_of_nat unat_word_ariths take_bit_eq_mod)
  have "type_indexes (SubTypes (markRecursiveTypeIndexes gs ! k) ! j) =
      map (map (\<lambda>i. markRecursiveTypeIdx i ?b (?b + of_nat ?n))) (type_indexes ?st)"
    using assms(1,2) marked_type_indexes [OF assms(4)] by (simp add: markRecursiveTypeIndexes_def markGroups_nth Let_def)
  moreover have "absolute_idx ?b (markRecursiveTypeIdx i ?b (?b + of_nat ?n)) = ti_Index i \<and>
      (ti_Rec (markRecursiveTypeIdx i ?b (?b + of_nat ?n)) \<longleftrightarrow> group_base gs k \<le> unat (ti_Index i) \<and> unat (ti_Index i) < group_base gs k + ?n)"
    if "is \<in> set (type_indexes ?st)" "i \<in> set is" for "is" i
    using mark_idx [of i ?b "?b + of_nat ?n"] assms(5) that u by (simp add: word_le_nat_alt word_less_nat_alt)
  ultimately show ?thesis by (simp add: Let_def list.rel_map list.rel_refl_strong)
qed

definition plainIdx :: "u32 \<Rightarrow> TypeIdx" where "plainIdx i = \<lparr>ti_Index = i, ti_Rec = False\<rparr>"

definition funcWith :: "TypeIdx list \<Rightarrow> u32 \<Rightarrow> u32 \<Rightarrow> SubType" where
  "funcWith supers d p =
     \<lparr>st_Final = True, st_Supers = supers, st_Metadata = \<lparr>tm_Describes = noTypeIdx, tm_Descriptor = SomeTypeIdx (plainIdx d)\<rparr>,
      st_Comp = (zeroCompType CompFunc)\<lparr>ct_Params := [RefVal (Ref True (IndexedHeap (plainIdx p)) False)]\<rparr>, st_HasPrefix = True\<rparr>"

lemma marked_indexes_denote_the_same_types_witness:
  "let gs = [\<lparr>SubTypes = [funcWith [] 2 0]\<rparr>, \<lparr>SubTypes = [funcWith [plainIdx 0] 2 1, funcWith [plainIdx 1] 2 0]\<rparr>];
       new = type_indexes (SubTypes (markRecursiveTypeIndexes gs ! 1) ! 1)
   in \<exists>s d. new = [[s], [], [d], [plainIdx 0]] \<and> ti_Rec s \<and> absolute_idx 1 s = 1 \<and> ti_Rec d \<and> absolute_idx 1 d = 2"
proof -
  let ?gs = "[\<lparr>SubTypes = [funcWith [] 2 0]\<rparr>, \<lparr>SubTypes = [funcWith [plainIdx 0] 2 1, funcWith [plainIdx 1] 2 0]\<rparr>]"
  let ?new = "type_indexes (SubTypes (markRecursiveTypeIndexes ?gs ! 1) ! 1)"
  have t: "type_indexes (funcWith s d p) = [s, [], [plainIdx d], [plainIdx p]]" for s d p
    by (simp add: type_indexes_def funcWith_def optional_index comp_indexes_def zeroCompType_def pack_simps)
  have c: "comp_canon (st_Comp (funcWith s d p))" for s d p by (simp add: funcWith_def comp_canon_def zeroCompType_def pack_simps)
  have "list_all2 (list_all2 (\<lambda>old new. absolute_idx 1 new = ti_Index old \<and>
      (ti_Rec new \<longleftrightarrow> 1 \<le> unat (ti_Index old) \<and> unat (ti_Index old) < 3))) [[plainIdx 1], [], [plainIdx 2], [plainIdx 0]] ?new"
    using marked_indexes_denote_the_same_types [of 1 ?gs 1] by (simp add: group_base_def Let_def t c) (simp add: plainIdx_def numeral_3_eq_3)
  then obtain s d p where n: "?new = [[s], [], [d], [p]]" and "absolute_idx 1 s = 1" "ti_Rec s" "absolute_idx 1 d = 2" "ti_Rec d"
      "absolute_idx 1 p = 0" "\<not> ti_Rec p"
    by (auto simp: list_all2_Cons1 plainIdx_def)
  moreover from this have "p = plainIdx 0" by (cases p) (simp add: plainIdx_def absolute_idx_def)
  ultimately show ?thesis unfolding Let_def by blast
qed

text \<open>
  C26. Inside a composite type, marking changes nothing but the type indexes: the marked value or
  field type is canonical again and denotes the old type with every index replaced by its marked
  form, nullability, exactness, mutability and packing untouched.
\<close>

theorem marking_maps_the_view:
  assumes "val_canon v" "field_canon f"
  shows "val_view (markRecursiveValTypeIndexes v base limit) = map_val_view (\<lambda>i. markRecursiveTypeIdx i base limit) (val_view v) \<and>
    val_canon (markRecursiveValTypeIndexes v base limit) \<and>
    field_view (markRecursiveFieldTypeIndexes f base limit) =
      (Field_Mut f, map_storage_view (\<lambda>i. markRecursiveTypeIdx i base limit) (storage_view (Field_Storage f))) \<and>
    field_canon (markRecursiveFieldTypeIndexes f base limit)"
  using assms by (simp add: mark_val mark_field)

lemma marking_maps_the_view_witness:
  "val_view (markRecursiveValTypeIndexes (RefVal (Ref True (IndexedHeap \<lparr>ti_Index = 7, ti_Rec = False\<rparr>) True)) 5 9) =
     RefV True True (IndexV \<lparr>ti_Index = 2, ti_Rec = True\<rparr>)"
  using marking_maps_the_view [of "RefVal (Ref True (IndexedHeap \<lparr>ti_Index = 7, ti_Rec = False\<rparr>) True)"
      "NewFieldType (StoragePacked PackI8) Var" 5 9]
  by (simp add: pack_simps markRecursiveTypeIdx_def)

text \<open>
  C28. A decoded memory type obeys the limits grammar: a shared memory always has a maximum, a
  32-bit memory has 32-bit bounds, and an absent maximum is stored as zero.
\<close>

theorem decoded_memory_types_obey_grammar:
  assumes "decodeMemType r = (Inr mt, r')"
  shows "(mt_Shared mt \<longrightarrow> lim_HasMax (mt_Limits mt)) \<and>
    (\<not> lim_Addr64 (mt_Limits mt) \<longrightarrow> unat (lim_Min (mt_Limits mt)) < 2 ^ 32 \<and> unat (lim_Max (mt_Limits mt)) < 2 ^ 32) \<and>
    (\<not> lim_HasMax (mt_Limits mt) \<longrightarrow> lim_Max (mt_Limits mt) = 0)"
proof -
  have u: "unat (ucast n :: u64) < 2 ^ 32" for n :: u32
    using unsigned_less [of n, where 'a = nat] by (simp add: unat_u32_u64)
  show ?thesis
    using assms u
    by (auto simp: decodeMemType_def bindR_eq_Inr mapR_eq_Inr offR_def Let_def noLimits_def failBack_def split: if_splits)
qed

lemma decoded_memory_types_obey_grammar_witness:
  "\<exists>mt r'. decodeMemType (newReader [3, 1, 0x80, 1]) = (Inr mt, r') \<and> mt_Shared mt \<and> lim_HasMax (mt_Limits mt)"
proof -
  let ?r = "newReader [3, 1, 0x80, 1]"
  let ?m = "\<lparr>mt_Limits = \<lparr>lim_Min = 1, lim_Max = 128, lim_HasMax = True, lim_Addr64 = False\<rparr>, mt_Shared = True\<rparr>"
  have "fst (decodeMemType ?r) = Inr ?m" by code_simp
  then have "decodeMemType ?r = (Inr ?m, snd (decodeMemType ?r))" by (simp add: prod_eq_iff)
  with decoded_memory_types_obey_grammar [OF this] show ?thesis by (intro exI conjI) auto
qed

end
