(* ===== verification/InstrKinds.thy ===== *)
theory InstrKinds
  imports Prelude
begin

text \<open>
  The instruction kinds of \<^verbatim>\<open>compiler/wasm/types.go\<close>: the Go constants are consecutive
  values of a 16-bit type, and the tables of the decoder, the validator and the encoder are
  indexed by them, so each name abbreviates its number.
\<close>

type_synonym InstrKind = u16

abbreviation InstrInvalid :: InstrKind where "InstrInvalid \<equiv> 0"
abbreviation InstrUnreachable :: InstrKind where "InstrUnreachable \<equiv> 1"
abbreviation InstrNop :: InstrKind where "InstrNop \<equiv> 2"
abbreviation InstrBlock :: InstrKind where "InstrBlock \<equiv> 3"
abbreviation InstrLoop :: InstrKind where "InstrLoop \<equiv> 4"
abbreviation InstrIf :: InstrKind where "InstrIf \<equiv> 5"
abbreviation InstrThrow :: InstrKind where "InstrThrow \<equiv> 6"
abbreviation InstrThrowRef :: InstrKind where "InstrThrowRef \<equiv> 7"
abbreviation InstrBr :: InstrKind where "InstrBr \<equiv> 8"
abbreviation InstrBrIf :: InstrKind where "InstrBrIf \<equiv> 9"
abbreviation InstrBrTable :: InstrKind where "InstrBrTable \<equiv> 10"
abbreviation InstrReturn :: InstrKind where "InstrReturn \<equiv> 11"
abbreviation InstrCall :: InstrKind where "InstrCall \<equiv> 12"
abbreviation InstrCallIndirect :: InstrKind where "InstrCallIndirect \<equiv> 13"
abbreviation InstrReturnCall :: InstrKind where "InstrReturnCall \<equiv> 14"
abbreviation InstrReturnCallIndirect :: InstrKind where "InstrReturnCallIndirect \<equiv> 15"
abbreviation InstrCallRef :: InstrKind where "InstrCallRef \<equiv> 16"
abbreviation InstrReturnCallRef :: InstrKind where "InstrReturnCallRef \<equiv> 17"
abbreviation InstrDrop :: InstrKind where "InstrDrop \<equiv> 18"
abbreviation InstrSelect :: InstrKind where "InstrSelect \<equiv> 19"
abbreviation InstrTryTable :: InstrKind where "InstrTryTable \<equiv> 20"
abbreviation InstrLocalGet :: InstrKind where "InstrLocalGet \<equiv> 21"
abbreviation InstrLocalSet :: InstrKind where "InstrLocalSet \<equiv> 22"
abbreviation InstrLocalTee :: InstrKind where "InstrLocalTee \<equiv> 23"
abbreviation InstrGlobalGet :: InstrKind where "InstrGlobalGet \<equiv> 24"
abbreviation InstrGlobalSet :: InstrKind where "InstrGlobalSet \<equiv> 25"
abbreviation InstrTableGet :: InstrKind where "InstrTableGet \<equiv> 26"
abbreviation InstrTableSet :: InstrKind where "InstrTableSet \<equiv> 27"
abbreviation InstrI32Load :: InstrKind where "InstrI32Load \<equiv> 28"
abbreviation InstrI64Load :: InstrKind where "InstrI64Load \<equiv> 29"
abbreviation InstrF32Load :: InstrKind where "InstrF32Load \<equiv> 30"
abbreviation InstrF64Load :: InstrKind where "InstrF64Load \<equiv> 31"
abbreviation InstrI32Load8S :: InstrKind where "InstrI32Load8S \<equiv> 32"
abbreviation InstrI32Load8U :: InstrKind where "InstrI32Load8U \<equiv> 33"
abbreviation InstrI32Load16S :: InstrKind where "InstrI32Load16S \<equiv> 34"
abbreviation InstrI32Load16U :: InstrKind where "InstrI32Load16U \<equiv> 35"
abbreviation InstrI64Load8S :: InstrKind where "InstrI64Load8S \<equiv> 36"
abbreviation InstrI64Load8U :: InstrKind where "InstrI64Load8U \<equiv> 37"
abbreviation InstrI64Load16S :: InstrKind where "InstrI64Load16S \<equiv> 38"
abbreviation InstrI64Load16U :: InstrKind where "InstrI64Load16U \<equiv> 39"
abbreviation InstrI64Load32S :: InstrKind where "InstrI64Load32S \<equiv> 40"
abbreviation InstrI64Load32U :: InstrKind where "InstrI64Load32U \<equiv> 41"
abbreviation InstrI32Store :: InstrKind where "InstrI32Store \<equiv> 42"
abbreviation InstrI64Store :: InstrKind where "InstrI64Store \<equiv> 43"
abbreviation InstrF32Store :: InstrKind where "InstrF32Store \<equiv> 44"
abbreviation InstrF64Store :: InstrKind where "InstrF64Store \<equiv> 45"
abbreviation InstrI32Store8 :: InstrKind where "InstrI32Store8 \<equiv> 46"
abbreviation InstrI32Store16 :: InstrKind where "InstrI32Store16 \<equiv> 47"
abbreviation InstrI64Store8 :: InstrKind where "InstrI64Store8 \<equiv> 48"
abbreviation InstrI64Store16 :: InstrKind where "InstrI64Store16 \<equiv> 49"
abbreviation InstrI64Store32 :: InstrKind where "InstrI64Store32 \<equiv> 50"
abbreviation InstrMemorySize :: InstrKind where "InstrMemorySize \<equiv> 51"
abbreviation InstrMemoryGrow :: InstrKind where "InstrMemoryGrow \<equiv> 52"
abbreviation InstrMemoryAtomicNotify :: InstrKind where "InstrMemoryAtomicNotify \<equiv> 53"
abbreviation InstrMemoryAtomicWait32 :: InstrKind where "InstrMemoryAtomicWait32 \<equiv> 54"
abbreviation InstrMemoryAtomicWait64 :: InstrKind where "InstrMemoryAtomicWait64 \<equiv> 55"
abbreviation InstrAtomicFence :: InstrKind where "InstrAtomicFence \<equiv> 56"
abbreviation InstrI32AtomicLoad :: InstrKind where "InstrI32AtomicLoad \<equiv> 57"
abbreviation InstrI64AtomicLoad :: InstrKind where "InstrI64AtomicLoad \<equiv> 58"
abbreviation InstrI32AtomicLoad8U :: InstrKind where "InstrI32AtomicLoad8U \<equiv> 59"
abbreviation InstrI32AtomicLoad16U :: InstrKind where "InstrI32AtomicLoad16U \<equiv> 60"
abbreviation InstrI64AtomicLoad8U :: InstrKind where "InstrI64AtomicLoad8U \<equiv> 61"
abbreviation InstrI64AtomicLoad16U :: InstrKind where "InstrI64AtomicLoad16U \<equiv> 62"
abbreviation InstrI64AtomicLoad32U :: InstrKind where "InstrI64AtomicLoad32U \<equiv> 63"
abbreviation InstrI32AtomicStore :: InstrKind where "InstrI32AtomicStore \<equiv> 64"
abbreviation InstrI64AtomicStore :: InstrKind where "InstrI64AtomicStore \<equiv> 65"
abbreviation InstrI32AtomicStore8 :: InstrKind where "InstrI32AtomicStore8 \<equiv> 66"
abbreviation InstrI32AtomicStore16 :: InstrKind where "InstrI32AtomicStore16 \<equiv> 67"
abbreviation InstrI64AtomicStore8 :: InstrKind where "InstrI64AtomicStore8 \<equiv> 68"
abbreviation InstrI64AtomicStore16 :: InstrKind where "InstrI64AtomicStore16 \<equiv> 69"
abbreviation InstrI64AtomicStore32 :: InstrKind where "InstrI64AtomicStore32 \<equiv> 70"
abbreviation InstrAtomicRmw :: InstrKind where "InstrAtomicRmw \<equiv> 71"
abbreviation InstrAtomicCmpxchg :: InstrKind where "InstrAtomicCmpxchg \<equiv> 72"
abbreviation InstrI32Const :: InstrKind where "InstrI32Const \<equiv> 73"
abbreviation InstrI64Const :: InstrKind where "InstrI64Const \<equiv> 74"
abbreviation InstrF32Const :: InstrKind where "InstrF32Const \<equiv> 75"
abbreviation InstrF64Const :: InstrKind where "InstrF64Const \<equiv> 76"
abbreviation InstrI32Eqz :: InstrKind where "InstrI32Eqz \<equiv> 77"
abbreviation InstrI32Eq :: InstrKind where "InstrI32Eq \<equiv> 78"
abbreviation InstrI32Ne :: InstrKind where "InstrI32Ne \<equiv> 79"
abbreviation InstrI32LtS :: InstrKind where "InstrI32LtS \<equiv> 80"
abbreviation InstrI32LtU :: InstrKind where "InstrI32LtU \<equiv> 81"
abbreviation InstrI32GtS :: InstrKind where "InstrI32GtS \<equiv> 82"
abbreviation InstrI32GtU :: InstrKind where "InstrI32GtU \<equiv> 83"
abbreviation InstrI32LeS :: InstrKind where "InstrI32LeS \<equiv> 84"
abbreviation InstrI32LeU :: InstrKind where "InstrI32LeU \<equiv> 85"
abbreviation InstrI32GeS :: InstrKind where "InstrI32GeS \<equiv> 86"
abbreviation InstrI32GeU :: InstrKind where "InstrI32GeU \<equiv> 87"
abbreviation InstrI64Eqz :: InstrKind where "InstrI64Eqz \<equiv> 88"
abbreviation InstrI64Eq :: InstrKind where "InstrI64Eq \<equiv> 89"
abbreviation InstrI64Ne :: InstrKind where "InstrI64Ne \<equiv> 90"
abbreviation InstrI64LtS :: InstrKind where "InstrI64LtS \<equiv> 91"
abbreviation InstrI64LtU :: InstrKind where "InstrI64LtU \<equiv> 92"
abbreviation InstrI64GtS :: InstrKind where "InstrI64GtS \<equiv> 93"
abbreviation InstrI64GtU :: InstrKind where "InstrI64GtU \<equiv> 94"
abbreviation InstrI64LeS :: InstrKind where "InstrI64LeS \<equiv> 95"
abbreviation InstrI64LeU :: InstrKind where "InstrI64LeU \<equiv> 96"
abbreviation InstrI64GeS :: InstrKind where "InstrI64GeS \<equiv> 97"
abbreviation InstrI64GeU :: InstrKind where "InstrI64GeU \<equiv> 98"
abbreviation InstrF32Eq :: InstrKind where "InstrF32Eq \<equiv> 99"
abbreviation InstrF32Ne :: InstrKind where "InstrF32Ne \<equiv> 100"
abbreviation InstrF32Lt :: InstrKind where "InstrF32Lt \<equiv> 101"
abbreviation InstrF32Gt :: InstrKind where "InstrF32Gt \<equiv> 102"
abbreviation InstrF32Le :: InstrKind where "InstrF32Le \<equiv> 103"
abbreviation InstrF32Ge :: InstrKind where "InstrF32Ge \<equiv> 104"
abbreviation InstrF64Eq :: InstrKind where "InstrF64Eq \<equiv> 105"
abbreviation InstrF64Ne :: InstrKind where "InstrF64Ne \<equiv> 106"
abbreviation InstrF64Lt :: InstrKind where "InstrF64Lt \<equiv> 107"
abbreviation InstrF64Gt :: InstrKind where "InstrF64Gt \<equiv> 108"
abbreviation InstrF64Le :: InstrKind where "InstrF64Le \<equiv> 109"
abbreviation InstrF64Ge :: InstrKind where "InstrF64Ge \<equiv> 110"
abbreviation InstrI32Clz :: InstrKind where "InstrI32Clz \<equiv> 111"
abbreviation InstrI32Ctz :: InstrKind where "InstrI32Ctz \<equiv> 112"
abbreviation InstrI32Popcnt :: InstrKind where "InstrI32Popcnt \<equiv> 113"
abbreviation InstrI32Add :: InstrKind where "InstrI32Add \<equiv> 114"
abbreviation InstrI32Sub :: InstrKind where "InstrI32Sub \<equiv> 115"
abbreviation InstrI32Mul :: InstrKind where "InstrI32Mul \<equiv> 116"
abbreviation InstrI32DivS :: InstrKind where "InstrI32DivS \<equiv> 117"
abbreviation InstrI32DivU :: InstrKind where "InstrI32DivU \<equiv> 118"
abbreviation InstrI32RemS :: InstrKind where "InstrI32RemS \<equiv> 119"
abbreviation InstrI32RemU :: InstrKind where "InstrI32RemU \<equiv> 120"
abbreviation InstrI32And :: InstrKind where "InstrI32And \<equiv> 121"
abbreviation InstrI32Or :: InstrKind where "InstrI32Or \<equiv> 122"
abbreviation InstrI32Xor :: InstrKind where "InstrI32Xor \<equiv> 123"
abbreviation InstrI32Shl :: InstrKind where "InstrI32Shl \<equiv> 124"
abbreviation InstrI32ShrS :: InstrKind where "InstrI32ShrS \<equiv> 125"
abbreviation InstrI32ShrU :: InstrKind where "InstrI32ShrU \<equiv> 126"
abbreviation InstrI32Rotl :: InstrKind where "InstrI32Rotl \<equiv> 127"
abbreviation InstrI32Rotr :: InstrKind where "InstrI32Rotr \<equiv> 128"
abbreviation InstrI64Clz :: InstrKind where "InstrI64Clz \<equiv> 129"
abbreviation InstrI64Ctz :: InstrKind where "InstrI64Ctz \<equiv> 130"
abbreviation InstrI64Popcnt :: InstrKind where "InstrI64Popcnt \<equiv> 131"
abbreviation InstrI64Add :: InstrKind where "InstrI64Add \<equiv> 132"
abbreviation InstrI64Sub :: InstrKind where "InstrI64Sub \<equiv> 133"
abbreviation InstrI64Mul :: InstrKind where "InstrI64Mul \<equiv> 134"
abbreviation InstrI64DivS :: InstrKind where "InstrI64DivS \<equiv> 135"
abbreviation InstrI64DivU :: InstrKind where "InstrI64DivU \<equiv> 136"
abbreviation InstrI64RemS :: InstrKind where "InstrI64RemS \<equiv> 137"
abbreviation InstrI64RemU :: InstrKind where "InstrI64RemU \<equiv> 138"
abbreviation InstrI64And :: InstrKind where "InstrI64And \<equiv> 139"
abbreviation InstrI64Or :: InstrKind where "InstrI64Or \<equiv> 140"
abbreviation InstrI64Xor :: InstrKind where "InstrI64Xor \<equiv> 141"
abbreviation InstrI64Shl :: InstrKind where "InstrI64Shl \<equiv> 142"
abbreviation InstrI64ShrS :: InstrKind where "InstrI64ShrS \<equiv> 143"
abbreviation InstrI64ShrU :: InstrKind where "InstrI64ShrU \<equiv> 144"
abbreviation InstrI64Rotl :: InstrKind where "InstrI64Rotl \<equiv> 145"
abbreviation InstrI64Rotr :: InstrKind where "InstrI64Rotr \<equiv> 146"
abbreviation InstrF32Abs :: InstrKind where "InstrF32Abs \<equiv> 147"
abbreviation InstrF32Neg :: InstrKind where "InstrF32Neg \<equiv> 148"
abbreviation InstrF32Ceil :: InstrKind where "InstrF32Ceil \<equiv> 149"
abbreviation InstrF32Floor :: InstrKind where "InstrF32Floor \<equiv> 150"
abbreviation InstrF32Trunc :: InstrKind where "InstrF32Trunc \<equiv> 151"
abbreviation InstrF32Nearest :: InstrKind where "InstrF32Nearest \<equiv> 152"
abbreviation InstrF32Sqrt :: InstrKind where "InstrF32Sqrt \<equiv> 153"
abbreviation InstrF32Add :: InstrKind where "InstrF32Add \<equiv> 154"
abbreviation InstrF32Sub :: InstrKind where "InstrF32Sub \<equiv> 155"
abbreviation InstrF32Mul :: InstrKind where "InstrF32Mul \<equiv> 156"
abbreviation InstrF32Div :: InstrKind where "InstrF32Div \<equiv> 157"
abbreviation InstrF32Min :: InstrKind where "InstrF32Min \<equiv> 158"
abbreviation InstrF32Max :: InstrKind where "InstrF32Max \<equiv> 159"
abbreviation InstrF32Copysign :: InstrKind where "InstrF32Copysign \<equiv> 160"
abbreviation InstrF64Abs :: InstrKind where "InstrF64Abs \<equiv> 161"
abbreviation InstrF64Neg :: InstrKind where "InstrF64Neg \<equiv> 162"
abbreviation InstrF64Ceil :: InstrKind where "InstrF64Ceil \<equiv> 163"
abbreviation InstrF64Floor :: InstrKind where "InstrF64Floor \<equiv> 164"
abbreviation InstrF64Trunc :: InstrKind where "InstrF64Trunc \<equiv> 165"
abbreviation InstrF64Nearest :: InstrKind where "InstrF64Nearest \<equiv> 166"
abbreviation InstrF64Sqrt :: InstrKind where "InstrF64Sqrt \<equiv> 167"
abbreviation InstrF64Add :: InstrKind where "InstrF64Add \<equiv> 168"
abbreviation InstrF64Sub :: InstrKind where "InstrF64Sub \<equiv> 169"
abbreviation InstrF64Mul :: InstrKind where "InstrF64Mul \<equiv> 170"
abbreviation InstrF64Div :: InstrKind where "InstrF64Div \<equiv> 171"
abbreviation InstrF64Min :: InstrKind where "InstrF64Min \<equiv> 172"
abbreviation InstrF64Max :: InstrKind where "InstrF64Max \<equiv> 173"
abbreviation InstrF64Copysign :: InstrKind where "InstrF64Copysign \<equiv> 174"
abbreviation InstrI32WrapI64 :: InstrKind where "InstrI32WrapI64 \<equiv> 175"
abbreviation InstrI32TruncF32S :: InstrKind where "InstrI32TruncF32S \<equiv> 176"
abbreviation InstrI32TruncF32U :: InstrKind where "InstrI32TruncF32U \<equiv> 177"
abbreviation InstrI32TruncF64S :: InstrKind where "InstrI32TruncF64S \<equiv> 178"
abbreviation InstrI32TruncF64U :: InstrKind where "InstrI32TruncF64U \<equiv> 179"
abbreviation InstrI64ExtendI32S :: InstrKind where "InstrI64ExtendI32S \<equiv> 180"
abbreviation InstrI64ExtendI32U :: InstrKind where "InstrI64ExtendI32U \<equiv> 181"
abbreviation InstrI64TruncF32S :: InstrKind where "InstrI64TruncF32S \<equiv> 182"
abbreviation InstrI64TruncF32U :: InstrKind where "InstrI64TruncF32U \<equiv> 183"
abbreviation InstrI64TruncF64S :: InstrKind where "InstrI64TruncF64S \<equiv> 184"
abbreviation InstrI64TruncF64U :: InstrKind where "InstrI64TruncF64U \<equiv> 185"
abbreviation InstrF32ConvertI32S :: InstrKind where "InstrF32ConvertI32S \<equiv> 186"
abbreviation InstrF32ConvertI32U :: InstrKind where "InstrF32ConvertI32U \<equiv> 187"
abbreviation InstrF32ConvertI64S :: InstrKind where "InstrF32ConvertI64S \<equiv> 188"
abbreviation InstrF32ConvertI64U :: InstrKind where "InstrF32ConvertI64U \<equiv> 189"
abbreviation InstrF32DemoteF64 :: InstrKind where "InstrF32DemoteF64 \<equiv> 190"
abbreviation InstrF64ConvertI32S :: InstrKind where "InstrF64ConvertI32S \<equiv> 191"
abbreviation InstrF64ConvertI32U :: InstrKind where "InstrF64ConvertI32U \<equiv> 192"
abbreviation InstrF64ConvertI64S :: InstrKind where "InstrF64ConvertI64S \<equiv> 193"
abbreviation InstrF64ConvertI64U :: InstrKind where "InstrF64ConvertI64U \<equiv> 194"
abbreviation InstrF64PromoteF32 :: InstrKind where "InstrF64PromoteF32 \<equiv> 195"
abbreviation InstrI32ReinterpretF32 :: InstrKind where "InstrI32ReinterpretF32 \<equiv> 196"
abbreviation InstrI64ReinterpretF64 :: InstrKind where "InstrI64ReinterpretF64 \<equiv> 197"
abbreviation InstrF32ReinterpretI32 :: InstrKind where "InstrF32ReinterpretI32 \<equiv> 198"
abbreviation InstrF64ReinterpretI64 :: InstrKind where "InstrF64ReinterpretI64 \<equiv> 199"
abbreviation InstrI32Extend8S :: InstrKind where "InstrI32Extend8S \<equiv> 200"
abbreviation InstrI32Extend16S :: InstrKind where "InstrI32Extend16S \<equiv> 201"
abbreviation InstrI64Extend8S :: InstrKind where "InstrI64Extend8S \<equiv> 202"
abbreviation InstrI64Extend16S :: InstrKind where "InstrI64Extend16S \<equiv> 203"
abbreviation InstrI64Extend32S :: InstrKind where "InstrI64Extend32S \<equiv> 204"
abbreviation InstrRefNull :: InstrKind where "InstrRefNull \<equiv> 205"
abbreviation InstrRefIsNull :: InstrKind where "InstrRefIsNull \<equiv> 206"
abbreviation InstrRefFunc :: InstrKind where "InstrRefFunc \<equiv> 207"
abbreviation InstrRefEq :: InstrKind where "InstrRefEq \<equiv> 208"
abbreviation InstrRefAsNonNull :: InstrKind where "InstrRefAsNonNull \<equiv> 209"
abbreviation InstrStringConst :: InstrKind where "InstrStringConst \<equiv> 210"
abbreviation InstrBrOnNull :: InstrKind where "InstrBrOnNull \<equiv> 211"
abbreviation InstrBrOnNonNull :: InstrKind where "InstrBrOnNonNull \<equiv> 212"
abbreviation InstrStringNewUtf8Array :: InstrKind where "InstrStringNewUtf8Array \<equiv> 213"
abbreviation InstrStringNewWtf16Array :: InstrKind where "InstrStringNewWtf16Array \<equiv> 214"
abbreviation InstrStringEncodeUtf8Array :: InstrKind where "InstrStringEncodeUtf8Array \<equiv> 215"
abbreviation InstrStringEncodeWtf16Array :: InstrKind where "InstrStringEncodeWtf16Array \<equiv> 216"
abbreviation InstrStringNewLossyUtf8Array :: InstrKind where "InstrStringNewLossyUtf8Array \<equiv> 217"
abbreviation InstrStringNewWtf8Array :: InstrKind where "InstrStringNewWtf8Array \<equiv> 218"
abbreviation InstrStringEncodeLossyUtf8Array :: InstrKind where "InstrStringEncodeLossyUtf8Array \<equiv> 219"
abbreviation InstrStringEncodeWtf8Array :: InstrKind where "InstrStringEncodeWtf8Array \<equiv> 220"
abbreviation InstrStructNew :: InstrKind where "InstrStructNew \<equiv> 221"
abbreviation InstrStructNewDefault :: InstrKind where "InstrStructNewDefault \<equiv> 222"
abbreviation InstrStructNewDesc :: InstrKind where "InstrStructNewDesc \<equiv> 223"
abbreviation InstrStructNewDefaultDesc :: InstrKind where "InstrStructNewDefaultDesc \<equiv> 224"
abbreviation InstrStructGet :: InstrKind where "InstrStructGet \<equiv> 225"
abbreviation InstrStructGetS :: InstrKind where "InstrStructGetS \<equiv> 226"
abbreviation InstrStructGetU :: InstrKind where "InstrStructGetU \<equiv> 227"
abbreviation InstrStructAtomicGet :: InstrKind where "InstrStructAtomicGet \<equiv> 228"
abbreviation InstrStructAtomicGetS :: InstrKind where "InstrStructAtomicGetS \<equiv> 229"
abbreviation InstrStructAtomicGetU :: InstrKind where "InstrStructAtomicGetU \<equiv> 230"
abbreviation InstrStructSet :: InstrKind where "InstrStructSet \<equiv> 231"
abbreviation InstrArrayNew :: InstrKind where "InstrArrayNew \<equiv> 232"
abbreviation InstrArrayNewDefault :: InstrKind where "InstrArrayNewDefault \<equiv> 233"
abbreviation InstrArrayNewFixed :: InstrKind where "InstrArrayNewFixed \<equiv> 234"
abbreviation InstrArrayNewData :: InstrKind where "InstrArrayNewData \<equiv> 235"
abbreviation InstrArrayNewElem :: InstrKind where "InstrArrayNewElem \<equiv> 236"
abbreviation InstrArrayGet :: InstrKind where "InstrArrayGet \<equiv> 237"
abbreviation InstrArrayGetS :: InstrKind where "InstrArrayGetS \<equiv> 238"
abbreviation InstrArrayGetU :: InstrKind where "InstrArrayGetU \<equiv> 239"
abbreviation InstrArraySet :: InstrKind where "InstrArraySet \<equiv> 240"
abbreviation InstrArrayLen :: InstrKind where "InstrArrayLen \<equiv> 241"
abbreviation InstrArrayFill :: InstrKind where "InstrArrayFill \<equiv> 242"
abbreviation InstrArrayCopy :: InstrKind where "InstrArrayCopy \<equiv> 243"
abbreviation InstrArrayInitData :: InstrKind where "InstrArrayInitData \<equiv> 244"
abbreviation InstrArrayInitElem :: InstrKind where "InstrArrayInitElem \<equiv> 245"
abbreviation InstrRefGetDesc :: InstrKind where "InstrRefGetDesc \<equiv> 246"
abbreviation InstrRefTest :: InstrKind where "InstrRefTest \<equiv> 247"
abbreviation InstrRefCast :: InstrKind where "InstrRefCast \<equiv> 248"
abbreviation InstrRefTestDesc :: InstrKind where "InstrRefTestDesc \<equiv> 249"
abbreviation InstrRefCastDescEq :: InstrKind where "InstrRefCastDescEq \<equiv> 250"
abbreviation InstrBrOnCast :: InstrKind where "InstrBrOnCast \<equiv> 251"
abbreviation InstrBrOnCastFail :: InstrKind where "InstrBrOnCastFail \<equiv> 252"
abbreviation InstrAnyConvertExtern :: InstrKind where "InstrAnyConvertExtern \<equiv> 253"
abbreviation InstrExternConvertAny :: InstrKind where "InstrExternConvertAny \<equiv> 254"
abbreviation InstrRefI31 :: InstrKind where "InstrRefI31 \<equiv> 255"
abbreviation InstrI31GetS :: InstrKind where "InstrI31GetS \<equiv> 256"
abbreviation InstrI31GetU :: InstrKind where "InstrI31GetU \<equiv> 257"
abbreviation InstrI32TruncSatF32S :: InstrKind where "InstrI32TruncSatF32S \<equiv> 258"
abbreviation InstrI32TruncSatF32U :: InstrKind where "InstrI32TruncSatF32U \<equiv> 259"
abbreviation InstrI32TruncSatF64S :: InstrKind where "InstrI32TruncSatF64S \<equiv> 260"
abbreviation InstrI32TruncSatF64U :: InstrKind where "InstrI32TruncSatF64U \<equiv> 261"
abbreviation InstrI64TruncSatF32S :: InstrKind where "InstrI64TruncSatF32S \<equiv> 262"
abbreviation InstrI64TruncSatF32U :: InstrKind where "InstrI64TruncSatF32U \<equiv> 263"
abbreviation InstrI64TruncSatF64S :: InstrKind where "InstrI64TruncSatF64S \<equiv> 264"
abbreviation InstrI64TruncSatF64U :: InstrKind where "InstrI64TruncSatF64U \<equiv> 265"
abbreviation InstrMemoryInit :: InstrKind where "InstrMemoryInit \<equiv> 266"
abbreviation InstrDataDrop :: InstrKind where "InstrDataDrop \<equiv> 267"
abbreviation InstrMemoryCopy :: InstrKind where "InstrMemoryCopy \<equiv> 268"
abbreviation InstrMemoryFill :: InstrKind where "InstrMemoryFill \<equiv> 269"
abbreviation InstrTableInit :: InstrKind where "InstrTableInit \<equiv> 270"
abbreviation InstrElemDrop :: InstrKind where "InstrElemDrop \<equiv> 271"
abbreviation InstrTableCopy :: InstrKind where "InstrTableCopy \<equiv> 272"
abbreviation InstrTableGrow :: InstrKind where "InstrTableGrow \<equiv> 273"
abbreviation InstrTableSize :: InstrKind where "InstrTableSize \<equiv> 274"
abbreviation InstrTableFill :: InstrKind where "InstrTableFill \<equiv> 275"
abbreviation InstrV128Load :: InstrKind where "InstrV128Load \<equiv> 276"
abbreviation InstrV128Load8x8S :: InstrKind where "InstrV128Load8x8S \<equiv> 277"
abbreviation InstrV128Load8x8U :: InstrKind where "InstrV128Load8x8U \<equiv> 278"
abbreviation InstrV128Load16x4S :: InstrKind where "InstrV128Load16x4S \<equiv> 279"
abbreviation InstrV128Load16x4U :: InstrKind where "InstrV128Load16x4U \<equiv> 280"
abbreviation InstrV128Load32x2S :: InstrKind where "InstrV128Load32x2S \<equiv> 281"
abbreviation InstrV128Load32x2U :: InstrKind where "InstrV128Load32x2U \<equiv> 282"
abbreviation InstrV128Load8Splat :: InstrKind where "InstrV128Load8Splat \<equiv> 283"
abbreviation InstrV128Load16Splat :: InstrKind where "InstrV128Load16Splat \<equiv> 284"
abbreviation InstrV128Load32Splat :: InstrKind where "InstrV128Load32Splat \<equiv> 285"
abbreviation InstrV128Load64Splat :: InstrKind where "InstrV128Load64Splat \<equiv> 286"
abbreviation InstrV128Store :: InstrKind where "InstrV128Store \<equiv> 287"
abbreviation InstrV128Const :: InstrKind where "InstrV128Const \<equiv> 288"
abbreviation InstrByte :: InstrKind where "InstrByte \<equiv> 289"
abbreviation InstrI8x16Shuffle :: InstrKind where "InstrI8x16Shuffle \<equiv> 290"
abbreviation InstrLaneIdx :: InstrKind where "InstrLaneIdx \<equiv> 291"
abbreviation InstrI8x16Swizzle :: InstrKind where "InstrI8x16Swizzle \<equiv> 292"
abbreviation InstrI8x16Splat :: InstrKind where "InstrI8x16Splat \<equiv> 293"
abbreviation InstrI16x8Splat :: InstrKind where "InstrI16x8Splat \<equiv> 294"
abbreviation InstrI32x4Splat :: InstrKind where "InstrI32x4Splat \<equiv> 295"
abbreviation InstrI64x2Splat :: InstrKind where "InstrI64x2Splat \<equiv> 296"
abbreviation InstrF32x4Splat :: InstrKind where "InstrF32x4Splat \<equiv> 297"
abbreviation InstrF64x2Splat :: InstrKind where "InstrF64x2Splat \<equiv> 298"
abbreviation InstrI8x16ExtractLaneS :: InstrKind where "InstrI8x16ExtractLaneS \<equiv> 299"
abbreviation InstrI8x16ExtractLaneU :: InstrKind where "InstrI8x16ExtractLaneU \<equiv> 300"
abbreviation InstrI8x16ReplaceLane :: InstrKind where "InstrI8x16ReplaceLane \<equiv> 301"
abbreviation InstrI16x8ExtractLaneS :: InstrKind where "InstrI16x8ExtractLaneS \<equiv> 302"
abbreviation InstrI16x8ExtractLaneU :: InstrKind where "InstrI16x8ExtractLaneU \<equiv> 303"
abbreviation InstrI16x8ReplaceLane :: InstrKind where "InstrI16x8ReplaceLane \<equiv> 304"
abbreviation InstrI32x4ExtractLane :: InstrKind where "InstrI32x4ExtractLane \<equiv> 305"
abbreviation InstrI32x4ReplaceLane :: InstrKind where "InstrI32x4ReplaceLane \<equiv> 306"
abbreviation InstrI64x2ExtractLane :: InstrKind where "InstrI64x2ExtractLane \<equiv> 307"
abbreviation InstrI64x2ReplaceLane :: InstrKind where "InstrI64x2ReplaceLane \<equiv> 308"
abbreviation InstrF32x4ExtractLane :: InstrKind where "InstrF32x4ExtractLane \<equiv> 309"
abbreviation InstrF32x4ReplaceLane :: InstrKind where "InstrF32x4ReplaceLane \<equiv> 310"
abbreviation InstrF64x2ExtractLane :: InstrKind where "InstrF64x2ExtractLane \<equiv> 311"
abbreviation InstrF64x2ReplaceLane :: InstrKind where "InstrF64x2ReplaceLane \<equiv> 312"
abbreviation InstrI8x16Eq :: InstrKind where "InstrI8x16Eq \<equiv> 313"
abbreviation InstrI8x16Ne :: InstrKind where "InstrI8x16Ne \<equiv> 314"
abbreviation InstrI8x16LtS :: InstrKind where "InstrI8x16LtS \<equiv> 315"
abbreviation InstrI8x16LtU :: InstrKind where "InstrI8x16LtU \<equiv> 316"
abbreviation InstrI8x16GtS :: InstrKind where "InstrI8x16GtS \<equiv> 317"
abbreviation InstrI8x16GtU :: InstrKind where "InstrI8x16GtU \<equiv> 318"
abbreviation InstrI8x16LeS :: InstrKind where "InstrI8x16LeS \<equiv> 319"
abbreviation InstrI8x16LeU :: InstrKind where "InstrI8x16LeU \<equiv> 320"
abbreviation InstrI8x16GeS :: InstrKind where "InstrI8x16GeS \<equiv> 321"
abbreviation InstrI8x16GeU :: InstrKind where "InstrI8x16GeU \<equiv> 322"
abbreviation InstrI16x8Eq :: InstrKind where "InstrI16x8Eq \<equiv> 323"
abbreviation InstrI16x8Ne :: InstrKind where "InstrI16x8Ne \<equiv> 324"
abbreviation InstrI16x8LtS :: InstrKind where "InstrI16x8LtS \<equiv> 325"
abbreviation InstrI16x8LtU :: InstrKind where "InstrI16x8LtU \<equiv> 326"
abbreviation InstrI16x8GtS :: InstrKind where "InstrI16x8GtS \<equiv> 327"
abbreviation InstrI16x8GtU :: InstrKind where "InstrI16x8GtU \<equiv> 328"
abbreviation InstrI16x8LeS :: InstrKind where "InstrI16x8LeS \<equiv> 329"
abbreviation InstrI16x8LeU :: InstrKind where "InstrI16x8LeU \<equiv> 330"
abbreviation InstrI16x8GeS :: InstrKind where "InstrI16x8GeS \<equiv> 331"
abbreviation InstrI16x8GeU :: InstrKind where "InstrI16x8GeU \<equiv> 332"
abbreviation InstrI32x4Eq :: InstrKind where "InstrI32x4Eq \<equiv> 333"
abbreviation InstrI32x4Ne :: InstrKind where "InstrI32x4Ne \<equiv> 334"
abbreviation InstrI32x4LtS :: InstrKind where "InstrI32x4LtS \<equiv> 335"
abbreviation InstrI32x4LtU :: InstrKind where "InstrI32x4LtU \<equiv> 336"
abbreviation InstrI32x4GtS :: InstrKind where "InstrI32x4GtS \<equiv> 337"
abbreviation InstrI32x4GtU :: InstrKind where "InstrI32x4GtU \<equiv> 338"
abbreviation InstrI32x4LeS :: InstrKind where "InstrI32x4LeS \<equiv> 339"
abbreviation InstrI32x4LeU :: InstrKind where "InstrI32x4LeU \<equiv> 340"
abbreviation InstrI32x4GeS :: InstrKind where "InstrI32x4GeS \<equiv> 341"
abbreviation InstrI32x4GeU :: InstrKind where "InstrI32x4GeU \<equiv> 342"
abbreviation InstrF32x4Eq :: InstrKind where "InstrF32x4Eq \<equiv> 343"
abbreviation InstrF32x4Ne :: InstrKind where "InstrF32x4Ne \<equiv> 344"
abbreviation InstrF32x4Lt :: InstrKind where "InstrF32x4Lt \<equiv> 345"
abbreviation InstrF32x4Gt :: InstrKind where "InstrF32x4Gt \<equiv> 346"
abbreviation InstrF32x4Le :: InstrKind where "InstrF32x4Le \<equiv> 347"
abbreviation InstrF32x4Ge :: InstrKind where "InstrF32x4Ge \<equiv> 348"
abbreviation InstrF64x2Eq :: InstrKind where "InstrF64x2Eq \<equiv> 349"
abbreviation InstrF64x2Ne :: InstrKind where "InstrF64x2Ne \<equiv> 350"
abbreviation InstrF64x2Lt :: InstrKind where "InstrF64x2Lt \<equiv> 351"
abbreviation InstrF64x2Gt :: InstrKind where "InstrF64x2Gt \<equiv> 352"
abbreviation InstrF64x2Le :: InstrKind where "InstrF64x2Le \<equiv> 353"
abbreviation InstrF64x2Ge :: InstrKind where "InstrF64x2Ge \<equiv> 354"
abbreviation InstrV128Not :: InstrKind where "InstrV128Not \<equiv> 355"
abbreviation InstrV128And :: InstrKind where "InstrV128And \<equiv> 356"
abbreviation InstrV128Andnot :: InstrKind where "InstrV128Andnot \<equiv> 357"
abbreviation InstrV128Or :: InstrKind where "InstrV128Or \<equiv> 358"
abbreviation InstrV128Xor :: InstrKind where "InstrV128Xor \<equiv> 359"
abbreviation InstrV128Bitselect :: InstrKind where "InstrV128Bitselect \<equiv> 360"
abbreviation InstrV128AnyTrue :: InstrKind where "InstrV128AnyTrue \<equiv> 361"
abbreviation InstrV128Load8Lane :: InstrKind where "InstrV128Load8Lane \<equiv> 362"
abbreviation InstrV128Load16Lane :: InstrKind where "InstrV128Load16Lane \<equiv> 363"
abbreviation InstrV128Load32Lane :: InstrKind where "InstrV128Load32Lane \<equiv> 364"
abbreviation InstrV128Load64Lane :: InstrKind where "InstrV128Load64Lane \<equiv> 365"
abbreviation InstrV128Store8Lane :: InstrKind where "InstrV128Store8Lane \<equiv> 366"
abbreviation InstrV128Store16Lane :: InstrKind where "InstrV128Store16Lane \<equiv> 367"
abbreviation InstrV128Store32Lane :: InstrKind where "InstrV128Store32Lane \<equiv> 368"
abbreviation InstrV128Store64Lane :: InstrKind where "InstrV128Store64Lane \<equiv> 369"
abbreviation InstrV128Load32Zero :: InstrKind where "InstrV128Load32Zero \<equiv> 370"
abbreviation InstrV128Load64Zero :: InstrKind where "InstrV128Load64Zero \<equiv> 371"
abbreviation InstrF32x4DemoteF64x2Zero :: InstrKind where "InstrF32x4DemoteF64x2Zero \<equiv> 372"
abbreviation InstrF64x2PromoteLowF32x4 :: InstrKind where "InstrF64x2PromoteLowF32x4 \<equiv> 373"
abbreviation InstrI8x16Abs :: InstrKind where "InstrI8x16Abs \<equiv> 374"
abbreviation InstrI8x16Neg :: InstrKind where "InstrI8x16Neg \<equiv> 375"
abbreviation InstrI8x16Popcnt :: InstrKind where "InstrI8x16Popcnt \<equiv> 376"
abbreviation InstrI8x16AllTrue :: InstrKind where "InstrI8x16AllTrue \<equiv> 377"
abbreviation InstrI8x16Bitmask :: InstrKind where "InstrI8x16Bitmask \<equiv> 378"
abbreviation InstrI8x16NarrowI16x8S :: InstrKind where "InstrI8x16NarrowI16x8S \<equiv> 379"
abbreviation InstrI8x16NarrowI16x8U :: InstrKind where "InstrI8x16NarrowI16x8U \<equiv> 380"
abbreviation InstrF32x4Ceil :: InstrKind where "InstrF32x4Ceil \<equiv> 381"
abbreviation InstrF32x4Floor :: InstrKind where "InstrF32x4Floor \<equiv> 382"
abbreviation InstrF32x4Trunc :: InstrKind where "InstrF32x4Trunc \<equiv> 383"
abbreviation InstrF32x4Nearest :: InstrKind where "InstrF32x4Nearest \<equiv> 384"
abbreviation InstrI8x16Shl :: InstrKind where "InstrI8x16Shl \<equiv> 385"
abbreviation InstrI8x16ShrS :: InstrKind where "InstrI8x16ShrS \<equiv> 386"
abbreviation InstrI8x16ShrU :: InstrKind where "InstrI8x16ShrU \<equiv> 387"
abbreviation InstrI8x16Add :: InstrKind where "InstrI8x16Add \<equiv> 388"
abbreviation InstrI8x16AddSatS :: InstrKind where "InstrI8x16AddSatS \<equiv> 389"
abbreviation InstrI8x16AddSatU :: InstrKind where "InstrI8x16AddSatU \<equiv> 390"
abbreviation InstrI8x16Sub :: InstrKind where "InstrI8x16Sub \<equiv> 391"
abbreviation InstrI8x16SubSatS :: InstrKind where "InstrI8x16SubSatS \<equiv> 392"
abbreviation InstrI8x16SubSatU :: InstrKind where "InstrI8x16SubSatU \<equiv> 393"
abbreviation InstrF64x2Ceil :: InstrKind where "InstrF64x2Ceil \<equiv> 394"
abbreviation InstrF64x2Floor :: InstrKind where "InstrF64x2Floor \<equiv> 395"
abbreviation InstrI8x16MinS :: InstrKind where "InstrI8x16MinS \<equiv> 396"
abbreviation InstrI8x16MinU :: InstrKind where "InstrI8x16MinU \<equiv> 397"
abbreviation InstrI8x16MaxS :: InstrKind where "InstrI8x16MaxS \<equiv> 398"
abbreviation InstrI8x16MaxU :: InstrKind where "InstrI8x16MaxU \<equiv> 399"
abbreviation InstrF64x2Trunc :: InstrKind where "InstrF64x2Trunc \<equiv> 400"
abbreviation InstrI8x16AvgrU :: InstrKind where "InstrI8x16AvgrU \<equiv> 401"
abbreviation InstrI16x8ExtaddPairwiseI8x16S :: InstrKind where "InstrI16x8ExtaddPairwiseI8x16S \<equiv> 402"
abbreviation InstrI16x8ExtaddPairwiseI8x16U :: InstrKind where "InstrI16x8ExtaddPairwiseI8x16U \<equiv> 403"
abbreviation InstrI32x4ExtaddPairwiseI16x8S :: InstrKind where "InstrI32x4ExtaddPairwiseI16x8S \<equiv> 404"
abbreviation InstrI32x4ExtaddPairwiseI16x8U :: InstrKind where "InstrI32x4ExtaddPairwiseI16x8U \<equiv> 405"
abbreviation InstrI16x8Abs :: InstrKind where "InstrI16x8Abs \<equiv> 406"
abbreviation InstrI16x8Neg :: InstrKind where "InstrI16x8Neg \<equiv> 407"
abbreviation InstrI16x8Q15mulrSatS :: InstrKind where "InstrI16x8Q15mulrSatS \<equiv> 408"
abbreviation InstrI16x8AllTrue :: InstrKind where "InstrI16x8AllTrue \<equiv> 409"
abbreviation InstrI16x8Bitmask :: InstrKind where "InstrI16x8Bitmask \<equiv> 410"
abbreviation InstrI16x8NarrowI32x4S :: InstrKind where "InstrI16x8NarrowI32x4S \<equiv> 411"
abbreviation InstrI16x8NarrowI32x4U :: InstrKind where "InstrI16x8NarrowI32x4U \<equiv> 412"
abbreviation InstrI16x8ExtendLowI8x16S :: InstrKind where "InstrI16x8ExtendLowI8x16S \<equiv> 413"
abbreviation InstrI16x8ExtendHighI8x16S :: InstrKind where "InstrI16x8ExtendHighI8x16S \<equiv> 414"
abbreviation InstrI16x8ExtendLowI8x16U :: InstrKind where "InstrI16x8ExtendLowI8x16U \<equiv> 415"
abbreviation InstrI16x8ExtendHighI8x16U :: InstrKind where "InstrI16x8ExtendHighI8x16U \<equiv> 416"
abbreviation InstrI16x8Shl :: InstrKind where "InstrI16x8Shl \<equiv> 417"
abbreviation InstrI16x8ShrS :: InstrKind where "InstrI16x8ShrS \<equiv> 418"
abbreviation InstrI16x8ShrU :: InstrKind where "InstrI16x8ShrU \<equiv> 419"
abbreviation InstrI16x8Add :: InstrKind where "InstrI16x8Add \<equiv> 420"
abbreviation InstrI16x8AddSatS :: InstrKind where "InstrI16x8AddSatS \<equiv> 421"
abbreviation InstrI16x8AddSatU :: InstrKind where "InstrI16x8AddSatU \<equiv> 422"
abbreviation InstrI16x8Sub :: InstrKind where "InstrI16x8Sub \<equiv> 423"
abbreviation InstrI16x8SubSatS :: InstrKind where "InstrI16x8SubSatS \<equiv> 424"
abbreviation InstrI16x8SubSatU :: InstrKind where "InstrI16x8SubSatU \<equiv> 425"
abbreviation InstrF64x2Nearest :: InstrKind where "InstrF64x2Nearest \<equiv> 426"
abbreviation InstrI16x8Mul :: InstrKind where "InstrI16x8Mul \<equiv> 427"
abbreviation InstrI16x8MinS :: InstrKind where "InstrI16x8MinS \<equiv> 428"
abbreviation InstrI16x8MinU :: InstrKind where "InstrI16x8MinU \<equiv> 429"
abbreviation InstrI16x8MaxS :: InstrKind where "InstrI16x8MaxS \<equiv> 430"
abbreviation InstrI16x8MaxU :: InstrKind where "InstrI16x8MaxU \<equiv> 431"
abbreviation InstrI16x8AvgrU :: InstrKind where "InstrI16x8AvgrU \<equiv> 432"
abbreviation InstrI16x8ExtmulLowI8x16S :: InstrKind where "InstrI16x8ExtmulLowI8x16S \<equiv> 433"
abbreviation InstrI16x8ExtmulHighI8x16S :: InstrKind where "InstrI16x8ExtmulHighI8x16S \<equiv> 434"
abbreviation InstrI16x8ExtmulLowI8x16U :: InstrKind where "InstrI16x8ExtmulLowI8x16U \<equiv> 435"
abbreviation InstrI16x8ExtmulHighI8x16U :: InstrKind where "InstrI16x8ExtmulHighI8x16U \<equiv> 436"
abbreviation InstrI32x4Abs :: InstrKind where "InstrI32x4Abs \<equiv> 437"
abbreviation InstrI32x4Neg :: InstrKind where "InstrI32x4Neg \<equiv> 438"
abbreviation InstrI32x4AllTrue :: InstrKind where "InstrI32x4AllTrue \<equiv> 439"
abbreviation InstrI32x4Bitmask :: InstrKind where "InstrI32x4Bitmask \<equiv> 440"
abbreviation InstrI32x4ExtendLowI16x8S :: InstrKind where "InstrI32x4ExtendLowI16x8S \<equiv> 441"
abbreviation InstrI32x4ExtendHighI16x8S :: InstrKind where "InstrI32x4ExtendHighI16x8S \<equiv> 442"
abbreviation InstrI32x4ExtendLowI16x8U :: InstrKind where "InstrI32x4ExtendLowI16x8U \<equiv> 443"
abbreviation InstrI32x4ExtendHighI16x8U :: InstrKind where "InstrI32x4ExtendHighI16x8U \<equiv> 444"
abbreviation InstrI32x4Shl :: InstrKind where "InstrI32x4Shl \<equiv> 445"
abbreviation InstrI32x4ShrS :: InstrKind where "InstrI32x4ShrS \<equiv> 446"
abbreviation InstrI32x4ShrU :: InstrKind where "InstrI32x4ShrU \<equiv> 447"
abbreviation InstrI32x4Add :: InstrKind where "InstrI32x4Add \<equiv> 448"
abbreviation InstrI32x4Sub :: InstrKind where "InstrI32x4Sub \<equiv> 449"
abbreviation InstrI32x4Mul :: InstrKind where "InstrI32x4Mul \<equiv> 450"
abbreviation InstrI32x4MinS :: InstrKind where "InstrI32x4MinS \<equiv> 451"
abbreviation InstrI32x4MinU :: InstrKind where "InstrI32x4MinU \<equiv> 452"
abbreviation InstrI32x4MaxS :: InstrKind where "InstrI32x4MaxS \<equiv> 453"
abbreviation InstrI32x4MaxU :: InstrKind where "InstrI32x4MaxU \<equiv> 454"
abbreviation InstrI32x4DotI16x8S :: InstrKind where "InstrI32x4DotI16x8S \<equiv> 455"
abbreviation InstrI32x4ExtmulLowI16x8S :: InstrKind where "InstrI32x4ExtmulLowI16x8S \<equiv> 456"
abbreviation InstrI32x4ExtmulHighI16x8S :: InstrKind where "InstrI32x4ExtmulHighI16x8S \<equiv> 457"
abbreviation InstrI32x4ExtmulLowI16x8U :: InstrKind where "InstrI32x4ExtmulLowI16x8U \<equiv> 458"
abbreviation InstrI32x4ExtmulHighI16x8U :: InstrKind where "InstrI32x4ExtmulHighI16x8U \<equiv> 459"
abbreviation InstrI64x2Abs :: InstrKind where "InstrI64x2Abs \<equiv> 460"
abbreviation InstrI64x2Neg :: InstrKind where "InstrI64x2Neg \<equiv> 461"
abbreviation InstrI64x2AllTrue :: InstrKind where "InstrI64x2AllTrue \<equiv> 462"
abbreviation InstrI64x2Bitmask :: InstrKind where "InstrI64x2Bitmask \<equiv> 463"
abbreviation InstrI64x2ExtendLowI32x4S :: InstrKind where "InstrI64x2ExtendLowI32x4S \<equiv> 464"
abbreviation InstrI64x2ExtendHighI32x4S :: InstrKind where "InstrI64x2ExtendHighI32x4S \<equiv> 465"
abbreviation InstrI64x2ExtendLowI32x4U :: InstrKind where "InstrI64x2ExtendLowI32x4U \<equiv> 466"
abbreviation InstrI64x2ExtendHighI32x4U :: InstrKind where "InstrI64x2ExtendHighI32x4U \<equiv> 467"
abbreviation InstrI64x2Shl :: InstrKind where "InstrI64x2Shl \<equiv> 468"
abbreviation InstrI64x2ShrS :: InstrKind where "InstrI64x2ShrS \<equiv> 469"
abbreviation InstrI64x2ShrU :: InstrKind where "InstrI64x2ShrU \<equiv> 470"
abbreviation InstrI64x2Add :: InstrKind where "InstrI64x2Add \<equiv> 471"
abbreviation InstrI64x2Sub :: InstrKind where "InstrI64x2Sub \<equiv> 472"
abbreviation InstrI64x2Mul :: InstrKind where "InstrI64x2Mul \<equiv> 473"
abbreviation InstrI64x2Eq :: InstrKind where "InstrI64x2Eq \<equiv> 474"
abbreviation InstrI64x2Ne :: InstrKind where "InstrI64x2Ne \<equiv> 475"
abbreviation InstrI64x2LtS :: InstrKind where "InstrI64x2LtS \<equiv> 476"
abbreviation InstrI64x2GtS :: InstrKind where "InstrI64x2GtS \<equiv> 477"
abbreviation InstrI64x2LeS :: InstrKind where "InstrI64x2LeS \<equiv> 478"
abbreviation InstrI64x2GeS :: InstrKind where "InstrI64x2GeS \<equiv> 479"
abbreviation InstrI64x2ExtmulLowI32x4S :: InstrKind where "InstrI64x2ExtmulLowI32x4S \<equiv> 480"
abbreviation InstrI64x2ExtmulHighI32x4S :: InstrKind where "InstrI64x2ExtmulHighI32x4S \<equiv> 481"
abbreviation InstrI64x2ExtmulLowI32x4U :: InstrKind where "InstrI64x2ExtmulLowI32x4U \<equiv> 482"
abbreviation InstrI64x2ExtmulHighI32x4U :: InstrKind where "InstrI64x2ExtmulHighI32x4U \<equiv> 483"
abbreviation InstrF32x4Abs :: InstrKind where "InstrF32x4Abs \<equiv> 484"
abbreviation InstrF32x4Neg :: InstrKind where "InstrF32x4Neg \<equiv> 485"
abbreviation InstrF32x4Sqrt :: InstrKind where "InstrF32x4Sqrt \<equiv> 486"
abbreviation InstrF32x4Add :: InstrKind where "InstrF32x4Add \<equiv> 487"
abbreviation InstrF32x4Sub :: InstrKind where "InstrF32x4Sub \<equiv> 488"
abbreviation InstrF32x4Mul :: InstrKind where "InstrF32x4Mul \<equiv> 489"
abbreviation InstrF32x4Div :: InstrKind where "InstrF32x4Div \<equiv> 490"
abbreviation InstrF32x4Min :: InstrKind where "InstrF32x4Min \<equiv> 491"
abbreviation InstrF32x4Max :: InstrKind where "InstrF32x4Max \<equiv> 492"
abbreviation InstrF32x4Pmin :: InstrKind where "InstrF32x4Pmin \<equiv> 493"
abbreviation InstrF32x4Pmax :: InstrKind where "InstrF32x4Pmax \<equiv> 494"
abbreviation InstrF64x2Abs :: InstrKind where "InstrF64x2Abs \<equiv> 495"
abbreviation InstrF64x2Neg :: InstrKind where "InstrF64x2Neg \<equiv> 496"
abbreviation InstrF64x2Sqrt :: InstrKind where "InstrF64x2Sqrt \<equiv> 497"
abbreviation InstrF64x2Add :: InstrKind where "InstrF64x2Add \<equiv> 498"
abbreviation InstrF64x2Sub :: InstrKind where "InstrF64x2Sub \<equiv> 499"
abbreviation InstrF64x2Mul :: InstrKind where "InstrF64x2Mul \<equiv> 500"
abbreviation InstrF64x2Div :: InstrKind where "InstrF64x2Div \<equiv> 501"
abbreviation InstrF64x2Min :: InstrKind where "InstrF64x2Min \<equiv> 502"
abbreviation InstrF64x2Max :: InstrKind where "InstrF64x2Max \<equiv> 503"
abbreviation InstrF64x2Pmin :: InstrKind where "InstrF64x2Pmin \<equiv> 504"
abbreviation InstrF64x2Pmax :: InstrKind where "InstrF64x2Pmax \<equiv> 505"
abbreviation InstrI32x4TruncSatF32x4S :: InstrKind where "InstrI32x4TruncSatF32x4S \<equiv> 506"
abbreviation InstrI32x4TruncSatF32x4U :: InstrKind where "InstrI32x4TruncSatF32x4U \<equiv> 507"
abbreviation InstrF32x4ConvertI32x4S :: InstrKind where "InstrF32x4ConvertI32x4S \<equiv> 508"
abbreviation InstrF32x4ConvertI32x4U :: InstrKind where "InstrF32x4ConvertI32x4U \<equiv> 509"
abbreviation InstrI32x4TruncSatF64x2SZero :: InstrKind where "InstrI32x4TruncSatF64x2SZero \<equiv> 510"
abbreviation InstrI32x4TruncSatF64x2UZero :: InstrKind where "InstrI32x4TruncSatF64x2UZero \<equiv> 511"
abbreviation InstrF64x2ConvertLowI32x4S :: InstrKind where "InstrF64x2ConvertLowI32x4S \<equiv> 512"
abbreviation InstrF64x2ConvertLowI32x4U :: InstrKind where "InstrF64x2ConvertLowI32x4U \<equiv> 513"
abbreviation InstrI8x16RelaxedSwizzle :: InstrKind where "InstrI8x16RelaxedSwizzle \<equiv> 514"
abbreviation InstrI32x4RelaxedTruncF32x4S :: InstrKind where "InstrI32x4RelaxedTruncF32x4S \<equiv> 515"
abbreviation InstrI32x4RelaxedTruncF32x4U :: InstrKind where "InstrI32x4RelaxedTruncF32x4U \<equiv> 516"
abbreviation InstrI32x4RelaxedTruncZeroF64x2S :: InstrKind where "InstrI32x4RelaxedTruncZeroF64x2S \<equiv> 517"
abbreviation InstrI32x4RelaxedTruncZeroF64x2U :: InstrKind where "InstrI32x4RelaxedTruncZeroF64x2U \<equiv> 518"
abbreviation InstrF32x4RelaxedMadd :: InstrKind where "InstrF32x4RelaxedMadd \<equiv> 519"
abbreviation InstrF32x4RelaxedNmadd :: InstrKind where "InstrF32x4RelaxedNmadd \<equiv> 520"
abbreviation InstrF64x2RelaxedMadd :: InstrKind where "InstrF64x2RelaxedMadd \<equiv> 521"
abbreviation InstrF64x2RelaxedNmadd :: InstrKind where "InstrF64x2RelaxedNmadd \<equiv> 522"
abbreviation InstrI8x16RelaxedLaneselect :: InstrKind where "InstrI8x16RelaxedLaneselect \<equiv> 523"
abbreviation InstrI16x8RelaxedLaneselect :: InstrKind where "InstrI16x8RelaxedLaneselect \<equiv> 524"
abbreviation InstrI32x4RelaxedLaneselect :: InstrKind where "InstrI32x4RelaxedLaneselect \<equiv> 525"
abbreviation InstrI64x2RelaxedLaneselect :: InstrKind where "InstrI64x2RelaxedLaneselect \<equiv> 526"
abbreviation InstrF32x4RelaxedMin :: InstrKind where "InstrF32x4RelaxedMin \<equiv> 527"
abbreviation InstrF32x4RelaxedMax :: InstrKind where "InstrF32x4RelaxedMax \<equiv> 528"
abbreviation InstrF64x2RelaxedMin :: InstrKind where "InstrF64x2RelaxedMin \<equiv> 529"
abbreviation InstrF64x2RelaxedMax :: InstrKind where "InstrF64x2RelaxedMax \<equiv> 530"
abbreviation InstrI16x8RelaxedQ15mulrS :: InstrKind where "InstrI16x8RelaxedQ15mulrS \<equiv> 531"
abbreviation InstrI16x8RelaxedDotI8x16I7x16S :: InstrKind where "InstrI16x8RelaxedDotI8x16I7x16S \<equiv> 532"
abbreviation InstrI32x4RelaxedDotI8x16I7x16AddS :: InstrKind where "InstrI32x4RelaxedDotI8x16I7x16AddS \<equiv> 533"
abbreviation InstrI64Add128 :: InstrKind where "InstrI64Add128 \<equiv> 534"
abbreviation InstrI64Sub128 :: InstrKind where "InstrI64Sub128 \<equiv> 535"
abbreviation InstrI64MulWideS :: InstrKind where "InstrI64MulWideS \<equiv> 536"
abbreviation InstrI64MulWideU :: InstrKind where "InstrI64MulWideU \<equiv> 537"
abbreviation numInstrKinds :: InstrKind where "numInstrKinds \<equiv> 538"

end
