(* ===== verification/Opcodes.thy ===== *)
theory Opcodes
  imports InstrKinds
begin

text \<open>
  The opcode tables of \<^verbatim>\<open>compiler/wasm/instruction_decode.go\<close> and \<^verbatim>\<open>prefix_decode.go\<close>. A Go array
  literal with index keys is an association list here; an entry the literal leaves out is
  \<open>InstrInvalid\<close>, the zero value.
\<close>

definition simpleOpcodeTable :: "(byte \<times> InstrKind) list" where
  "simpleOpcodeTable =
     [(0x00, InstrUnreachable), (0x01, InstrNop), (0x0a, InstrThrowRef), (0x0f, InstrReturn), (0x1a, InstrDrop),
      (0x1b, InstrSelect), (0xd1, InstrRefIsNull), (0x45, InstrI32Eqz), (0x46, InstrI32Eq), (0x47, InstrI32Ne),
      (0x48, InstrI32LtS), (0x49, InstrI32LtU), (0x4a, InstrI32GtS), (0x4b, InstrI32GtU), (0x4c, InstrI32LeS),
      (0x4d, InstrI32LeU), (0x4e, InstrI32GeS), (0x4f, InstrI32GeU), (0x50, InstrI64Eqz), (0x51, InstrI64Eq),
      (0x52, InstrI64Ne), (0x53, InstrI64LtS), (0x54, InstrI64LtU), (0x55, InstrI64GtS), (0x56, InstrI64GtU),
      (0x57, InstrI64LeS), (0x58, InstrI64LeU), (0x59, InstrI64GeS), (0x5a, InstrI64GeU), (0x5b, InstrF32Eq),
      (0x5c, InstrF32Ne), (0x5d, InstrF32Lt), (0x5e, InstrF32Gt), (0x5f, InstrF32Le), (0x60, InstrF32Ge),
      (0x61, InstrF64Eq), (0x62, InstrF64Ne), (0x63, InstrF64Lt), (0x64, InstrF64Gt), (0x65, InstrF64Le),
      (0x66, InstrF64Ge), (0x67, InstrI32Clz), (0x68, InstrI32Ctz), (0x69, InstrI32Popcnt), (0x6a, InstrI32Add),
      (0x6b, InstrI32Sub), (0x6c, InstrI32Mul), (0x6d, InstrI32DivS), (0x6e, InstrI32DivU), (0x6f, InstrI32RemS),
      (0x70, InstrI32RemU), (0x71, InstrI32And), (0x72, InstrI32Or), (0x73, InstrI32Xor), (0x74, InstrI32Shl),
      (0x75, InstrI32ShrS), (0x76, InstrI32ShrU), (0x77, InstrI32Rotl), (0x78, InstrI32Rotr), (0x79, InstrI64Clz),
      (0x7a, InstrI64Ctz), (0x7b, InstrI64Popcnt), (0x7c, InstrI64Add), (0x7d, InstrI64Sub), (0x7e, InstrI64Mul),
      (0x7f, InstrI64DivS), (0x80, InstrI64DivU), (0x81, InstrI64RemS), (0x82, InstrI64RemU), (0x83, InstrI64And),
      (0x84, InstrI64Or), (0x85, InstrI64Xor), (0x86, InstrI64Shl), (0x87, InstrI64ShrS), (0x88, InstrI64ShrU),
      (0x89, InstrI64Rotl), (0x8a, InstrI64Rotr), (0x8b, InstrF32Abs), (0x8c, InstrF32Neg), (0x8d, InstrF32Ceil),
      (0x8e, InstrF32Floor), (0x8f, InstrF32Trunc), (0x90, InstrF32Nearest), (0x91, InstrF32Sqrt), (0x92, InstrF32Add),
      (0x93, InstrF32Sub), (0x94, InstrF32Mul), (0x95, InstrF32Div), (0x96, InstrF32Min), (0x97, InstrF32Max),
      (0x98, InstrF32Copysign), (0x99, InstrF64Abs), (0x9a, InstrF64Neg), (0x9b, InstrF64Ceil), (0x9c, InstrF64Floor),
      (0x9d, InstrF64Trunc), (0x9e, InstrF64Nearest), (0x9f, InstrF64Sqrt), (0xa0, InstrF64Add), (0xa1, InstrF64Sub),
      (0xa2, InstrF64Mul), (0xa3, InstrF64Div), (0xa4, InstrF64Min), (0xa5, InstrF64Max), (0xa6, InstrF64Copysign),
      (0xa7, InstrI32WrapI64), (0xa8, InstrI32TruncF32S), (0xa9, InstrI32TruncF32U), (0xaa, InstrI32TruncF64S), (0xab, InstrI32TruncF64U),
      (0xac, InstrI64ExtendI32S), (0xad, InstrI64ExtendI32U), (0xae, InstrI64TruncF32S), (0xaf, InstrI64TruncF32U), (0xb0, InstrI64TruncF64S),
      (0xb1, InstrI64TruncF64U), (0xb2, InstrF32ConvertI32S), (0xb3, InstrF32ConvertI32U), (0xb4, InstrF32ConvertI64S), (0xb5, InstrF32ConvertI64U),
      (0xb6, InstrF32DemoteF64), (0xb7, InstrF64ConvertI32S), (0xb8, InstrF64ConvertI32U), (0xb9, InstrF64ConvertI64S), (0xba, InstrF64ConvertI64U),
      (0xbb, InstrF64PromoteF32), (0xbc, InstrI32ReinterpretF32), (0xbd, InstrI64ReinterpretF64), (0xbe, InstrF32ReinterpretI32), (0xbf, InstrF64ReinterpretI64),
      (0xc0, InstrI32Extend8S), (0xc1, InstrI32Extend16S), (0xc2, InstrI64Extend8S), (0xc3, InstrI64Extend16S), (0xc4, InstrI64Extend32S)]"

definition memOpcodeTable :: "(byte \<times> InstrKind) list" where
  "memOpcodeTable =
     [(0x28, InstrI32Load), (0x29, InstrI64Load), (0x2a, InstrF32Load), (0x2b, InstrF64Load), (0x2c, InstrI32Load8S),
      (0x2d, InstrI32Load8U), (0x2e, InstrI32Load16S), (0x2f, InstrI32Load16U), (0x30, InstrI64Load8S), (0x31, InstrI64Load8U),
      (0x32, InstrI64Load16S), (0x33, InstrI64Load16U), (0x34, InstrI64Load32S), (0x35, InstrI64Load32U), (0x36, InstrI32Store),
      (0x37, InstrI64Store), (0x38, InstrF32Store), (0x39, InstrF64Store), (0x3a, InstrI32Store8), (0x3b, InstrI32Store16),
      (0x3c, InstrI64Store8), (0x3d, InstrI64Store16), (0x3e, InstrI64Store32)]"

definition fcNoImm :: "(u32 \<times> InstrKind) list" where
  "fcNoImm =
     [(0, InstrI32TruncSatF32S), (1, InstrI32TruncSatF32U), (2, InstrI32TruncSatF64S), (3, InstrI32TruncSatF64U), (4, InstrI64TruncSatF32S),
      (5, InstrI64TruncSatF32U), (6, InstrI64TruncSatF64S), (7, InstrI64TruncSatF64U), (19, InstrI64Add128), (20, InstrI64Sub128),
      (21, InstrI64MulWideS), (22, InstrI64MulWideU)]"

definition fbNoImm :: "(u32 \<times> InstrKind) list" where
  "fbNoImm =
     [(15, InstrArrayLen), (26, InstrAnyConvertExtern), (27, InstrExternConvertAny), (28, InstrRefI31), (29, InstrI31GetS),
      (30, InstrI31GetU)]"

definition feMem :: "(u32 \<times> InstrKind) list" where
  "feMem =
     [(0x00, InstrMemoryAtomicNotify), (0x01, InstrMemoryAtomicWait32), (0x02, InstrMemoryAtomicWait64), (0x10, InstrI32AtomicLoad), (0x11, InstrI64AtomicLoad),
      (0x12, InstrI32AtomicLoad8U), (0x13, InstrI32AtomicLoad16U), (0x14, InstrI64AtomicLoad8U), (0x15, InstrI64AtomicLoad16U), (0x16, InstrI64AtomicLoad32U),
      (0x17, InstrI32AtomicStore), (0x18, InstrI64AtomicStore), (0x19, InstrI32AtomicStore8), (0x1a, InstrI32AtomicStore16), (0x1b, InstrI64AtomicStore8),
      (0x1c, InstrI64AtomicStore16), (0x1d, InstrI64AtomicStore32)]"

definition fdMem :: "(u32 \<times> InstrKind) list" where
  "fdMem =
     [(0, InstrV128Load), (1, InstrV128Load8x8S), (2, InstrV128Load8x8U), (3, InstrV128Load16x4S), (4, InstrV128Load16x4U),
      (5, InstrV128Load32x2S), (6, InstrV128Load32x2U), (7, InstrV128Load8Splat), (8, InstrV128Load16Splat), (9, InstrV128Load32Splat),
      (10, InstrV128Load64Splat), (11, InstrV128Store), (84, InstrV128Load8Lane), (85, InstrV128Load16Lane), (86, InstrV128Load32Lane),
      (87, InstrV128Load64Lane), (88, InstrV128Store8Lane), (89, InstrV128Store16Lane), (90, InstrV128Store32Lane), (91, InstrV128Store64Lane),
      (92, InstrV128Load32Zero), (93, InstrV128Load64Zero)]"

definition fdLane :: "(u32 \<times> InstrKind) list" where
  "fdLane =
     [(21, InstrI8x16ExtractLaneS), (22, InstrI8x16ExtractLaneU), (23, InstrI8x16ReplaceLane), (24, InstrI16x8ExtractLaneS), (25, InstrI16x8ExtractLaneU),
      (26, InstrI16x8ReplaceLane), (27, InstrI32x4ExtractLane), (28, InstrI32x4ReplaceLane), (29, InstrI64x2ExtractLane), (30, InstrI64x2ReplaceLane),
      (31, InstrF32x4ExtractLane), (32, InstrF32x4ReplaceLane), (33, InstrF64x2ExtractLane), (34, InstrF64x2ReplaceLane)]"

definition fdNoImm :: "(u32 \<times> InstrKind) list" where
  "fdNoImm =
     [(14, InstrI8x16Swizzle), (15, InstrI8x16Splat), (16, InstrI16x8Splat), (17, InstrI32x4Splat), (18, InstrI64x2Splat),
      (19, InstrF32x4Splat), (20, InstrF64x2Splat), (35, InstrI8x16Eq), (36, InstrI8x16Ne), (37, InstrI8x16LtS),
      (38, InstrI8x16LtU), (39, InstrI8x16GtS), (40, InstrI8x16GtU), (41, InstrI8x16LeS), (42, InstrI8x16LeU),
      (43, InstrI8x16GeS), (44, InstrI8x16GeU), (45, InstrI16x8Eq), (46, InstrI16x8Ne), (47, InstrI16x8LtS),
      (48, InstrI16x8LtU), (49, InstrI16x8GtS), (50, InstrI16x8GtU), (51, InstrI16x8LeS), (52, InstrI16x8LeU),
      (53, InstrI16x8GeS), (54, InstrI16x8GeU), (55, InstrI32x4Eq), (56, InstrI32x4Ne), (57, InstrI32x4LtS),
      (58, InstrI32x4LtU), (59, InstrI32x4GtS), (60, InstrI32x4GtU), (61, InstrI32x4LeS), (62, InstrI32x4LeU),
      (63, InstrI32x4GeS), (64, InstrI32x4GeU), (65, InstrF32x4Eq), (66, InstrF32x4Ne), (67, InstrF32x4Lt),
      (68, InstrF32x4Gt), (69, InstrF32x4Le), (70, InstrF32x4Ge), (71, InstrF64x2Eq), (72, InstrF64x2Ne),
      (73, InstrF64x2Lt), (74, InstrF64x2Gt), (75, InstrF64x2Le), (76, InstrF64x2Ge), (77, InstrV128Not),
      (78, InstrV128And), (79, InstrV128Andnot), (80, InstrV128Or), (81, InstrV128Xor), (82, InstrV128Bitselect),
      (83, InstrV128AnyTrue), (94, InstrF32x4DemoteF64x2Zero), (95, InstrF64x2PromoteLowF32x4), (96, InstrI8x16Abs), (97, InstrI8x16Neg),
      (98, InstrI8x16Popcnt), (99, InstrI8x16AllTrue), (100, InstrI8x16Bitmask), (101, InstrI8x16NarrowI16x8S), (102, InstrI8x16NarrowI16x8U),
      (103, InstrF32x4Ceil), (104, InstrF32x4Floor), (105, InstrF32x4Trunc), (106, InstrF32x4Nearest), (107, InstrI8x16Shl),
      (108, InstrI8x16ShrS), (109, InstrI8x16ShrU), (110, InstrI8x16Add), (111, InstrI8x16AddSatS), (112, InstrI8x16AddSatU),
      (113, InstrI8x16Sub), (114, InstrI8x16SubSatS), (115, InstrI8x16SubSatU), (116, InstrF64x2Ceil), (117, InstrF64x2Floor),
      (118, InstrI8x16MinS), (119, InstrI8x16MinU), (120, InstrI8x16MaxS), (121, InstrI8x16MaxU), (122, InstrF64x2Trunc),
      (123, InstrI8x16AvgrU), (124, InstrI16x8ExtaddPairwiseI8x16S), (125, InstrI16x8ExtaddPairwiseI8x16U), (126, InstrI32x4ExtaddPairwiseI16x8S), (127, InstrI32x4ExtaddPairwiseI16x8U),
      (128, InstrI16x8Abs), (129, InstrI16x8Neg), (130, InstrI16x8Q15mulrSatS), (131, InstrI16x8AllTrue), (132, InstrI16x8Bitmask),
      (133, InstrI16x8NarrowI32x4S), (134, InstrI16x8NarrowI32x4U), (135, InstrI16x8ExtendLowI8x16S), (136, InstrI16x8ExtendHighI8x16S), (137, InstrI16x8ExtendLowI8x16U),
      (138, InstrI16x8ExtendHighI8x16U), (139, InstrI16x8Shl), (140, InstrI16x8ShrS), (141, InstrI16x8ShrU), (142, InstrI16x8Add),
      (143, InstrI16x8AddSatS), (144, InstrI16x8AddSatU), (145, InstrI16x8Sub), (146, InstrI16x8SubSatS), (147, InstrI16x8SubSatU),
      (148, InstrF64x2Nearest), (149, InstrI16x8Mul), (150, InstrI16x8MinS), (151, InstrI16x8MinU), (152, InstrI16x8MaxS),
      (153, InstrI16x8MaxU), (155, InstrI16x8AvgrU), (156, InstrI16x8ExtmulLowI8x16S), (157, InstrI16x8ExtmulHighI8x16S), (158, InstrI16x8ExtmulLowI8x16U),
      (159, InstrI16x8ExtmulHighI8x16U), (160, InstrI32x4Abs), (161, InstrI32x4Neg), (163, InstrI32x4AllTrue), (164, InstrI32x4Bitmask),
      (167, InstrI32x4ExtendLowI16x8S), (168, InstrI32x4ExtendHighI16x8S), (169, InstrI32x4ExtendLowI16x8U), (170, InstrI32x4ExtendHighI16x8U), (171, InstrI32x4Shl),
      (172, InstrI32x4ShrS), (173, InstrI32x4ShrU), (174, InstrI32x4Add), (177, InstrI32x4Sub), (181, InstrI32x4Mul),
      (182, InstrI32x4MinS), (183, InstrI32x4MinU), (184, InstrI32x4MaxS), (185, InstrI32x4MaxU), (186, InstrI32x4DotI16x8S),
      (188, InstrI32x4ExtmulLowI16x8S), (189, InstrI32x4ExtmulHighI16x8S), (190, InstrI32x4ExtmulLowI16x8U), (191, InstrI32x4ExtmulHighI16x8U), (192, InstrI64x2Abs),
      (193, InstrI64x2Neg), (195, InstrI64x2AllTrue), (196, InstrI64x2Bitmask), (199, InstrI64x2ExtendLowI32x4S), (200, InstrI64x2ExtendHighI32x4S),
      (201, InstrI64x2ExtendLowI32x4U), (202, InstrI64x2ExtendHighI32x4U), (203, InstrI64x2Shl), (204, InstrI64x2ShrS), (205, InstrI64x2ShrU),
      (206, InstrI64x2Add), (209, InstrI64x2Sub), (213, InstrI64x2Mul), (214, InstrI64x2Eq), (215, InstrI64x2Ne),
      (216, InstrI64x2LtS), (217, InstrI64x2GtS), (218, InstrI64x2LeS), (219, InstrI64x2GeS), (220, InstrI64x2ExtmulLowI32x4S),
      (221, InstrI64x2ExtmulHighI32x4S), (222, InstrI64x2ExtmulLowI32x4U), (223, InstrI64x2ExtmulHighI32x4U), (224, InstrF32x4Abs), (225, InstrF32x4Neg),
      (227, InstrF32x4Sqrt), (228, InstrF32x4Add), (229, InstrF32x4Sub), (230, InstrF32x4Mul), (231, InstrF32x4Div),
      (232, InstrF32x4Min), (233, InstrF32x4Max), (234, InstrF32x4Pmin), (235, InstrF32x4Pmax), (236, InstrF64x2Abs),
      (237, InstrF64x2Neg), (239, InstrF64x2Sqrt), (240, InstrF64x2Add), (241, InstrF64x2Sub), (242, InstrF64x2Mul),
      (243, InstrF64x2Div), (244, InstrF64x2Min), (245, InstrF64x2Max), (246, InstrF64x2Pmin), (247, InstrF64x2Pmax),
      (248, InstrI32x4TruncSatF32x4S), (249, InstrI32x4TruncSatF32x4U), (250, InstrF32x4ConvertI32x4S), (251, InstrF32x4ConvertI32x4U), (252, InstrI32x4TruncSatF64x2SZero),
      (253, InstrI32x4TruncSatF64x2UZero), (254, InstrF64x2ConvertLowI32x4S), (255, InstrF64x2ConvertLowI32x4U), (256, InstrI8x16RelaxedSwizzle), (257, InstrI32x4RelaxedTruncF32x4S),
      (258, InstrI32x4RelaxedTruncF32x4U), (259, InstrI32x4RelaxedTruncZeroF64x2S), (260, InstrI32x4RelaxedTruncZeroF64x2U), (261, InstrF32x4RelaxedMadd), (262, InstrF32x4RelaxedNmadd),
      (263, InstrF64x2RelaxedMadd), (264, InstrF64x2RelaxedNmadd), (265, InstrI8x16RelaxedLaneselect), (266, InstrI16x8RelaxedLaneselect), (267, InstrI32x4RelaxedLaneselect),
      (268, InstrI64x2RelaxedLaneselect), (269, InstrF32x4RelaxedMin), (270, InstrF32x4RelaxedMax), (271, InstrF64x2RelaxedMin), (272, InstrF64x2RelaxedMax),
      (273, InstrI16x8RelaxedQ15mulrS), (274, InstrI16x8RelaxedDotI8x16I7x16S), (275, InstrI32x4RelaxedDotI8x16I7x16AddS)]"

definition simpleOpcode :: "byte \<Rightarrow> InstrKind" where
  "simpleOpcode op = (case map_of simpleOpcodeTable op of Some k \<Rightarrow> k | None \<Rightarrow> InstrInvalid)"

definition memOpcodeKind :: "byte \<Rightarrow> InstrKind" where
  "memOpcodeKind op = (case map_of memOpcodeTable op of Some k \<Rightarrow> k | None \<Rightarrow> InstrInvalid)"

text \<open>The kind found in a prefix table; \<open>None\<close> is the source's \<open>(InstrInvalid, false)\<close>.\<close>

definition lookupPrefixKind :: "(u32 \<times> InstrKind) list \<Rightarrow> u32 \<Rightarrow> InstrKind option" where
  "lookupPrefixKind table sub =
     (case map_of table sub of Some k \<Rightarrow> if k = InstrInvalid then None else Some k | None \<Rightarrow> None)"

definition oneIndexImmediateKind :: "byte \<Rightarrow> InstrKind" where
  "oneIndexImmediateKind op =
     (if op = 0x08 then InstrThrow else if op = 0x0c then InstrBr else if op = 0x0d then InstrBrIf
      else if op = 0x10 then InstrCall else if op = 0x12 then InstrReturnCall else if op = 0x14 then InstrCallRef
      else if op = 0x15 then InstrReturnCallRef else if op = 0x20 then InstrLocalGet else if op = 0x21 then InstrLocalSet
      else if op = 0x22 then InstrLocalTee else if op = 0x23 then InstrGlobalGet else if op = 0x24 then InstrGlobalSet
      else if op = 0x25 then InstrTableGet else if op = 0x26 then InstrTableSet else if op = 0xd2 then InstrRefFunc
      else if op = 0xd5 then InstrBrOnNull else if op = 0xd6 then InstrBrOnNonNull else InstrInvalid)"

definition fcIndexedKind :: "u32 \<Rightarrow> InstrKind" where
  "fcIndexedKind sub =
     (if sub = 8 then InstrMemoryInit else if sub = 9 then InstrDataDrop else if sub = 10 then InstrMemoryCopy
      else if sub = 12 then InstrTableInit else if sub = 13 then InstrElemDrop else if sub = 14 then InstrTableCopy
      else if sub = 15 then InstrTableGrow else if sub = 16 then InstrTableSize else if sub = 17 then InstrTableFill
      else InstrInvalid)"

definition fbOneIndexKind :: "u32 \<Rightarrow> InstrKind" where
  "fbOneIndexKind sub =
     (if sub = 0 then InstrStructNew else if sub = 1 then InstrStructNewDefault else if sub = 6 then InstrArrayNew
      else if sub = 7 then InstrArrayNewDefault else if sub = 11 then InstrArrayGet else if sub = 12 then InstrArrayGetS
      else if sub = 13 then InstrArrayGetU else if sub = 14 then InstrArraySet else if sub = 16 then InstrArrayFill
      else if sub = 32 then InstrStructNewDesc else if sub = 33 then InstrStructNewDefaultDesc
      else if sub = 34 then InstrRefGetDesc else if sub = 0x82 then InstrStringConst else InstrInvalid)"

definition fbTwoIndexKind :: "u32 \<Rightarrow> InstrKind" where
  "fbTwoIndexKind sub =
     (if sub = 2 then InstrStructGet else if sub = 3 then InstrStructGetS else if sub = 4 then InstrStructGetU
      else if sub = 5 then InstrStructSet else if sub = 8 then InstrArrayNewFixed else if sub = 9 then InstrArrayNewData
      else if sub = 10 then InstrArrayNewElem else if sub = 17 then InstrArrayCopy else if sub = 18 then InstrArrayInitData
      else if sub = 19 then InstrArrayInitElem else InstrInvalid)"

definition fbStringArrayKind :: "u32 \<Rightarrow> InstrKind" where
  "fbStringArrayKind sub =
     (if sub = 0xb0 then InstrStringNewUtf8Array else if sub = 0xb1 then InstrStringNewWtf16Array
      else if sub = 0xb2 then InstrStringEncodeUtf8Array else if sub = 0xb3 then InstrStringEncodeWtf16Array
      else if sub = 0xb4 then InstrStringNewLossyUtf8Array else if sub = 0xb5 then InstrStringNewWtf8Array
      else if sub = 0xb6 then InstrStringEncodeLossyUtf8Array else if sub = 0xb7 then InstrStringEncodeWtf8Array
      else InstrInvalid)"

definition ImmediateFreeInstructionKind :: "byte \<Rightarrow> InstrKind \<times> bool" where
  "ImmediateFreeInstructionKind op = (simpleOpcode op, simpleOpcode op \<noteq> InstrInvalid)"

end
