(* ===== verification/Classify.thy ===== *)
theory Classify
  imports Decode Opcodes
begin

unbundle bit_operations_syntax

text \<open>
  Classifying and skipping instruction immediates: \<^verbatim>\<open>compiler/wasm/bytecode_skip.go\<close>,
  \<^verbatim>\<open>bytecode_walk.go\<close>, and the block-type and memarg helpers of \<^verbatim>\<open>instruction_decode.go\<close> and
  \<^verbatim>\<open>prefix_decode.go\<close>.

  The classifiers write an \<open>InstructionImmediate\<close> through a pointer while they consume bytes, also
  on error paths. Their state is the cursor paired with that record: \<open>liftC\<close> runs a cursor
  operation, \<open>modC\<close> assigns to the record, and \<open>storeC f m\<close> runs \<open>m\<close> and then performs the
  assignment \<open>f\<close> the source makes before it looks at the error (\<open>f None\<close> when \<open>m\<close> failed).
\<close>

section \<open>Block types and memory arguments\<close>

datatype BlockTypeKind = BlockVoid | BlockVal | BlockTypeIndex

record BlockType =
  bt_Kind :: BlockTypeKind
  bt_Val :: ValType
  bt_Type :: TypeIdx

definition zeroPacked :: packed where "zeroPacked = \<lparr>lo = 0, hi = 0\<rparr>"
definition zeroTypeIdx :: TypeIdx where "zeroTypeIdx = \<lparr>ti_Index = 0, ti_Rec = False\<rparr>"

definition isValTypeLead :: "byte \<Rightarrow> bool" where
  "isValTypeLead b =
     (b \<in> {0x7f, 0x7e, 0x7d, 0x7c, 0x7b, 0x63, 0x64, 0x6f, 0x70, 0x6e, 0x6d, 0x6c, 0x6b, 0x6a, 0x69, 0x71, 0x72, 0x73, 0x74})"

text \<open>A type-index block type: any failure of the signed read becomes an invalid block type.\<close>

definition blockTypeIndex :: "(reader, BlockType) rd" where
  "blockTypeIndex r =
     (case r_s33 r of
        (Inr x, r1) \<Rightarrow>
          if sint x < 0 then (Inl (DecodeError ErrInvalidBlockType (pos r1)), r1)
          else (Inr \<lparr>bt_Kind = BlockTypeIndex, bt_Val = zeroPacked, bt_Type = \<lparr>ti_Index = ucast x, ti_Rec = False\<rparr>\<rparr>, r1)
      | (Inl _, r1) \<Rightarrow> (Inl (DecodeError ErrInvalidBlockType (pos r1)), r1))"

definition decodeBlockType :: "(reader, BlockType) rd" where
  "decodeBlockType = bindR peekR (\<lambda>ob.
     case ob of
       None \<Rightarrow> failAt ErrInvalidBlockType
     | Some b \<Rightarrow>
         if b = 0x40 then bindR r_byte (\<lambda>_. returnR \<lparr>bt_Kind = BlockVoid, bt_Val = zeroPacked, bt_Type = zeroTypeIdx\<rparr>)
         else if isValTypeLead b
         then mapR (\<lambda>vt. \<lparr>bt_Kind = BlockVal, bt_Val = vt, bt_Type = zeroTypeIdx\<rparr>) decodeValType
         else blockTypeIndex)"

record CastOp =
  SourceNullable :: bool
  TargetNullable :: bool

definition decodeCastOp :: "(reader, CastOp) rd" where
  "decodeCastOp = bindR r_byte (\<lambda>b.
     if b = 0 then returnR \<lparr>SourceNullable = False, TargetNullable = False\<rparr>
     else if b = 1 then returnR \<lparr>SourceNullable = True, TargetNullable = False\<rparr>
     else if b = 2 then returnR \<lparr>SourceNullable = False, TargetNullable = True\<rparr>
     else if b = 3 then returnR \<lparr>SourceNullable = True, TargetNullable = True\<rparr>
     else failBack ErrInvalidInstruction)"

definition decodeAtomicOrder :: "(reader, byte) rd" where
  "decodeAtomicOrder = bindR r_byte (\<lambda>b. if b = 0 \<or> b = 1 then returnR b else failBack ErrInvalidInstruction)"

definition readReservedZeroByte :: "(reader, unit) rd" where
  "readReservedZeroByte = bindR r_byte (\<lambda>b. if b \<noteq> 0 then failBack ErrInvalidInstruction else returnR ())"

definition readMemoryIndex :: "bool \<Rightarrow> (reader, u32) rd" where
  "readMemoryIndex multiMemory = (if multiMemory then r_u32 else mapR (\<lambda>_. 0) readReservedZeroByte)"

record memargWidths =
  w_multiMemory :: bool
  w_indexed64 :: "u64 list"
  w_fixed64 :: bool

definition fixedMemargWidths :: "bool \<Rightarrow> memargWidths" where
  "fixedMemargWidths addr64 = \<lparr>w_multiMemory = True, w_indexed64 = [], w_fixed64 = addr64\<rparr>"

definition offset64 :: "memargWidths \<Rightarrow> u32 \<Rightarrow> bool" where
  "offset64 w memoryIndex =
     (let word = unat (drop_bit 6 memoryIndex)
      in if word < length (w_indexed64 w)
         then (w_indexed64 w ! word) AND push_bit (unat (memoryIndex AND 63)) 1 \<noteq> 0
         else w_fixed64 w)"

section \<open>The classifier state\<close>

record InstructionImmediate =
  imm_Kind :: InstrKind
  imm_Prefix :: byte
  imm_Subopcode :: u32
  imm_Index :: u32
  imm_Index2 :: u32
  imm_HasMemIndex :: bool
  imm_MemIndex :: u32
  imm_MemAlign :: u32
  imm_MemOffset :: u64
  imm_TouchesMemory :: bool
  imm_UsesBulkMemory :: bool
  imm_HasHeapType :: bool
  imm_HeapType :: HeapType
  imm_HasHeapType2 :: bool
  imm_HeapType2 :: HeapType
  imm_Cast :: CastOp

definition zeroImmediate :: InstructionImmediate where
  "zeroImmediate =
     \<lparr>imm_Kind = InstrInvalid, imm_Prefix = 0, imm_Subopcode = 0, imm_Index = 0, imm_Index2 = 0, imm_HasMemIndex = False,
      imm_MemIndex = 0, imm_MemAlign = 0, imm_MemOffset = 0, imm_TouchesMemory = False, imm_UsesBulkMemory = False,
      imm_HasHeapType = False, imm_HeapType = zeroPacked, imm_HasHeapType2 = False, imm_HeapType2 = zeroPacked,
      imm_Cast = \<lparr>SourceNullable = False, TargetNullable = False\<rparr>\<rparr>"

datatype directOpKind = directInstr | directBlock | directLoop | directIf | directTryTable | directElse | directEnd

type_synonym cstate = "reader \<times> InstructionImmediate"

definition liftC :: "(reader, 'a) rd \<Rightarrow> (cstate, 'a) rd" where
  "liftC m s = (case m (fst s) of (x, r1) \<Rightarrow> (x, (r1, snd s)))"

definition modC :: "(InstructionImmediate \<Rightarrow> InstructionImmediate) \<Rightarrow> (cstate, unit) rd" where
  "modC f s = (Inr (), (fst s, f (snd s)))"

definition storeC :: "('a option \<Rightarrow> InstructionImmediate \<Rightarrow> InstructionImmediate) \<Rightarrow> (reader, 'a) rd \<Rightarrow> (cstate, 'a) rd" where
  "storeC f m s =
     (case m (fst s) of
        (Inr x, r1) \<Rightarrow> (Inr x, (r1, f (Some x) (snd s)))
      | (Inl e, r1) \<Rightarrow> (Inl e, (r1, f None (snd s))))"

definition failC :: "decode_code \<Rightarrow> (cstate, 'a) rd" where
  "failC c = failR (\<lambda>s. DecodeError c (pos (fst s)))"

definition failBackC :: "decode_code \<Rightarrow> (cstate, 'a) rd" where
  "failBackC c = failR (\<lambda>s. DecodeError c (pos (fst s) - 1))"

text \<open>A Go zero value where the read failed.\<close>

abbreviation orZero :: "'a::zero option \<Rightarrow> 'a" where "orZero mx \<equiv> (case mx of Some x \<Rightarrow> x | None \<Rightarrow> 0)"
abbreviation orNoHeap :: "HeapType option \<Rightarrow> HeapType" where "orNoHeap mx \<equiv> (case mx of Some x \<Rightarrow> x | None \<Rightarrow> zeroPacked)"

abbreviation storeIndex :: "(reader, u32) rd \<Rightarrow> (cstate, u32) rd" where
  "storeIndex \<equiv> storeC (\<lambda>x. imm_Index_update (\<lambda>_. orZero x))"

abbreviation storeIndex2 :: "(reader, u32) rd \<Rightarrow> (cstate, u32) rd" where
  "storeIndex2 \<equiv> storeC (\<lambda>x. imm_Index2_update (\<lambda>_. orZero x))"

abbreviation setKind :: "InstrKind \<Rightarrow> (cstate, unit) rd" where
  "setKind k \<equiv> modC (imm_Kind_update (\<lambda>_. k))"

abbreviation thenC :: "('s, 'a) rd \<Rightarrow> ('s, 'b) rd \<Rightarrow> ('s, 'b) rd" where
  "thenC m n \<equiv> bindR m (\<lambda>_. n)"

section \<open>Skipping vectors and heap types\<close>

definition skipValTypeBytes :: "(reader, unit) rd" where
  "skipValTypeBytes = mapR (\<lambda>_. ()) decodeValType"

definition skipResultTypeBytes :: "(reader, unit) rd" where
  "skipResultTypeBytes = bindR r_u32 (\<lambda>n. mapR (\<lambda>_. ()) (repeatR (unat n) skipValTypeBytes))"

definition skipRefHeapTypeBytes :: "(reader, unit) rd" where
  "skipRefHeapTypeBytes = mapR (\<lambda>_. ()) decodeRefHeapType"

definition skipHeapTypeBytes :: "(reader, unit) rd" where
  "skipHeapTypeBytes = mapR (\<lambda>_. ()) decodeHeapType"

definition skipCatch :: "(reader, unit) rd" where
  "skipCatch = bindR r_byte (\<lambda>kind.
     if kind = 0 \<or> kind = 1 then bindR r_u32 (\<lambda>_. mapR (\<lambda>_. ()) r_u32)
     else if kind = 2 \<or> kind = 3 then mapR (\<lambda>_. ()) r_u32
     else failBack ErrInvalidInstruction)"

definition skipCatchVecBytes :: "(reader, unit) rd" where
  "skipCatchVecBytes = bindR r_u32 (\<lambda>n. mapR (\<lambda>_. ()) (repeatR (unat n) skipCatch))"

section \<open>The prefix classifiers\<close>

definition classifyMemArgBytes :: "memargWidths \<Rightarrow> (cstate, unit) rd" where
  "classifyMemArgBytes widths =
     bindR (liftC r_u32) (\<lambda>n.
       bindR (if n < 64 then thenC (modC (imm_MemAlign_update (\<lambda>_. n))) (returnR 0)
              else if n < 128 then
                (if \<not> w_multiMemory widths then failC ErrInvalidInstruction
                 else thenC (modC (imm_MemAlign_update (\<lambda>_. n - 64)))
                        (bindR (liftC r_u32) (\<lambda>mi.
                           thenC (modC (\<lambda>i. i\<lparr>imm_HasMemIndex := True, imm_MemIndex := mi\<rparr>)) (returnR mi))))
              else failC ErrInvalidInstruction)
         (\<lambda>memoryIndex.
            if offset64 widths memoryIndex
            then mapR (\<lambda>_. ()) (storeC (\<lambda>x. imm_MemOffset_update (\<lambda>_. orZero x)) r_u64)
            else mapR (\<lambda>_. ()) (storeC (\<lambda>x. imm_MemOffset_update (\<lambda>_. ucast (orZero x))) r_u32)))"

abbreviation storePrefix :: "byte \<Rightarrow> (cstate, u32) rd" where
  "storePrefix p \<equiv> storeC (\<lambda>x i. i\<lparr>imm_Prefix := p, imm_Subopcode := orZero x\<rparr>) r_u32"

definition classifyFCBytes :: "bool \<Rightarrow> (cstate, unit) rd" where
  "classifyFCBytes multiMemory =
     bindR (storePrefix 0xfc) (\<lambda>sub.
       case lookupPrefixKind fcNoImm sub of
         Some k \<Rightarrow> setKind k
       | None \<Rightarrow>
           if sub \<in> {8, 10, 12, 14} then
             thenC (setKind (fcIndexedKind sub))
               (thenC (storeIndex (if sub = 10 then readMemoryIndex multiMemory else r_u32))
                  (mapR (\<lambda>_. ())
                     (storeC (\<lambda>x i. i\<lparr>imm_Index2 := orZero x, imm_TouchesMemory := (sub = 8 \<or> sub = 10), imm_UsesBulkMemory := (sub = 10)\<rparr>)
                        (if sub = 8 \<or> sub = 10 then readMemoryIndex multiMemory else r_u32))))
           else if sub \<in> {9, 13, 15, 16, 17} then
             thenC (setKind (fcIndexedKind sub)) (mapR (\<lambda>_. ()) (storeIndex r_u32))
           else if sub = 11 then
             thenC (setKind InstrMemoryFill)
               (mapR (\<lambda>_. ())
                  (storeC (\<lambda>x i. i\<lparr>imm_Index := orZero x, imm_TouchesMemory := True, imm_UsesBulkMemory := True\<rparr>)
                     (readMemoryIndex multiMemory)))
           else failC ErrInvalidInstruction)"

definition classifyFBBytes :: "(cstate, unit) rd" where
  "classifyFBBytes =
     bindR (storePrefix 0xfb) (\<lambda>sub.
       case lookupPrefixKind fbNoImm sub of
         Some k \<Rightarrow> setKind k
       | None \<Rightarrow>
           if sub \<in> {0xb0, 0xb1, 0xb2, 0xb3, 0xb4, 0xb5, 0xb6, 0xb7} then setKind (fbStringArrayKind sub)
           else if sub \<in> {0, 1, 6, 7, 11, 12, 13, 14, 16, 32, 33, 34, 0x82} then
             thenC (setKind (fbOneIndexKind sub)) (mapR (\<lambda>_. ()) (storeIndex r_u32))
           else if sub \<in> {2, 3, 4, 5, 8, 9, 10, 17, 18, 19} then
             thenC (setKind (fbTwoIndexKind sub)) (thenC (storeIndex r_u32) (mapR (\<lambda>_. ()) (storeIndex2 r_u32)))
           else if sub \<in> {20, 21} then
             thenC (setKind InstrRefTest)
               (mapR (\<lambda>_. ()) (storeC (\<lambda>x i. i\<lparr>imm_HeapType := orNoHeap x, imm_HasHeapType := (x \<noteq> None)\<rparr>) decodeHeapType))
           else if sub \<in> {22, 23} then
             thenC (setKind InstrRefCast)
               (mapR (\<lambda>_. ())
                  (storeC (\<lambda>x i. i\<lparr>imm_Cast := (imm_Cast i)\<lparr>SourceNullable := (case x of Some (e, _) \<Rightarrow> e | None \<Rightarrow> False)\<rparr>,
                                  imm_HeapType := (case x of Some (_, h) \<Rightarrow> h | None \<Rightarrow> zeroPacked),
                                  imm_HasHeapType := (x \<noteq> None)\<rparr>) decodeRefHeapType))
           else if sub \<in> {24, 25} then
             thenC (setKind (if sub = 24 then InstrBrOnCast else InstrBrOnCastFail))
               (thenC (storeC (\<lambda>x. imm_Cast_update (\<lambda>_. case x of Some c \<Rightarrow> c | None \<Rightarrow> \<lparr>SourceNullable = False, TargetNullable = False\<rparr>)) decodeCastOp)
                 (thenC (storeIndex r_u32)
                   (thenC (storeC (\<lambda>x. imm_HeapType_update (\<lambda>_. orNoHeap x)) decodeHeapType)
                     (thenC (modC (imm_HasHeapType_update (\<lambda>_. True)))
                       (mapR (\<lambda>_. ())
                          (storeC (\<lambda>x i. i\<lparr>imm_HeapType2 := orNoHeap x, imm_HasHeapType2 := (x \<noteq> None)\<rparr>) decodeHeapType))))))
           else if sub \<in> {35, 36} then
             thenC (setKind InstrRefCastDescEq) (liftC skipRefHeapTypeBytes)
           else failC ErrInvalidInstruction)"

definition classifyFDBytes :: "memargWidths \<Rightarrow> (cstate, unit) rd" where
  "classifyFDBytes widths =
     bindR (storePrefix 0xfd) (\<lambda>sub.
       if sub = 12 \<or> sub = 13 then mapR (\<lambda>_. ()) (liftC (r_bytes 16))
       else case lookupPrefixKind fdNoImm sub of
         Some k \<Rightarrow> setKind k
       | None \<Rightarrow>
          (case lookupPrefixKind fdMem sub of
             Some k \<Rightarrow>
               thenC (modC (\<lambda>i. i\<lparr>imm_Kind := k, imm_TouchesMemory := True\<rparr>))
                 (thenC (classifyMemArgBytes widths)
                    (if sub \<ge> 84 \<and> sub \<le> 91 then mapR (\<lambda>_. ()) (liftC r_byte) else returnR ()))
           | None \<Rightarrow>
              (case lookupPrefixKind fdLane sub of
                 Some k \<Rightarrow> thenC (setKind k) (mapR (\<lambda>_. ()) (liftC r_byte))
               | None \<Rightarrow> failC ErrInvalidInstruction)))"

definition classifyFEBytes :: "memargWidths \<Rightarrow> (cstate, unit) rd" where
  "classifyFEBytes widths =
     bindR (storePrefix 0xfe) (\<lambda>sub.
       if sub = 0x03 then
         bindR (liftC r_byte) (\<lambda>b. if b \<noteq> 0 then failBackC ErrInvalidInstruction else setKind InstrAtomicFence)
       else if sub \<ge> 0x5c \<and> sub \<le> 0x5e then
         thenC (liftC decodeAtomicOrder) (thenC (storeIndex r_u32) (mapR (\<lambda>_. ()) (storeIndex2 r_u32)))
       else case lookupPrefixKind feMem sub of
         Some k \<Rightarrow> thenC (modC (\<lambda>i. i\<lparr>imm_Kind := k, imm_TouchesMemory := True\<rparr>)) (classifyMemArgBytes widths)
       | None \<Rightarrow>
           if sub \<ge> 30 \<and> sub \<le> 71 then
             thenC (modC (\<lambda>i. i\<lparr>imm_Kind := InstrAtomicRmw, imm_TouchesMemory := True\<rparr>)) (classifyMemArgBytes widths)
           else if sub \<ge> 72 \<and> sub \<le> 78 then
             thenC (modC (\<lambda>i. i\<lparr>imm_Kind := InstrAtomicCmpxchg, imm_TouchesMemory := True\<rparr>)) (classifyMemArgBytes widths)
           else failC ErrInvalidInstruction)"


section \<open>One instruction\<close>

definition oneIndexOps :: "byte set" where
  "oneIndexOps = {0x08, 0x0c, 0x0d, 0x10, 0x12, 0x14, 0x15, 0x20, 0x21, 0x22, 0x23, 0x24, 0x25, 0x26, 0xd2, 0xd5, 0xd6}"

definition invalidInstructionError :: "byte \<Rightarrow> nat \<Rightarrow> decode_error" where
  "invalidInstructionError op offset =
     DecodeError (if op \<in> {0x06, 0x07, 0x09, 0x18, 0x19} then ErrLegacyExceptionHandling else ErrInvalidInstruction) offset"

abbreviation asInstr :: "(cstate, 'a) rd \<Rightarrow> (cstate, directOpKind) rd" where
  "asInstr m \<equiv> mapR (\<lambda>_. directInstr) m"

definition classifyExprOpAfterOpcodeWithWidths :: "byte \<Rightarrow> memargWidths \<Rightarrow> bool \<Rightarrow> (cstate, directOpKind) rd" where
  "classifyExprOpAfterOpcodeWithWidths op widths0 multiMemory =
     (let widths = widths0\<lparr>w_multiMemory := multiMemory\<rparr> in
      if simpleOpcode op \<noteq> InstrInvalid then asInstr (setKind (simpleOpcode op))
      else if op \<in> {0x02, 0x03, 0x04} then
        thenC (liftC decodeBlockType)
          (if op = 0x02 then thenC (setKind InstrBlock) (returnR directBlock)
           else if op = 0x03 then thenC (setKind InstrLoop) (returnR directLoop)
           else thenC (setKind InstrIf) (returnR directIf))
      else if op = 0x05 then returnR directElse
      else if op \<in> oneIndexOps then
        asInstr (storeC (\<lambda>x i. i\<lparr>imm_Kind := oneIndexImmediateKind op, imm_Index := orZero x\<rparr>) r_u32)
      else if op = 0x0b then returnR directEnd
      else if op = 0x0e then
        bindR (liftC r_u32) (\<lambda>n. thenC (liftC (repeatR (unat n) r_u32))
          (asInstr (storeC (\<lambda>x i. i\<lparr>imm_Kind := InstrBrTable, imm_Index := orZero x\<rparr>) r_u32)))
      else if op = 0x11 \<or> op = 0x13 then
        bindR (liftC r_u32) (\<lambda>idx.
          asInstr (storeC (\<lambda>x i. i\<lparr>imm_Kind := (if op = 0x13 then InstrReturnCallIndirect else InstrCallIndirect),
                                   imm_Index := idx, imm_Index2 := orZero x\<rparr>) r_u32))
      else if op = 0x1c then thenC (setKind InstrSelect) (asInstr (liftC skipResultTypeBytes))
      else if op = 0x1f then
        thenC (liftC decodeBlockType) (thenC (liftC skipCatchVecBytes) (thenC (setKind InstrTryTable) (returnR directTryTable)))
      else if 0x28 \<le> op \<and> op \<le> 0x3e then
        thenC (modC (\<lambda>i. i\<lparr>imm_Kind := memOpcodeKind op, imm_TouchesMemory := True\<rparr>)) (asInstr (classifyMemArgBytes widths))
      else if op = 0x3f \<or> op = 0x40 then
        bindR (liftC (readMemoryIndex multiMemory)) (\<lambda>idx.
          asInstr (modC (\<lambda>i. i\<lparr>imm_Kind := (if op = 0x40 then InstrMemoryGrow else InstrMemorySize),
                              imm_Index := idx, imm_TouchesMemory := True\<rparr>)))
      else if op = 0x41 then asInstr (storeC (\<lambda>_. imm_Kind_update (\<lambda>_. InstrI32Const)) r_i32)
      else if op = 0x42 then asInstr (storeC (\<lambda>_. imm_Kind_update (\<lambda>_. InstrI64Const)) r_i64)
      else if op = 0x43 then asInstr (storeC (\<lambda>_. imm_Kind_update (\<lambda>_. InstrF32Const)) (r_bytes 4))
      else if op = 0x44 then asInstr (storeC (\<lambda>_. imm_Kind_update (\<lambda>_. InstrF64Const)) (r_bytes 8))
      else if op = 0xd0 then thenC (setKind InstrRefNull) (asInstr (liftC skipRefHeapTypeBytes))
      else if op = 0xd3 then asInstr (setKind InstrRefEq)
      else if op = 0xd4 then asInstr (setKind InstrRefAsNonNull)
      else if op = 0xfb then asInstr classifyFBBytes
      else if op = 0xfc then asInstr (classifyFCBytes multiMemory)
      else if op = 0xfd then asInstr (classifyFDBytes widths)
      else if op = 0xfe then asInstr (classifyFEBytes widths)
      else failR (\<lambda>s. invalidInstructionError op (pos (fst s) - 1)))"

definition skipExprOpAfterOpcode :: "byte \<Rightarrow> (reader, directOpKind) rd" where
  "skipExprOpAfterOpcode op r =
     (case classifyExprOpAfterOpcodeWithWidths op (fixedMemargWidths False) False (r, zeroImmediate) of
        (x, (r1, _)) \<Rightarrow> (x, r1))"

definition skipExprOp :: "(reader, directOpKind) rd" where
  "skipExprOp = bindR r_byte skipExprOpAfterOpcode"

section \<open>Walking over the exported cursor\<close>

type_synonym xstate = "Reader \<times> InstructionImmediate"

definition internalReader :: "Reader \<Rightarrow> reader" where
  "internalReader x = \<lparr>data = xdata x, pos = xpos x, budget = None\<rparr>"

definition storeX :: "('a option \<Rightarrow> InstructionImmediate \<Rightarrow> InstructionImmediate) \<Rightarrow> (Reader, 'a) rd \<Rightarrow> (xstate, unit) rd" where
  "storeX f m s =
     (case m (fst s) of
        (Inr x, r1) \<Rightarrow> (Inr (), (r1, f (Some x) (snd s)))
      | (Inl e, r1) \<Rightarrow> (Inl e, (r1, f None (snd s))))"

definition classifyInstructionImmediateIntoWithWidths :: "byte \<Rightarrow> memargWidths \<Rightarrow> bool \<Rightarrow> (xstate, unit) rd" where
  "classifyInstructionImmediateIntoWithWidths op widths multiMemory s0 =
     (let s = (fst s0, zeroImmediate) in
      if simpleOpcode op \<noteq> InstrInvalid then (Inr (), (fst s, zeroImmediate\<lparr>imm_Kind := simpleOpcode op\<rparr>))
      else if op = 0x05 \<or> op = 0x0b then (Inr (), s)
      else if op \<in> oneIndexOps
        then storeX (\<lambda>x i. i\<lparr>imm_Kind := oneIndexImmediateKind op, imm_Index := orZero x\<rparr>) R_U32 s
      else if op = 0x41 then storeX (\<lambda>_. imm_Kind_update (\<lambda>_. InstrI32Const)) R_I32 s
      else if op = 0x42 then storeX (\<lambda>_. imm_Kind_update (\<lambda>_. InstrI64Const)) R_I64 s
      else if op = 0x43 then storeX (\<lambda>_. imm_Kind_update (\<lambda>_. InstrF32Const)) (R_Bytes 4) s
      else if op = 0x44 then storeX (\<lambda>_. imm_Kind_update (\<lambda>_. InstrF64Const)) (R_Bytes 8) s
      else
        (case classifyExprOpAfterOpcodeWithWidths op widths multiMemory (internalReader (fst s), zeroImmediate) of
           (Inr _, (ir, imm)) \<Rightarrow> (Inr (), ((fst s)\<lparr>xpos := pos ir\<rparr>, imm))
         | (Inl e, (ir, imm)) \<Rightarrow> (Inl e, ((fst s)\<lparr>xpos := pos ir\<rparr>, imm))))"

definition skipScalarMemoryImmediate :: "memargWidths \<Rightarrow> bool \<Rightarrow> (reader, unit) rd" where
  "skipScalarMemoryImmediate widths multiMemory =
     bindR r_u32 (\<lambda>alignment.
       bindR (if alignment < 64 then returnR 0
              else if alignment < 128 \<and> multiMemory then r_u32
              else failAt ErrInvalidInstruction)
         (\<lambda>index. if offset64 widths index then mapR (\<lambda>_. ()) r_u64 else mapR (\<lambda>_. ()) r_u32))"

definition skipInstructionImmediateWithWidths :: "byte \<Rightarrow> memargWidths \<Rightarrow> bool \<Rightarrow> (Reader, unit) rd" where
  "skipInstructionImmediateWithWidths op widths multiMemory r =
     (if simpleOpcode op \<noteq> InstrInvalid then (Inr (), r)
      else if op = 0x05 \<or> op = 0x0b then (Inr (), r)
      else if op \<in> oneIndexOps then mapR (\<lambda>_. ()) R_U32 r
      else if op = 0x41 then mapR (\<lambda>_. ()) R_I32 r
      else if op = 0x42 then mapR (\<lambda>_. ()) R_I64 r
      else if op = 0x43 then mapR (\<lambda>_. ()) (R_Bytes 4) r
      else if op = 0x44 then mapR (\<lambda>_. ()) (R_Bytes 8) r
      else if 0x28 \<le> op \<and> op \<le> 0x3e then
        (case skipScalarMemoryImmediate widths multiMemory (internalReader r) of
           (x, ir) \<Rightarrow> (x, r\<lparr>xpos := pos ir\<rparr>))
      else
        (case classifyInstructionImmediateIntoWithWidths op widths multiMemory (r, zeroImmediate) of
           (x, (r1, _)) \<Rightarrow> (x, r1)))"

record ModuleInstructionClassifier =
  mic_widths :: memargWidths
  mic_multiMemory :: bool

definition ClassifyInto :: "ModuleInstructionClassifier \<Rightarrow> byte \<Rightarrow> (xstate, unit) rd" where
  "ClassifyInto c op = classifyInstructionImmediateIntoWithWidths op (mic_widths c) (mic_multiMemory c)"

definition SkipImmediate :: "ModuleInstructionClassifier \<Rightarrow> byte \<Rightarrow> (Reader, unit) rd" where
  "SkipImmediate c op = skipInstructionImmediateWithWidths op (mic_widths c) (mic_multiMemory c)"

definition SkipScalarMemoryImmediate :: "ModuleInstructionClassifier \<Rightarrow> (Reader, unit) rd" where
  "SkipScalarMemoryImmediate c r =
     (case skipScalarMemoryImmediate (mic_widths c) (mic_multiMemory c) (internalReader r) of
        (x, ir) \<Rightarrow> (x, r\<lparr>xpos := pos ir\<rparr>))"

definition SkipInstructionImmediateWithMemarg64 :: "byte \<Rightarrow> bool \<Rightarrow> (Reader, unit) rd" where
  "SkipInstructionImmediateWithMemarg64 op memarg64 =
     skipInstructionImmediateWithWidths op (fixedMemargWidths memarg64) True"

section \<open>The contract of the classifiers\<close>

definition classifier :: "(cstate, 'a) rd \<Rightarrow> bool" where
  "classifier m = (\<forall>s. advances (fst s) (fst (snd (m s))))"

lemma classifierI: "(\<And>s x s'. m s = (x, s') \<Longrightarrow> advances (fst s) (fst s')) \<Longrightarrow> classifier m"
  unfolding classifier_def by (metis prod.collapse)

lemma classifierD: "classifier m \<Longrightarrow> m s = (x, s') \<Longrightarrow> advances (fst s) (fst s')"
  by (metis classifier_def snd_conv)

lemma classifier_lift [cursor_rules]: "decoder m \<Longrightarrow> classifier (liftC m)"
  by (auto simp: classifier_def liftC_def decoder_def split: prod.splits dest: spec) (metis snd_conv)

lemma classifier_store [cursor_rules]: "decoder m \<Longrightarrow> classifier (storeC f m)"
  by (rule classifierI) (auto simp: storeC_def split: prod.splits sum.splits dest: decoderD)

lemma classifier_mod [cursor_rules]: "classifier (modC f)"
  by (simp add: classifier_def modC_def)

lemma classifier_return [cursor_rules]: "classifier (returnR x)" and classifier_fail [cursor_rules]: "classifier (failR e)"
  by (simp_all add: classifier_def)

lemma classifier_failC [cursor_rules]: "classifier (failC c)" "classifier (failBackC c)"
  by (simp_all add: failC_def failBackC_def cursor_rules)

lemma classifier_bind [cursor_rules]:
  assumes "classifier m" "\<And>x. classifier (f x)"
  shows "classifier (bindR m f)"
proof (rule classifierI)
  fix s y s'
  assume e: "bindR m f s = (y, s')"
  obtain x s1 where m: "m s = (x, s1)" by (cases "m s") auto
  then have "advances (fst s) (fst s1)" using assms(1) classifierD by metis
  moreover have "advances (fst s1) (fst s')"
  proof (cases x)
    case (Inl a)
    then show ?thesis using e m by (simp add: bindR_def)
  next
    case (Inr a)
    then have "f a s1 = (y, s')" using e m by (simp add: bindR_def)
    then show ?thesis using assms(2) classifierD by metis
  qed
  ultimately show "advances (fst s) (fst s')" by (rule advances_trans)
qed

lemma classifier_map [cursor_rules]: "classifier m \<Longrightarrow> classifier (mapR f m)"
  by (simp add: mapR_def cursor_rules)

lemma classifier_if [cursor_rules]: "(c \<Longrightarrow> classifier a) \<Longrightarrow> (\<not> c \<Longrightarrow> classifier b) \<Longrightarrow> classifier (if c then a else b)"
  by simp

lemma classifier_option [cursor_rules]:
  "(x = None \<Longrightarrow> classifier a) \<Longrightarrow> (\<And>y. x = Some y \<Longrightarrow> classifier (b y)) \<Longrightarrow> classifier (case x of None \<Rightarrow> a | Some y \<Rightarrow> b y)"
  by (cases x) auto

lemma classifier_Let [cursor_rules]: "(\<And>x. x = e \<Longrightarrow> classifier (f x)) \<Longrightarrow> classifier (let x = e in f x)"
  by (simp add: Let_def)

lemma decoder_helpers [cursor_rules]:
  "decoder decodeCastOp" "decoder decodeAtomicOrder" "decoder readReservedZeroByte" "decoder (readMemoryIndex mm)"
  "decoder skipValTypeBytes" "decoder skipResultTypeBytes" "decoder skipRefHeapTypeBytes" "decoder skipHeapTypeBytes"
  "decoder skipCatch" "decoder skipCatchVecBytes"
  unfolding decodeCastOp_def decodeAtomicOrder_def readReservedZeroByte_def readMemoryIndex_def skipValTypeBytes_def
    skipResultTypeBytes_def skipRefHeapTypeBytes_def skipHeapTypeBytes_def skipCatch_def skipCatchVecBytes_def
  by (intro cursor_rules)+

lemma decoder_block [cursor_rules]: "decoder decodeBlockType"
proof -
  have "decoder blockTypeIndex"
    using decoderD [OF decoder_ints(4)]
    by (intro decoderI) (auto simp: blockTypeIndex_def split: prod.splits sum.splits if_splits)
  then show ?thesis unfolding decodeBlockType_def by (intro cursor_rules)
qed

lemma classifier_prefixes [cursor_rules]:
  "classifier (classifyMemArgBytes w)" "classifier (classifyFCBytes mm)" "classifier classifyFBBytes"
  "classifier (classifyFDBytes w)" "classifier (classifyFEBytes w)"
proof -
  show m: "classifier (classifyMemArgBytes w)" for w unfolding classifyMemArgBytes_def by (intro cursor_rules)
  show "classifier (classifyFCBytes mm)" unfolding classifyFCBytes_def by (intro cursor_rules)
  show "classifier classifyFBBytes" unfolding classifyFBBytes_def by (intro cursor_rules)
  show "classifier (classifyFDBytes w)" unfolding classifyFDBytes_def by (intro cursor_rules m)
  show "classifier (classifyFEBytes w)" unfolding classifyFEBytes_def by (intro cursor_rules m)
qed

lemma classifier_op [cursor_rules]: "classifier (classifyExprOpAfterOpcodeWithWidths op w mm)"
  unfolding classifyExprOpAfterOpcodeWithWidths_def by (intro cursor_rules)


section \<open>Skipping agrees with classifying\<close>

lemma offset64_multi [simp]: "offset64 (w\<lparr>w_multiMemory := mm\<rparr>) = offset64 w"
  by (rule ext) (simp add: offset64_def)

lemma classifyMemArg_skip:
  "(case classifyMemArgBytes (w\<lparr>w_multiMemory := mm\<rparr>) (r, i) of (x, (r', _)) \<Rightarrow> (x, r')) = skipScalarMemoryImmediate w mm r"
  unfolding classifyMemArgBytes_def skipScalarMemoryImmediate_def
  by (cases "r_u32 r"; cases "fst (r_u32 r)")
     (auto simp: bindR_def liftC_def modC_def storeC_def mapR_def failC_def failAt_def split: prod.splits sum.splits)

lemma memory_op_branch:
  assumes "simpleOpcode op = InstrInvalid" "0x28 \<le> op" "op \<le> 0x3e"
  shows "classifyExprOpAfterOpcodeWithWidths op w mm =
    thenC (modC (\<lambda>i. i\<lparr>imm_Kind := memOpcodeKind op, imm_TouchesMemory := True\<rparr>))
      (asInstr (classifyMemArgBytes (w\<lparr>w_multiMemory := mm\<rparr>)))"
    and "op \<notin> oneIndexOps" "op \<noteq> 0x05" "op \<noteq> 0x0b"
  using assms by (auto simp: classifyExprOpAfterOpcodeWithWidths_def oneIndexOps_def Let_def)

lemma skip_memory_agrees:
  assumes "simpleOpcode op = InstrInvalid" "0x28 \<le> op" "op \<le> 0x3e"
  shows "(case classifyInstructionImmediateIntoWithWidths op w mm (r, i) of (x, (r', _)) \<Rightarrow> (x, r')) =
    (case skipScalarMemoryImmediate w mm (internalReader r) of (x, ir) \<Rightarrow> (x, r\<lparr>xpos := pos ir\<rparr>))"
proof -
  let ?i = "zeroImmediate\<lparr>imm_Kind := memOpcodeKind op, imm_TouchesMemory := True\<rparr>"
  have "op \<noteq> 0x41" "op \<noteq> 0x42" "op \<noteq> 0x43" "op \<noteq> 0x44" using assms(3) by auto
  then show ?thesis
    using assms memory_op_branch(1) [OF assms, where w = w and mm = mm] memory_op_branch(2-4) [OF assms] classifyMemArg_skip [of mm w "internalReader r" ?i]
    by (auto simp: classifyInstructionImmediateIntoWithWidths_def Let_def bindR_def modC_def mapR_def
        split: prod.splits sum.splits)
qed

lemma skip_store_agrees:
  "(case storeX f m (r, i) of (x, (r', _)) \<Rightarrow> (x, r')) = mapR (\<lambda>_. ()) m r"
  by (auto simp: storeX_def mapR_def bindR_def split: prod.splits sum.splits)

lemma skip_agrees:
  "skipInstructionImmediateWithWidths op w mm r =
     (case classifyInstructionImmediateIntoWithWidths op w mm (r, i) of (x, (r', _)) \<Rightarrow> (x, r'))"
proof -
  have z: "classifyInstructionImmediateIntoWithWidths op w mm (r, i) = classifyInstructionImmediateIntoWithWidths op w mm (r, zeroImmediate)"
    by (simp add: classifyInstructionImmediateIntoWithWidths_def)
  consider "simpleOpcode op \<noteq> InstrInvalid \<or> op = 0x05 \<or> op = 0x0b"
    | "simpleOpcode op = InstrInvalid" "op \<noteq> 0x05" "op \<noteq> 0x0b" "op \<in> oneIndexOps \<or> op = 0x41 \<or> op = 0x42 \<or> op = 0x43 \<or> op = 0x44"
    | "simpleOpcode op = InstrInvalid" "op \<noteq> 0x05" "op \<noteq> 0x0b" "op \<notin> oneIndexOps" "op \<noteq> 0x41" "op \<noteq> 0x42" "op \<noteq> 0x43" "op \<noteq> 0x44"
        "0x28 \<le> op \<and> op \<le> 0x3e"
    | "simpleOpcode op = InstrInvalid" "op \<noteq> 0x05" "op \<noteq> 0x0b" "op \<notin> oneIndexOps" "op \<noteq> 0x41" "op \<noteq> 0x42" "op \<noteq> 0x43" "op \<noteq> 0x44"
        "\<not> (0x28 \<le> op \<and> op \<le> 0x3e)"
    by blast
  then show ?thesis
  proof cases
    case 1
    then show ?thesis
      by (auto simp: skipInstructionImmediateWithWidths_def classifyInstructionImmediateIntoWithWidths_def Let_def)
  next
    case 2
    then show ?thesis
      by (auto simp: skipInstructionImmediateWithWidths_def classifyInstructionImmediateIntoWithWidths_def Let_def skip_store_agrees)
  next
    case 3
    then show ?thesis using skip_memory_agrees [of op w mm r i] by (simp add: skipInstructionImmediateWithWidths_def)
  next
    case 4
    then show ?thesis by (auto simp: skipInstructionImmediateWithWidths_def z)
  qed
qed

section \<open>The two cursors classify alike\<close>

definition same_reads :: "(Reader, 'a) rd \<Rightarrow> (reader, 'a) rd \<Rightarrow> bool" where
  "same_reads m n = (\<forall>x v x'. m x = (Inr v, x') \<longleftrightarrow>
     (\<exists>r'. n (internalReader x) = (Inr v, r') \<and> x' = x\<lparr>xpos := pos r'\<rparr>))"

lemma same_leb: "1 \<le> mb \<Longrightarrow> mb \<le> 64 \<Longrightarrow> same_reads (R_leb128 sgd mb) (r_leb sgd mb)"
  unfolding same_reads_def internalReader_def by (auto simp: internal.leb_iff exported.leb_iff)

lemma same_map: "same_reads m n \<Longrightarrow> same_reads (mapR f m) (mapR f n)"
  unfolding same_reads_def by (auto simp: mapR_eq_Inr)

lemma same_ints: "same_reads R_U32 r_u32" "same_reads R_I32 r_i32" "same_reads R_I64 r_i64"
proof -
  have e: "R_U32 = mapR ucast (R_leb128 False 32)" "r_u32 = mapR ucast (r_leb False 32)"
    "R_I32 = mapR ucast (R_leb128 True 32)" "r_i32 = mapR ucast (r_leb True 32)"
    by (simp_all add: fun_eq_iff r_u32_leb r_i32_leb R_U32_leb R_I32_leb)
  show "same_reads R_U32 r_u32" "same_reads R_I32 r_i32" "same_reads R_I64 r_i64"
    unfolding e R_I64_def r_i64_def by (auto intro!: same_map same_leb)
qed

lemma same_bytes: "0 < n \<Longrightarrow> same_reads (R_Bytes (int n)) (r_bytes n)"
  unfolding same_reads_def R_Bytes_def Step_def JumpTo_def r_bytes_def internalReader_def
  by (auto simp: nat_int_add split: if_splits)

lemma same_store:
  assumes "same_reads m n"
  shows "storeX f m (x, zeroImmediate) = (Inr (), (x', imm)) \<longleftrightarrow>
    (\<exists>k r'. asInstr (storeC f n) (internalReader x, zeroImmediate) = (Inr k, (r', imm)) \<and> x' = x\<lparr>xpos := pos r'\<rparr>)"
proof -
  have "storeX f m (x, zeroImmediate) = (Inr (), (x', imm)) \<longleftrightarrow> (\<exists>v. m x = (Inr v, x') \<and> imm = f (Some v) zeroImmediate)"
    by (auto simp: storeX_def split: prod.splits sum.splits)
  also have "\<dots> \<longleftrightarrow> (\<exists>v r'. n (internalReader x) = (Inr v, r') \<and> x' = x\<lparr>xpos := pos r'\<rparr> \<and> imm = f (Some v) zeroImmediate)"
    using assms unfolding same_reads_def by blast
  also have "\<dots> \<longleftrightarrow> (\<exists>k r'. asInstr (storeC f n) (internalReader x, zeroImmediate) = (Inr k, (r', imm)) \<and> x' = x\<lparr>xpos := pos r'\<rparr>)"
    by (auto simp: mapR_eq_Inr storeC_def split: prod.splits sum.splits)
  finally show ?thesis .
qed

lemma internal_branches:
  assumes "simpleOpcode op = InstrInvalid"
  shows "op = 0x05 \<Longrightarrow> classifyExprOpAfterOpcodeWithWidths op w mm = returnR directElse"
    "op = 0x0b \<Longrightarrow> classifyExprOpAfterOpcodeWithWidths op w mm = returnR directEnd"
    "op \<in> oneIndexOps \<Longrightarrow> classifyExprOpAfterOpcodeWithWidths op w mm =
       asInstr (storeC (\<lambda>x i. i\<lparr>imm_Kind := oneIndexImmediateKind op, imm_Index := orZero x\<rparr>) r_u32)"
    "op = 0x41 \<Longrightarrow> classifyExprOpAfterOpcodeWithWidths op w mm = asInstr (storeC (\<lambda>_. imm_Kind_update (\<lambda>_. InstrI32Const)) r_i32)"
    "op = 0x42 \<Longrightarrow> classifyExprOpAfterOpcodeWithWidths op w mm = asInstr (storeC (\<lambda>_. imm_Kind_update (\<lambda>_. InstrI64Const)) r_i64)"
    "op = 0x43 \<Longrightarrow> classifyExprOpAfterOpcodeWithWidths op w mm = asInstr (storeC (\<lambda>_. imm_Kind_update (\<lambda>_. InstrF32Const)) (r_bytes 4))"
    "op = 0x44 \<Longrightarrow> classifyExprOpAfterOpcodeWithWidths op w mm = asInstr (storeC (\<lambda>_. imm_Kind_update (\<lambda>_. InstrF64Const)) (r_bytes 8))"
  using assms by (auto simp: classifyExprOpAfterOpcodeWithWidths_def oneIndexOps_def Let_def)

lemma classify_agrees:
  "classifyInstructionImmediateIntoWithWidths op w mm (x, i) = (Inr (), (x', imm)) \<longleftrightarrow>
    (\<exists>k r'. classifyExprOpAfterOpcodeWithWidths op w mm (internalReader x, zeroImmediate) = (Inr k, (r', imm)) \<and> x' = x\<lparr>xpos := pos r'\<rparr>)"
    (is "?l = ?r")
proof -
  have p: "x\<lparr>xpos := pos (internalReader x)\<rparr> = x" by (simp add: internalReader_def)
  consider "simpleOpcode op \<noteq> InstrInvalid"
    | "simpleOpcode op = InstrInvalid" "op = 0x05 \<or> op = 0x0b"
    | "simpleOpcode op = InstrInvalid" "op \<noteq> 0x05" "op \<noteq> 0x0b" "op \<in> oneIndexOps \<or> op = 0x41 \<or> op = 0x42 \<or> op = 0x43 \<or> op = 0x44"
    | "simpleOpcode op = InstrInvalid" "op \<noteq> 0x05" "op \<noteq> 0x0b" "op \<notin> oneIndexOps" "op \<noteq> 0x41" "op \<noteq> 0x42" "op \<noteq> 0x43" "op \<noteq> 0x44"
    by blast
  then show ?thesis
  proof cases
    case 1
    then show ?thesis using p
      by (auto simp: classifyInstructionImmediateIntoWithWidths_def classifyExprOpAfterOpcodeWithWidths_def Let_def mapR_eq_Inr modC_def)
  next
    case 2
    then show ?thesis using p internal_branches(1,2) [OF 2(1)]
      by (auto simp: classifyInstructionImmediateIntoWithWidths_def Let_def)
  next
    case 3
    have l: "0x41 \<notin> oneIndexOps" "0x42 \<notin> oneIndexOps" "0x43 \<notin> oneIndexOps" "0x44 \<notin> oneIndexOps" by (simp_all add: oneIndexOps_def)
    from 3(4) show ?thesis
      using 3(1-3) l same_bytes [of 4] same_bytes [of 8] internal_branches(3-7) [OF 3(1), of w mm]
      by (elim disjE) (simp_all add: classifyInstructionImmediateIntoWithWidths_def Let_def same_store same_ints)
  next
    case 4
    then show ?thesis
      by (auto simp: classifyInstructionImmediateIntoWithWidths_def Let_def split: prod.splits sum.splits)
  qed
qed

section \<open>Two observations on the metadata\<close>

text \<open>
  A failed read still assigns the kind: on empty input \<open>call\<close> fails and leaves \<open>InstrCall\<close> in the
  record, which the comment on \<open>classifyExprOpAfterOpcode\<close> rules out.
\<close>

lemma failed_classification_assigns_kind:
  "classifyExprOpAfterOpcodeWithWidths 0x10 (fixedMemargWidths False) False (newReader [], zeroImmediate) =
     (Inl (DecodeError ErrIndexOutOfBounds 0), (newReader [], zeroImmediate\<lparr>imm_Kind := InstrCall\<rparr>))"
  by code_simp

text \<open>The memory immediate only fills in the alignment, index and offset of the record.\<close>

lemma memarg_keeps_kind:
  assumes "classifyMemArgBytes w (r, i) = (res, (r', i'))"
  shows "imm_Kind i' = imm_Kind i \<and> imm_TouchesMemory i' = imm_TouchesMemory i \<and> imm_Subopcode i' = imm_Subopcode i"
  using assms
  by (auto simp: classifyMemArgBytes_def bindR_def mapR_def storeC_def liftC_def modC_def failC_def returnR_def failR_def
        split: prod.splits sum.splits if_splits)

lemma lookupPrefixKind_valid:
  "lookupPrefixKind t sub = Some k \<Longrightarrow> k \<noteq> InstrInvalid"
  by (auto simp: lookupPrefixKind_def split: option.splits if_splits)

section \<open>Properties\<close>

text \<open>
  C15. Skipping an instruction's immediates does exactly what classifying them does: for every opcode
  byte, every input, every memory-width table and both memory grammars, \<open>SkipImmediate\<close> returns the
  same error or success as \<open>ClassifyInto\<close> and leaves the cursor at the same offset.
\<close>

theorem SkipImmediate_agrees_with_ClassifyInto:
  "SkipImmediate c op r = (case ClassifyInto c op (r, imm) of (res, (r', _)) \<Rightarrow> (res, r'))"
  unfolding SkipImmediate_def ClassifyInto_def by (rule skip_agrees)

text \<open>
  C16. The exported walker and the internal scanner agree on every instruction: \<open>ClassifyInto\<close>
  succeeds exactly when the internal classifier does on the same bytes, with the same metadata and
  the same end offset, although it reads common immediates through the other cursor.
\<close>

theorem ClassifyInto_agrees_with_scanner:
  "ClassifyInto c op (x, i) = (Inr (), (x', imm)) \<longleftrightarrow>
    (\<exists>k r'. classifyExprOpAfterOpcodeWithWidths op (mic_widths c) (mic_multiMemory c) (internalReader x, zeroImmediate) = (Inr k, (r', imm))
       \<and> x' = x\<lparr>xpos := pos r'\<rparr>)"
  unfolding ClassifyInto_def by (rule classify_agrees)

text \<open>
  C32. What the classifier reports for an accepted atomic instruction (prefix 0xfe): it is marked as
  touching memory exactly when it is neither the fence nor an atomic struct read, and it has a kind
  exactly when it is not an atomic struct read. The three struct reads (0x5c to 0x5e), to which the
  structured decoder gives kinds of their own, are accepted with the kind \<open>InstrInvalid\<close>.
\<close>

theorem atomic_classification_kinds:
  assumes "classifyFEBytes w (r, zeroImmediate) = (Inr (), (r', i))"
  shows "(imm_TouchesMemory i \<longleftrightarrow> imm_Subopcode i \<noteq> 3 \<and> \<not> (0x5c \<le> imm_Subopcode i \<and> imm_Subopcode i \<le> 0x5e)) \<and>
    (imm_Kind i = InstrInvalid \<longleftrightarrow> 0x5c \<le> imm_Subopcode i \<and> imm_Subopcode i \<le> 0x5e)"
  using assms
  by (auto simp: classifyFEBytes_def bindR_def mapR_def storeC_def liftC_def modC_def failC_def failBackC_def returnR_def failR_def zeroImmediate_def
        dest!: memarg_keeps_kind lookupPrefixKind_valid split: prod.splits sum.splits if_splits option.splits)

lemma atomic_classification_kinds_witness:
  "\<exists>r' i. classifyFEBytes (fixedMemargWidths False) (newReader [0x5c, 0, 7, 1], zeroImmediate) = (Inr (), (r', i)) \<and>
     imm_Kind i = InstrInvalid \<and> \<not> imm_TouchesMemory i"
proof -
  have run: "classifyFEBytes (fixedMemargWidths False) (newReader [0x5c, 0, 7, 1], zeroImmediate) =
     (Inr (), (\<lparr>data = [0x5c, 0, 7, 1], pos = 4, budget = None\<rparr>,
        zeroImmediate\<lparr>imm_Prefix := 0xfe, imm_Subopcode := 0x5c, imm_Index := 7, imm_Index2 := 1\<rparr>))" by code_simp
  show ?thesis using atomic_classification_kinds [OF run] run by simp
qed

end
