(* ===== verification/Modules.thy ===== *)
theory Modules
  imports Classify
begin

text \<open>
  The decoded module (\<^verbatim>\<open>Module\<close> of \<^verbatim>\<open>types.go\<close>) and the index functions of \<^verbatim>\<open>module_helpers.go\<close>:
  the five index spaces (imports first, then local definitions), the flattened type section, compact
  local declarations, resolution of recursive type indexes, signature identities, and the
  per-memory offset widths of \<^verbatim>\<open>instruction_decode.go\<close>. Each lookup has a scan for small modules and a
  directory for large ones; the lemmas show that both compute the same function of the module.
  The directories are caches keyed by the slices they index; the model recomputes them, which is
  what a cache hit returns while the module is not edited. Slice lengths stay below \<open>2^63\<close>.
\<close>

section \<open>The module\<close>

datatype ElemModeKind = ElemPassive | ElemActive | ElemDeclarative
datatype ElemKindKind = ElemFuncs | ElemFuncExprs | ElemTypedExprs
datatype DataModeKind = DataActive | DataPassive

text \<open>
  \<open>Expr\<close> keeps the expression bytes. The instruction list beside them in the source is filled only by
  programs that build modules by hand, never by the decoder.
\<close>

record Expr =
  ex_BodyBytes :: "byte list"

record ElemMode =
  em_Kind :: ElemModeKind
  em_Table :: u32
  em_Offset :: Expr

record ElemKind =
  ek_Kind :: ElemKindKind
  ek_Funcs :: "u32 list"
  ek_Ref :: RefType
  ek_Exprs :: "Expr list"

record Elem =
  el_Mode :: ElemMode
  el_Kind :: ElemKind

record Table =
  tb_Type :: TableType
  tb_Init :: "Expr option"

record Global =
  gl_Type :: GlobalType
  gl_Init :: Expr

record DataMode =
  dm_Kind :: DataModeKind
  dm_Mem :: u32
  dm_Offset :: Expr

record Data =
  da_Mode :: DataMode
  da_Init :: "byte list"

record Func =
  fn_Locals :: Locals
  fn_Body :: Expr
  fn_LocalDeclBytes :: u32
  fn_BodyBytes :: "byte list"

record CustomSec =
  cs_Name :: "byte list"
  cs_Data :: "byte list"

record NameAssoc =
  na_Index :: u32
  na_Name :: "byte list"

record IndirectNameAssoc =
  ia_Index :: u32
  ia_Names :: "NameAssoc list"

record NameSec =
  ns_ModuleName :: "byte list option"
  ns_FunctionNames :: "NameAssoc list"
  ns_LocalNames :: "IndirectNameAssoc list"
  ns_LabelNames :: "IndirectNameAssoc list"
  ns_TypeNames :: "NameAssoc list"
  ns_TableNames :: "NameAssoc list"
  ns_MemoryNames :: "NameAssoc list"
  ns_GlobalNames :: "NameAssoc list"
  ns_ElementNames :: "NameAssoc list"
  ns_DataNames :: "NameAssoc list"
  ns_FieldNames :: "IndirectNameAssoc list"
  ns_TagNames :: "NameAssoc list"

record Module =
  m_Customs :: "CustomSec list"
  m_NameSec :: "NameSec option"
  m_RawNameSecPayload :: "byte list option"
  m_Types :: "RecType list"
  m_Imports :: "Import list"
  m_FuncTypes :: "TypeIdx list"
  m_Tables :: "Table list"
  m_Memories :: "MemType list"
  m_Tags :: "TagType list"
  m_StringRefs :: "byte list list"
  m_Globals :: "Global list"
  m_Exports :: "Export list"
  m_Start :: "u32 option"
  m_Elements :: "Elem list"
  m_DataCount :: "u32 option"
  m_Code :: "Func list"
  m_Data :: "Data list"
  m_UsesCompactImports :: bool
  m_BranchHints :: "FuncBranchHints list option"

definition emptyModule :: Module where
  "emptyModule = \<lparr>m_Customs = [], m_NameSec = None, m_RawNameSecPayload = None, m_Types = [], m_Imports = [],
     m_FuncTypes = [], m_Tables = [], m_Memories = [], m_Tags = [], m_StringRefs = [], m_Globals = [],
     m_Exports = [], m_Start = None, m_Elements = [], m_DataCount = None, m_Code = [], m_Data = [],
     m_UsesCompactImports = False, m_BranchHints = None\<rparr>"

definition nth_opt :: "'a list \<Rightarrow> nat \<Rightarrow> 'a option" where
  "nth_opt xs i = (if i < length xs then Some (xs ! i) else None)"

section \<open>The type directory\<close>

record moduleTypeIndexDirectory =
  dir_bases :: "nat list"
  dir_flat :: "(SubType \<times> nat) list"

fun typeIndexFrom :: "nat \<Rightarrow> nat \<Rightarrow> RecType list \<Rightarrow> moduleTypeIndexDirectory" where
  "typeIndexFrom grp tot [] = \<lparr>dir_bases = [tot], dir_flat = []\<rparr>"
| "typeIndexFrom grp tot (g # gs) =
     (let d = typeIndexFrom (Suc grp) (tot + length (SubTypes g)) gs
      in \<lparr>dir_bases = tot # dir_bases d, dir_flat = map (\<lambda>st. (st, grp)) (SubTypes g) @ dir_flat d\<rparr>)"

definition typeIndex :: "Module \<Rightarrow> moduleTypeIndexDirectory" where
  "typeIndex m = typeIndexFrom 0 0 (m_Types m)"

fun scanTypeGroups :: "u64 \<Rightarrow> nat \<Rightarrow> RecType list \<Rightarrow> (SubType \<times> nat) option" where
  "scanTypeGroups remain grp [] = None"
| "scanTypeGroups remain grp (g # gs) =
     (if remain < of_nat (length (SubTypes g)) then Some (SubTypes g ! unat remain, grp)
      else scanTypeGroups (remain - of_nat (length (SubTypes g))) (Suc grp) gs)"

definition subtypeByTypeIdxWithRecGroup :: "Module \<Rightarrow> TypeIdx \<Rightarrow> (SubType \<times> nat) option" where
  "subtypeByTypeIdxWithRecGroup m idx =
     (if ti_Rec idx then None
      else if length (m_Types m) \<le> 8 then scanTypeGroups (ucast (ti_Index idx)) 0 (m_Types m)
      else (let directory = typeIndex m
            in if unat (ti_Index idx) \<ge> length (dir_flat directory) then None
               else Some (dir_flat directory ! unat (ti_Index idx))))"

definition subtypeByTypeIdx :: "Module \<Rightarrow> TypeIdx \<Rightarrow> SubType option" where
  "subtypeByTypeIdx m idx = map_option fst (subtypeByTypeIdxWithRecGroup m idx)"

definition TypeSubType :: "Module option \<Rightarrow> u32 \<Rightarrow> SubType option" where
  "TypeSubType om typeIdx =
     (case om of None \<Rightarrow> None | Some m \<Rightarrow> subtypeByTypeIdx m \<lparr>ti_Index = typeIdx, ti_Rec = False\<rparr>)"

definition flattenedTypeCount :: "Module \<Rightarrow> nat" where
  "flattenedTypeCount m = length (dir_flat (typeIndex m))"

definition typeFunc :: "Module \<Rightarrow> TypeIdx \<Rightarrow> CompType option" where
  "typeFunc m idx =
     (case subtypeByTypeIdx m idx of
        None \<Rightarrow> None
      | Some st \<Rightarrow> if ct_Kind (st_Comp st) \<noteq> CompFunc then None else Some (st_Comp st))"

definition TypeFunc :: "Module \<Rightarrow> u32 \<Rightarrow> CompType option" where
  "TypeFunc m typeIdx = typeFunc m \<lparr>ti_Index = typeIdx, ti_Rec = False\<rparr>"

definition typeInNonSingletonRecGroup :: "Module \<Rightarrow> u32 \<Rightarrow> bool" where
  "typeInNonSingletonRecGroup m typeIdx =
     (case subtypeByTypeIdxWithRecGroup m \<lparr>ti_Index = typeIdx, ti_Rec = False\<rparr> of
        None \<Rightarrow> False
      | Some (_, grp) \<Rightarrow> length (SubTypes (m_Types m ! grp)) > 1)"

section \<open>Resolving recursive indexes\<close>

definition flatTypeIdxInRecGroup :: "Module \<Rightarrow> TypeIdx \<Rightarrow> nat \<Rightarrow> nat option" where
  "flatTypeIdxInRecGroup m idx recGroup =
     (let directory = typeIndex m
      in if \<not> ti_Rec idx then
           (if unat (ti_Index idx) \<ge> length (dir_flat directory) then None else Some (unat (ti_Index idx)))
         else if recGroup \<ge> length (m_Types m) \<or> ti_Index idx \<ge> of_nat (length (SubTypes (m_Types m ! recGroup))) then None
         else Some (dir_bases directory ! recGroup + unat (ti_Index idx)))"

definition resolveTypeIdxRecIndex :: "Module \<Rightarrow> TypeIdx \<Rightarrow> nat \<Rightarrow> TypeIdx" where
  "resolveTypeIdxRecIndex m idx recGroup =
     (case flatTypeIdxInRecGroup m idx recGroup of
        None \<Rightarrow> idx
      | Some flat \<Rightarrow> \<lparr>ti_Index = of_nat flat, ti_Rec = False\<rparr>)"

definition resolveRefTypeRecIndexes :: "Module \<Rightarrow> RefType \<Rightarrow> nat \<Rightarrow> RefType" where
  "resolveRefTypeRecIndexes m rt recGroup =
     (let heap = RefType_Heap rt
      in if HeapType_Kind heap \<noteq> HeapTypeIndex then rt
         else WithHeap (IndexedHeap (resolveTypeIdxRecIndex m (HeapType_Type heap) recGroup)) rt)"

definition resolveValTypeRecIndexes :: "Module \<Rightarrow> ValType \<Rightarrow> nat \<Rightarrow> ValType" where
  "resolveValTypeRecIndexes m t recGroup =
     (if ValType_Kind t \<noteq> ValRef then t else RefVal (resolveRefTypeRecIndexes m (ValType_Ref t) recGroup))"

definition resolveFieldTypeRecIndexes :: "Module \<Rightarrow> FieldType \<Rightarrow> nat \<Rightarrow> FieldType" where
  "resolveFieldTypeRecIndexes m ft recGroup =
     (let storage = Field_Storage ft
      in if Storage_Packed storage then ft
         else NewFieldType (StorageVal (resolveValTypeRecIndexes m (Storage_Val storage) recGroup)) (Field_Mut ft))"

definition resolveCompTypeRecIndexes :: "Module \<Rightarrow> CompType \<Rightarrow> nat \<Rightarrow> CompType" where
  "resolveCompTypeRecIndexes m ct recGroup =
     (case ct_Kind ct of
        CompFunc \<Rightarrow> ct\<lparr>ct_Params := map (\<lambda>t. resolveValTypeRecIndexes m t recGroup) (ct_Params ct),
                      ct_Results := map (\<lambda>t. resolveValTypeRecIndexes m t recGroup) (ct_Results ct)\<rparr>
      | CompStruct \<Rightarrow> ct\<lparr>ct_Fields := map (\<lambda>f. resolveFieldTypeRecIndexes m f recGroup) (ct_Fields ct)\<rparr>
      | CompArray \<Rightarrow> ct\<lparr>ct_Array := resolveFieldTypeRecIndexes m (ct_Array ct) recGroup\<rparr>)"

definition isRecIndexed :: "ValType \<Rightarrow> bool" where
  "isRecIndexed t =
     (ValType_Kind t = ValRef \<and> HeapType_Kind (RefType_Heap (ValType_Ref t)) = HeapTypeIndex \<and>
      ti_Rec (HeapType_Type (RefType_Heap (ValType_Ref t))))"

definition funcTypeHasRecIndexes :: "CompType \<Rightarrow> bool" where
  "funcTypeHasRecIndexes ct = (list_ex isRecIndexed (ct_Params ct) \<or> list_ex isRecIndexed (ct_Results ct))"

definition resolveTypeFunc :: "Module \<Rightarrow> TypeIdx \<Rightarrow> bool \<Rightarrow> CompType option" where
  "resolveTypeFunc m idx aliasNonRecursive =
     (case subtypeByTypeIdxWithRecGroup m idx of
        None \<Rightarrow> None
      | Some (st, recGroup) \<Rightarrow>
          if ct_Kind (st_Comp st) \<noteq> CompFunc then None
          else if aliasNonRecursive \<and> \<not> funcTypeHasRecIndexes (st_Comp st) then Some (st_Comp st)
          else Some (resolveCompTypeRecIndexes m (st_Comp st) recGroup))"

definition ResolveTypeFunc :: "Module \<Rightarrow> u32 \<Rightarrow> CompType option" where
  "ResolveTypeFunc m typeIdx = resolveTypeFunc m \<lparr>ti_Index = typeIdx, ti_Rec = False\<rparr> True"

definition ResolvedTypeFunc :: "Module \<Rightarrow> u32 \<Rightarrow> CompType option" where
  "ResolvedTypeFunc m typeIdx = resolveTypeFunc m \<lparr>ti_Index = typeIdx, ti_Rec = False\<rparr> False"

definition ResolveLocalFuncType :: "Module \<Rightarrow> int \<Rightarrow> CompType option" where
  "ResolveLocalFuncType m localIdx =
     (if localIdx < 0 \<or> localIdx \<ge> int (length (m_FuncTypes m)) then None
      else case subtypeByTypeIdxWithRecGroup m (m_FuncTypes m ! nat localIdx) of
        None \<Rightarrow> None
      | Some (st, recGroup) \<Rightarrow>
          if ct_Kind (st_Comp st) \<noteq> CompFunc then None
          else if funcTypeHasRecIndexes (st_Comp st) then Some (resolveCompTypeRecIndexes m (st_Comp st) recGroup)
          else Some (st_Comp st))"

section \<open>Imports and the index spaces\<close>

record moduleImportIndexDirectory =
  imp_funcs :: "u32 list"
  imp_tables :: "u32 list"
  imp_memories :: "u32 list"
  imp_globals :: "u32 list"
  imp_tags :: nat

abbreviation importKind :: "Import \<Rightarrow> ExternKind" where
  "importKind im \<equiv> et_Kind (im_Type im)"

fun importIndexFrom :: "nat \<Rightarrow> Import list \<Rightarrow> moduleImportIndexDirectory \<Rightarrow> moduleImportIndexDirectory" where
  "importIndexFrom i [] d = d"
| "importIndexFrom i (im # ims) d =
     importIndexFrom (Suc i) ims
       (if importKind im = ExternFunc then d\<lparr>imp_funcs := imp_funcs d @ [of_nat i]\<rparr>
        else if importKind im = ExternTable then d\<lparr>imp_tables := imp_tables d @ [of_nat i]\<rparr>
        else if importKind im = ExternMem then d\<lparr>imp_memories := imp_memories d @ [of_nat i]\<rparr>
        else if importKind im = ExternGlobal then d\<lparr>imp_globals := imp_globals d @ [of_nat i]\<rparr>
        else if importKind im = ExternTag then d\<lparr>imp_tags := imp_tags d + 1\<rparr>
        else d)"

definition importIndex :: "Module \<Rightarrow> moduleImportIndexDirectory" where
  "importIndex m = importIndexFrom 0 (m_Imports m)
     \<lparr>imp_funcs = [], imp_tables = [], imp_memories = [], imp_globals = [], imp_tags = 0\<rparr>"

fun scanImports :: "ExternKind \<Rightarrow> u64 \<Rightarrow> nat \<Rightarrow> Import list \<Rightarrow> int \<times> u64" where
  "scanImports kind remain i [] = (-1, remain)"
| "scanImports kind remain i (im # ims) =
     (if importKind im = kind then
        (if remain = 0 then (int i, 0) else scanImports kind (remain - 1) (Suc i) ims)
      else scanImports kind remain (Suc i) ims)"

definition importEntry :: "Module \<Rightarrow> ExternKind \<Rightarrow> u32 \<Rightarrow> int \<times> u64" where
  "importEntry m kind idx =
     (if length (m_Imports m) \<le> 32 then scanImports kind (ucast idx) 0 (m_Imports m)
      else let directory = importIndex m;
               indexes = (if kind = ExternFunc then imp_funcs directory
                          else if kind = ExternTable then imp_tables directory
                          else if kind = ExternMem then imp_memories directory
                          else if kind = ExternGlobal then imp_globals directory else [])
           in if unat idx < length indexes then (int (unat (indexes ! unat idx)), 0)
              else (-1, ucast idx - of_nat (length indexes)))"

definition importCount :: "Module \<Rightarrow> ExternKind \<Rightarrow> nat" where
  "importCount m k =
     (if length (m_Imports m) \<le> 32 then length (filter (\<lambda>im. importKind im = k) (m_Imports m))
      else let imports = importIndex m
           in if k = ExternFunc then length (imp_funcs imports)
              else if k = ExternTable then length (imp_tables imports)
              else if k = ExternMem then length (imp_memories imports)
              else if k = ExternGlobal then length (imp_globals imports)
              else if k = ExternTag then imp_tags imports else 0)"

definition FuncCount :: "Module \<Rightarrow> nat" where "FuncCount m = importCount m ExternFunc + length (m_FuncTypes m)"
definition TableCount :: "Module \<Rightarrow> nat" where "TableCount m = importCount m ExternTable + length (m_Tables m)"
definition MemCount :: "Module \<Rightarrow> nat" where "MemCount m = importCount m ExternMem + length (m_Memories m)"
definition GlobalCount :: "Module \<Rightarrow> nat" where "GlobalCount m = importCount m ExternGlobal + length (m_Globals m)"
definition TagCount :: "Module \<Rightarrow> nat" where "TagCount m = importCount m ExternTag + length (m_Tags m)"

definition Module_TableType :: "Module option \<Rightarrow> u32 \<Rightarrow> TableType option" where
  "Module_TableType om idx =
     (case om of None \<Rightarrow> None | Some m \<Rightarrow>
        (case importEntry m ExternTable idx of (entry, local) \<Rightarrow>
           if entry \<ge> 0 then Some (ExternType_TableType (im_Type (m_Imports m ! nat entry)))
           else if local \<ge> of_nat (length (m_Tables m)) then None
           else Some (tb_Type (m_Tables m ! unat local))))"

definition MemoryType :: "Module option \<Rightarrow> u32 \<Rightarrow> MemType option" where
  "MemoryType om idx =
     (case om of None \<Rightarrow> None | Some m \<Rightarrow>
        (case importEntry m ExternMem idx of (entry, local) \<Rightarrow>
           if entry \<ge> 0 then Some (ExternType_MemType (im_Type (m_Imports m ! nat entry)))
           else if local \<ge> of_nat (length (m_Memories m)) then None
           else Some (m_Memories m ! unat local)))"

definition FuncTypeIndex :: "Module option \<Rightarrow> u32 \<Rightarrow> TypeIdx option" where
  "FuncTypeIndex om idx =
     (case om of None \<Rightarrow> None | Some m \<Rightarrow>
        (case importEntry m ExternFunc idx of (entry, local) \<Rightarrow>
           if entry \<ge> 0 then Some (ExternType_FuncType (im_Type (m_Imports m ! nat entry)))
           else if local \<ge> of_nat (length (m_FuncTypes m)) then None
           else Some (m_FuncTypes m ! unat local)))"

definition GlobalTypeByIndex :: "Module option \<Rightarrow> u32 \<Rightarrow> GlobalType option" where
  "GlobalTypeByIndex om idx =
     (case om of None \<Rightarrow> None | Some m \<Rightarrow>
        (case importEntry m ExternGlobal idx of (entry, local) \<Rightarrow>
           if entry \<ge> 0 then Some (ExternType_GlobalType (im_Type (m_Imports m ! nat entry)))
           else if local \<ge> of_nat (length (m_Globals m)) then None
           else Some (gl_Type (m_Globals m ! unat local))))"

definition FuncSignature :: "Module \<Rightarrow> u32 \<Rightarrow> CompType option" where
  "FuncSignature m idx = (case FuncTypeIndex (Some m) idx of None \<Rightarrow> None | Some typeIdx \<Rightarrow> typeFunc m typeIdx)"

definition ImportFuncType :: "Module \<Rightarrow> int \<Rightarrow> CompType option" where
  "ImportFuncType m importIdx =
     (if importIdx < 0 \<or> importIdx \<ge> int (length (m_Imports m)) \<or> importKind (m_Imports m ! nat importIdx) \<noteq> ExternFunc
      then None else typeFunc m (ExternType_FuncType (im_Type (m_Imports m ! nat importIdx))))"

definition LocalFuncType :: "Module \<Rightarrow> int \<Rightarrow> CompType option" where
  "LocalFuncType m localIdx =
     (if localIdx < 0 \<or> localIdx \<ge> int (length (m_FuncTypes m)) then None
      else typeFunc m (m_FuncTypes m ! nat localIdx))"

definition TableAddrType :: "TableType \<Rightarrow> ValType" where
  "TableAddrType tt = (if lim_Addr64 (tt_Limits tt) then I64 else I32)"

definition MemoryAddrType :: "MemType \<Rightarrow> ValType" where
  "MemoryAddrType mt = (if lim_Addr64 (mt_Limits mt) then I64 else I32)"

definition IsNumericGlobalType :: "ValType \<Rightarrow> bool" where
  "IsNumericGlobalType t = (equalValType t I32 \<or> equalValType t I64 \<or> equalValType t F32 \<or> equalValType t F64)"

section \<open>Offset widths of the module's memories\<close>

record memoryScan =
  scan_seen :: bool
  scan_mixed :: bool
  scan_addr64 :: bool
  scan_count :: nat

definition noteMemory :: "bool \<Rightarrow> memoryScan \<Rightarrow> memoryScan" where
  "noteMemory got s =
     \<lparr>scan_seen = True, scan_mixed = (scan_mixed s \<or> scan_seen s \<and> got \<noteq> scan_addr64 s),
      scan_addr64 = got, scan_count = scan_count s + 1\<rparr>"

definition setMemoryWidth :: "bool \<Rightarrow> u64 list \<times> nat \<Rightarrow> u64 list \<times> nat" where
  "setMemoryWidth got = (\<lambda>(indexed64, index).
     (if got then indexed64[index div 64 := (indexed64 ! (index div 64)) OR push_bit (index mod 64) 1] else indexed64,
      index + 1))"

abbreviation importAddr64 :: "Import \<Rightarrow> bool" where
  "importAddr64 im \<equiv> lim_Addr64 (mt_Limits (ExternType_MemType (im_Type im)))"

definition moduleMemargWidths :: "Module option \<Rightarrow> memargWidths" where
  "moduleMemargWidths om =
     (case om of
        None \<Rightarrow> \<lparr>w_multiMemory = True, w_indexed64 = [], w_fixed64 = False\<rparr>
      | Some m \<Rightarrow>
          let s0 = fold (\<lambda>im s. if importKind im \<noteq> ExternMem then s else noteMemory (importAddr64 im) s) (m_Imports m)
                     \<lparr>scan_seen = False, scan_mixed = False, scan_addr64 = False, scan_count = 0\<rparr>;
              s = fold (\<lambda>mt. noteMemory (lim_Addr64 (mt_Limits mt))) (m_Memories m) s0
          in if \<not> scan_seen s then \<lparr>w_multiMemory = True, w_indexed64 = [], w_fixed64 = False\<rparr>
             else if \<not> scan_mixed s then \<lparr>w_multiMemory = True, w_indexed64 = [], w_fixed64 = scan_addr64 s\<rparr>
             else let w0 = fold (\<lambda>im w. if importKind im \<noteq> ExternMem then w else setMemoryWidth (importAddr64 im) w)
                             (m_Imports m) (replicate ((scan_count s + 63) div 64) 0, 0);
                      w = fold (\<lambda>mt. setMemoryWidth (lim_Addr64 (mt_Limits mt))) (m_Memories m) w0
                  in \<lparr>w_multiMemory = True, w_indexed64 = fst w, w_fixed64 = False\<rparr>)"

definition NewModuleInstructionClassifier :: "Module option \<Rightarrow> bool \<Rightarrow> ModuleInstructionClassifier" where
  "NewModuleInstructionClassifier om multiMemory =
     \<lparr>mic_widths = moduleMemargWidths om, mic_multiMemory = multiMemory\<rparr>"

section \<open>The flattened type section\<close>

lemma nth_opt_map: "map_option f (nth_opt xs i) = nth_opt (map f xs) i"
  by (simp add: nth_opt_def)

lemma unat_of_nat_small: "n < 2 ^ LENGTH('a) \<Longrightarrow> unat (of_nat n :: 'a::len word) = n"
  by (simp add: unat_of_nat)

lemma uint_of_nat_small: "n < 2 ^ LENGTH('a) \<Longrightarrow> uint (of_nat n :: 'a::len word) = int n"
  by (simp add: uint_nat unat_of_nat)


lemma flat_length: "length (dir_flat (typeIndexFrom k t gs)) = group_base gs (length gs)"
  by (induction gs arbitrary: k t) (auto simp: Let_def group_base_def)

lemma bases_nth: "k \<le> length gs \<Longrightarrow> dir_bases (typeIndexFrom g t gs) ! k = t + group_base gs k"
proof (induction gs arbitrary: g t k)
  case (Cons x gs)
  then show ?case by (cases k) (auto simp: Let_def group_base_def)
qed (simp add: group_base_def)

lemma flat_nth:
  "k < length gs \<Longrightarrow> j < length (SubTypes (gs ! k)) \<Longrightarrow>
     dir_flat (typeIndexFrom g t gs) ! (group_base gs k + j) = (SubTypes (gs ! k) ! j, g + k)"
proof (induction gs arbitrary: g t k)
  case (Cons x gs)
  show ?case
  proof (cases k)
    case 0
    then show ?thesis using Cons.prems by (simp add: Let_def group_base_def nth_append)
  next
    case (Suc i)
    then have "group_base (x # gs) k + j = length (SubTypes x) + (group_base gs i + j)" by (simp add: group_base_def)
    then show ?thesis using Cons Suc by (simp add: Let_def nth_append)
  qed
qed simp

lemma scanTypeGroups_flat:
  "list_all (\<lambda>g. length (SubTypes g) < 2 ^ 63) gs \<Longrightarrow>
     scanTypeGroups remain k gs = nth_opt (dir_flat (typeIndexFrom k t gs)) (unat remain)"
proof (induction gs arbitrary: remain k t)
  case (Cons g gs)
  let ?n = "length (SubTypes g)"
  have n: "unat (of_nat ?n :: u64) = ?n" using Cons.prems by (simp add: unat_of_nat_small)
  have lt: "remain < of_nat ?n \<longleftrightarrow> unat remain < ?n" using n by (simp add: word_less_nat_alt)
  have "unat (remain - of_nat ?n) = unat remain - ?n" if "\<not> unat remain < ?n"
    using that n by (simp add: unat_sub word_le_nat_alt)
  moreover have "scanTypeGroups (remain - of_nat ?n) (Suc k) gs =
      nth_opt (dir_flat (typeIndexFrom (Suc k) (t + ?n) gs)) (unat (remain - of_nat ?n))"
    using Cons by simp
  ultimately show ?case using lt by (auto simp: Let_def nth_opt_def nth_append)
qed (simp add: nth_opt_def)

text \<open>Both paths of the lookup return the entry of the flattened section.\<close>

lemma subtype_lookup:
  assumes "list_all (\<lambda>g. length (SubTypes g) < 2 ^ 63) (m_Types m)"
  shows "subtypeByTypeIdxWithRecGroup m idx =
    (if ti_Rec idx then None else nth_opt (dir_flat (typeIndex m)) (unat (ti_Index idx)))"
  using scanTypeGroups_flat [OF assms, of "ucast (ti_Index idx)" 0 0]
  by (simp add: subtypeByTypeIdxWithRecGroup_def typeIndex_def nth_opt_def unat_u32_u64 Let_def)

lemma group_sizes_bounded:
  assumes "group_base gs (length gs) < 2 ^ n"
  shows "list_all (\<lambda>g. length (SubTypes g) < 2 ^ n) gs"
  unfolding list_all_length using assms group_base_le [of _ gs] by (meson add_lessD1 le_less_trans add.commute le_add2)

section \<open>Import positions\<close>

text \<open>The positions of the imports of one kind, the reference both import paths compute.\<close>

fun positions :: "ExternKind \<Rightarrow> nat \<Rightarrow> Import list \<Rightarrow> nat list" where
  "positions kind i [] = []"
| "positions kind i (im # ims) = (if importKind im = kind then [i] else []) @ positions kind (Suc i) ims"

lemma positions_bound: "p \<in> set (positions kind i ims) \<Longrightarrow> p < i + length ims"
proof (induction ims arbitrary: i)
  case (Cons im ims)
  then show ?case using Cons.IH [of "Suc i"] by (auto split: if_splits)
qed simp

lemma positions_filter: "map (\<lambda>p. ims ! (p - i)) (positions kind i ims) = filter (\<lambda>im. importKind im = kind) ims \<and>
    list_all (\<lambda>p. i \<le> p) (positions kind i ims)"
proof (induction ims arbitrary: i)
  case (Cons im ims)
  have "map (\<lambda>p. (im # ims) ! (p - i)) (positions kind (Suc i) ims) = map (\<lambda>p. ims ! (p - Suc i)) (positions kind (Suc i) ims)"
    by (rule map_cong [OF refl]) (use Cons.IH [of "Suc i"] in \<open>auto simp: list_all_iff nth_Cons'\<close>)
  moreover have "list_all ((\<le>) i) (positions kind (Suc i) ims)"
    using Cons.IH [of "Suc i"] by (auto simp: list_all_iff)
  ultimately show ?case using Cons.IH [of "Suc i"] by simp
qed simp

lemma importIndexFrom_positions:
  "imp_funcs (importIndexFrom i ims d) = imp_funcs d @ map of_nat (positions ExternFunc i ims) \<and>
   imp_tables (importIndexFrom i ims d) = imp_tables d @ map of_nat (positions ExternTable i ims) \<and>
   imp_memories (importIndexFrom i ims d) = imp_memories d @ map of_nat (positions ExternMem i ims) \<and>
   imp_globals (importIndexFrom i ims d) = imp_globals d @ map of_nat (positions ExternGlobal i ims) \<and>
   imp_tags (importIndexFrom i ims d) = imp_tags d + length (positions ExternTag i ims)"
  by (induction ims arbitrary: i d) auto

lemma scanImports_positions:
  "unat remain < 2 ^ 32 \<Longrightarrow> scanImports kind remain i ims =
     (if unat remain < length (positions kind i ims) then (int (positions kind i ims ! unat remain), 0)
      else (-1, remain - of_nat (length (positions kind i ims))))"
proof (induction ims arbitrary: remain i)
  case (Cons im ims)
  have "unat (remain - 1) = unat remain - 1" if "remain \<noteq> 0"
    using that by (simp add: unat_minus_one)
  moreover have "unat remain \<noteq> 0" if "remain \<noteq> 0" using that by (simp add: unat_eq_0)
  ultimately show ?case using Cons by (auto simp: nth_Cons' unat_eq_0 algebra_simps)
qed simp

text \<open>The kinds that have a directory; the index of a tag is never looked up this way.\<close>

lemma importEntry_positions:
  assumes "length (m_Imports m) < 2 ^ 32" "kind \<in> {ExternFunc, ExternTable, ExternMem, ExternGlobal}"
  shows "importEntry m kind idx =
    (let ps = positions kind 0 (m_Imports m)
     in if unat idx < length ps then (int (ps ! unat idx), 0) else (-1, ucast idx - of_nat (length ps)))"
proof -
  let ?ps = "positions kind 0 (m_Imports m)"
  have "unat (ucast idx :: u64) < 2 ^ 32"
    using unsigned_less [of idx, where 'a = nat] by (simp add: unat_u32_u64)
  then have scan: "scanImports kind (ucast idx) 0 (m_Imports m) =
      (if unat idx < length ?ps then (int (?ps ! unat idx), 0) else (-1, ucast idx - of_nat (length ?ps)))"
    using scanImports_positions [of "ucast idx" kind 0 "m_Imports m"] by (simp add: unat_u32_u64)
  have "uint (of_nat (?ps ! i) :: u32) = int (?ps ! i)" if "i < length ?ps" for i
    using positions_bound [of "?ps ! i" kind 0 "m_Imports m"] that assms(1) by (simp add: uint_of_nat_small)
  then show ?thesis using scan assms(2) importIndexFrom_positions [of 0 "m_Imports m"]
    by (auto simp: importEntry_def importIndex_def Let_def)
qed

section \<open>The index spaces\<close>

text \<open>
  An index space lists the imports of its kind and then the local definitions. The four lookups of
  the code share one contract.
\<close>

definition index_space :: "ExternKind \<Rightarrow> (ExternType \<Rightarrow> 'a) \<Rightarrow> Module \<Rightarrow> 'a list \<Rightarrow> 'a list" where
  "index_space kind proj m locals =
     map (\<lambda>im. proj (im_Type im)) (filter (\<lambda>im. importKind im = kind) (m_Imports m)) @ locals"

lemma imported_nth:
  assumes "i < length (positions kind 0 ims)"
  shows "ims ! (positions kind 0 ims ! i) = filter (\<lambda>im. importKind im = kind) ims ! i"
    "positions kind 0 ims ! i < length ims"
proof -
  have "map (\<lambda>p. ims ! p) (positions kind 0 ims) = filter (\<lambda>im. importKind im = kind) ims"
    using positions_filter [of ims 0 kind] by simp
  then show "ims ! (positions kind 0 ims ! i) = filter (\<lambda>im. importKind im = kind) ims ! i"
    using assms by (metis nth_map)
  show "positions kind 0 ims ! i < length ims"
    using positions_bound [of "positions kind 0 ims ! i" kind 0 ims] assms by simp
qed

lemma positions_length: "length (positions kind i ims) = length (filter (\<lambda>im. importKind im = kind) ims)"
  using positions_filter [of ims i kind] by (metis length_map)

locale import_space =
  fixes kind :: ExternKind
    and proj :: "ExternType \<Rightarrow> 'a"
    and locals :: "Module \<Rightarrow> 'a list"
    and lookup :: "Module option \<Rightarrow> u32 \<Rightarrow> 'a option"
  assumes kind: "kind \<in> {ExternFunc, ExternTable, ExternMem, ExternGlobal}"
    and lookup_Some: "lookup (Some m) idx = (case importEntry m kind idx of (entry, local) \<Rightarrow>
        if entry \<ge> 0 then Some (proj (im_Type (m_Imports m ! nat entry)))
        else if local \<ge> of_nat (length (locals m)) then None else Some (locals m ! unat local))"
    and lookup_None: "lookup None idx = None"
begin

lemma lookup_space:
  assumes "length (m_Imports m) < 2 ^ 32" "length (locals m) < 2 ^ 63"
  shows "lookup (Some m) idx = nth_opt (index_space kind proj m (locals m)) (unat idx)"
proof -
  let ?ps = "positions kind 0 (m_Imports m)"
  note entry = importEntry_positions [OF assms(1) kind, of idx]
  show ?thesis
  proof (cases "unat idx < length ?ps")
    case True
    then show ?thesis using entry imported_nth [OF True]
      by (simp add: lookup_Some Let_def index_space_def nth_opt_def nth_append positions_length)
  next
    case False
    have "length ?ps \<le> length (m_Imports m)" by (simp add: positions_length)
    then have len: "unat (of_nat (length ?ps) :: u64) = length ?ps" using assms(1) by (simp add: unat_of_nat_small)
    have loc: "unat (of_nat (length (locals m)) :: u64) = length (locals m)" using assms(2) by (simp add: unat_of_nat_small)
    have "unat (ucast idx - of_nat (length ?ps) :: u64) = unat idx - length ?ps"
      using False len by (simp add: unat_sub word_le_nat_alt unat_u32_u64)
    then show ?thesis using entry False loc
      by (auto simp: lookup_Some Let_def index_space_def nth_opt_def nth_append positions_length word_le_nat_alt)
  qed
qed

end

lemma below_length: "\<not> of_nat n \<le> x \<Longrightarrow> unat x < n" for x :: u64
  by (metis linorder_not_le word_less_nat_alt unat_of_nat mod_less_eq_dividend order_less_le_trans)

interpretation tables: import_space ExternTable ExternType_TableType "\<lambda>m. map tb_Type (m_Tables m)" Module_TableType
  by unfold_locales (auto simp: Module_TableType_def dest: below_length split: prod.splits)

interpretation memories: import_space ExternMem ExternType_MemType m_Memories MemoryType
  by unfold_locales (auto simp: MemoryType_def)

interpretation funcs: import_space ExternFunc ExternType_FuncType m_FuncTypes FuncTypeIndex
  by unfold_locales (auto simp: FuncTypeIndex_def)

interpretation globals: import_space ExternGlobal ExternType_GlobalType "\<lambda>m. map gl_Type (m_Globals m)" GlobalTypeByIndex
  by unfold_locales (auto simp: GlobalTypeByIndex_def dest: below_length split: prod.splits)

lemma importCount_filter:
  assumes "k \<in> {ExternFunc, ExternTable, ExternMem, ExternGlobal, ExternTag}"
  shows "importCount m k = length (filter (\<lambda>im. importKind im = k) (m_Imports m))"
  using assms importIndexFrom_positions [of 0 "m_Imports m"]
  by (auto simp: importCount_def importIndex_def positions_length Let_def)

section \<open>Memory widths\<close>

lemma fold_filter_map: "fold (\<lambda>x s. if \<not> P x then s else f (g x) s) xs s = fold f (map g (filter P xs)) s"
  by (induction xs arbitrary: s) auto

lemma noteMemory_fold:
  "scan_count (fold noteMemory bs s) = scan_count s + length bs \<and> scan_seen (fold noteMemory bs s) = (scan_seen s \<or> bs \<noteq> []) \<and>
   (\<not> scan_mixed (fold noteMemory bs s) \<longrightarrow>
      list_all (\<lambda>b. b = scan_addr64 (fold noteMemory bs s)) bs \<and> \<not> scan_mixed s \<and>
      (scan_seen s \<longrightarrow> scan_addr64 s = scan_addr64 (fold noteMemory bs s)))"
proof (induction bs arbitrary: s)
  case (Cons b bs)
  have "scan_seen (noteMemory b s)" "scan_count (noteMemory b s) = Suc (scan_count s)" "scan_addr64 (noteMemory b s) = b"
    "scan_mixed (noteMemory b s) = (scan_mixed s \<or> scan_seen s \<and> b \<noteq> scan_addr64 s)"
    by (simp_all add: noteMemory_def)
  then show ?case using Cons.IH [of "noteMemory b s"] by (auto simp: list_all_iff)
qed simp

lemma setMemoryWidth_fold:
  assumes "i + length bs \<le> 64 * length ws" "k < 64 * length ws"
  shows "length (fst (fold setMemoryWidth bs (ws, i))) = length ws \<and>
    bit (fst (fold setMemoryWidth bs (ws, i)) ! (k div 64)) (k mod 64) =
      (bit (ws ! (k div 64)) (k mod 64) \<or> i \<le> k \<and> k < i + length bs \<and> bs ! (k - i))"
  using assms
proof (induction bs arbitrary: ws i)
  case (Cons b bs)
  let ?ws = "if b then ws[i div 64 := (ws ! (i div 64)) OR push_bit (i mod 64) 1] else ws"
  have i: "i div 64 < length ws" using Cons.prems by simp
  have k: "k = i" if "k div 64 = i div 64" "k mod 64 = i mod 64" using that by (metis div_mult_mod_eq)
  have "bit (?ws ! (k div 64)) (k mod 64) = (bit (ws ! (k div 64)) (k mod 64) \<or> b \<and> k = i)"
    using i k by (cases "k div 64 = i div 64") (auto simp: bit_simps nth_list_update)
  moreover have "fold setMemoryWidth (b # bs) (ws, i) = fold setMemoryWidth bs (?ws, i + 1)"
    by (simp add: setMemoryWidth_def)
  moreover have "length ?ws = length ws" by simp
  ultimately show ?case using Cons.IH [of "i + 1" ?ws] Cons.prems
    by (auto simp: nth_Cons' Suc_le_eq dest: le_neq_implies_less)
qed auto

lemma offset64_index:
  "offset64 w idx = (if unat idx div 64 < length (w_indexed64 w) then bit (w_indexed64 w ! (unat idx div 64)) (unat idx mod 64)
     else w_fixed64 w)"
proof -
  have "unat (drop_bit 6 idx) = unat idx div 64" by (simp add: drop_bit_eq_div unat_div)
  moreover have "idx AND 63 = idx mod 64" using take_bit_eq_mask [of 6 idx] by (simp add: take_bit_eq_mod mask_eq_exp_minus_1)
  then have "unat (idx AND 63) = unat idx mod 64" by (simp add: unat_mod)
  ultimately show ?thesis by (simp add: offset64_def Let_def push_bit_of_1 and_exp_neq_0)
qed

abbreviation memory_widths :: "Module \<Rightarrow> bool list" where
  "memory_widths m \<equiv> map (\<lambda>mt. lim_Addr64 (mt_Limits mt)) (index_space ExternMem ExternType_MemType m (m_Memories m))"

lemma moduleMemargWidths_bits:
  assumes "unat idx < length (memory_widths m)"
  shows "offset64 (moduleMemargWidths (Some m)) idx = memory_widths m ! unat idx"
proof -
  let ?bs = "memory_widths m"
  let ?s = "fold noteMemory ?bs \<lparr>scan_seen = False, scan_mixed = False, scan_addr64 = False, scan_count = 0\<rparr>"
  let ?ws = "replicate ((length ?bs + 63) div 64) (0 :: u64)"
  have bs: "?bs = map importAddr64 (filter (\<lambda>im. importKind im = ExternMem) (m_Imports m)) @
      map (\<lambda>mt. lim_Addr64 (mt_Limits mt)) (m_Memories m)" by (simp add: index_space_def comp_def)
  have widths: "moduleMemargWidths (Some m) =
     (if \<not> scan_seen ?s then \<lparr>w_multiMemory = True, w_indexed64 = [], w_fixed64 = False\<rparr>
      else if \<not> scan_mixed ?s then \<lparr>w_multiMemory = True, w_indexed64 = [], w_fixed64 = scan_addr64 ?s\<rparr>
      else \<lparr>w_multiMemory = True, w_indexed64 = fst (fold setMemoryWidth ?bs (replicate ((scan_count ?s + 63) div 64) 0, 0)), w_fixed64 = False\<rparr>)"
    unfolding bs fold_append comp_def moduleMemargWidths_def option.case Let_def
    by (simp only: fold_filter_map [where P = "\<lambda>im. importKind im = ExternMem" and g = importAddr64 and f = noteMemory]
        fold_filter_map [where P = "\<lambda>im. importKind im = ExternMem" and g = importAddr64 and f = setMemoryWidth] fold_map comp_def)
  note scan = noteMemory_fold [of ?bs "\<lparr>scan_seen = False, scan_mixed = False, scan_addr64 = False, scan_count = 0\<rparr>"]
  show ?thesis
  proof (cases "scan_mixed ?s")
    case True
    have "length ?bs \<le> 64 * length ?ws" by simp
    then show ?thesis using True scan widths assms setMemoryWidth_fold [of 0 ?bs ?ws "unat idx"]
      by (auto simp: offset64_index)
  next
    case False
    then show ?thesis using scan widths assms by (auto simp: offset64_index list_all_length)
  qed
qed

section \<open>Resolution undoes marking\<close>

interpretation resolving: index_rewriting "\<lambda>i. resolveTypeIdxRecIndex m i k" "\<lambda>rt. resolveRefTypeRecIndexes m rt k"
  "\<lambda>v. resolveValTypeRecIndexes m v k" "\<lambda>f. resolveFieldTypeRecIndexes m f k" for m k
  by unfold_locales
    (simp_all add: resolveRefTypeRecIndexes_def resolveValTypeRecIndexes_def resolveFieldTypeRecIndexes_def Let_def)

lemma marked_group:
  assumes "k < length gs"
  shows "markRecursiveTypeIndexes gs ! k =
    (gs ! k)\<lparr>SubTypes := map (\<lambda>st. markRecursiveSubTypeIndexes st (of_nat (group_base gs k))
       (of_nat (group_base gs k) + of_nat (length (SubTypes (gs ! k))))) (SubTypes (gs ! k))\<rparr>"
  using markGroups_nth [OF assms, of 0] by (simp add: markRecursiveTypeIndexes_def Let_def)

lemma marked_lengths:
  "length (markRecursiveTypeIndexes gs) = length gs"
  "group_base (markRecursiveTypeIndexes gs) k = group_base gs k"
proof -
  show len: "length (markRecursiveTypeIndexes gs) = length gs" by (simp add: markRecursiveTypeIndexes_def markGroups_length)
  have "map (\<lambda>g. length (SubTypes g)) (markRecursiveTypeIndexes gs) = map (\<lambda>g. length (SubTypes g)) gs"
    by (rule nth_equalityI) (auto simp: len marked_group)
  then show "group_base (markRecursiveTypeIndexes gs) k = group_base gs k"
    unfolding group_base_def by (metis take_map)
qed

lemma resolve_marked_idx:
  assumes "m_Types m = markRecursiveTypeIndexes gs" "k < length gs" "group_base gs (length gs) < 2 ^ 32" "\<not> ti_Rec i"
  shows "resolveTypeIdxRecIndex m
    (markRecursiveTypeIdx i (of_nat (group_base gs k)) (of_nat (group_base gs k) + of_nat (length (SubTypes (gs ! k))))) k = i"
proof -
  let ?b = "group_base gs k" and ?n = "length (SubTypes (gs ! k))"
  have le: "?b + ?n < 2 ^ 32" using group_base_le [OF assms(2)] assms(3) by simp
  then have w: "unat (of_nat ?b :: u32) = ?b" "unat (of_nat ?n :: u32) = ?n" "unat (of_nat ?b + of_nat ?n :: u32) = ?b + ?n"
    by (simp_all add: unat_of_nat_small flip: of_nat_add)
  have flat: "length (dir_flat (typeIndex m)) = group_base gs (length gs)"
    using assms(1) flat_length [of 0 0 "m_Types m"] by (simp add: typeIndex_def marked_lengths)
  have base: "dir_bases (typeIndex m) ! k = ?b"
    using bases_nth [of k "m_Types m" 0 0] assms(1,2) by (simp add: typeIndex_def marked_lengths)
  have size_k: "length (SubTypes (m_Types m ! k)) = ?n" using assms(1,2) by (simp add: marked_group)
  obtain ix where i: "i = \<lparr>ti_Index = ix, ti_Rec = False\<rparr>" using assms(4) by (cases i) auto
  show ?thesis
  proof (cases "of_nat ?b \<le> ix \<and> ix < of_nat ?b + of_nat ?n")
    case True
    then have "unat (ix - of_nat ?b) = unat ix - ?b" "?b \<le> unat ix" "unat ix < ?b + ?n"
      using w by (simp_all add: unat_sub word_le_nat_alt word_less_nat_alt)
    moreover have "markRecursiveTypeIdx i (of_nat ?b) (of_nat ?b + of_nat ?n) = \<lparr>ti_Index = ix - of_nat ?b, ti_Rec = True\<rparr>"
      using True i by (auto simp: markRecursiveTypeIdx_def)
    ultimately show ?thesis using assms(1,2) base size_k w i
      by (simp add: resolveTypeIdxRecIndex_def flatTypeIdxInRecGroup_def Let_def word_le_nat_alt marked_lengths)
  next
    case False
    then have "markRecursiveTypeIdx i (of_nat ?b) (of_nat ?b + of_nat ?n) = i"
      using i by (auto simp: markRecursiveTypeIdx_def not_le)
    then show ?thesis using i by (simp add: resolveTypeIdxRecIndex_def flatTypeIdxInRecGroup_def Let_def)
  qed
qed

lemma val_view_rec: "isRecIndexed v \<longleftrightarrow> (\<exists>n e i. val_view v = RefV n e (IndexV i) \<and> ti_Rec i)"
  by (cases "ValType_Kind v"; cases "HeapType_Kind (RefType_Heap (ValType_Ref v))")
    (auto simp: isRecIndexed_def val_view_def heap_view_def Let_def split: prod.splits)

lemma resolve_marked_view:
  assumes "m_Types m = markRecursiveTypeIndexes gs" "k < length gs" "group_base gs (length gs) < 2 ^ 32"
    and "val_canon v" "\<not> isRecIndexed v"
  shows "val_view (resolveValTypeRecIndexes m (markRecursiveValTypeIndexes v (of_nat (group_base gs k))
     (of_nat (group_base gs k) + of_nat (length (SubTypes (gs ! k))))) k) = val_view v"
proof -
  let ?mark = "\<lambda>i. markRecursiveTypeIdx i (of_nat (group_base gs k)) (of_nat (group_base gs k) + of_nat (length (SubTypes (gs ! k))))"
  have "map_val_view (\<lambda>i. resolveTypeIdxRecIndex m i k) (map_val_view ?mark (val_view v)) = val_view v"
  proof (cases "val_view v")
    case (RefV n e h)
    then show ?thesis using assms(5) resolve_marked_idx [OF assms(1-3)] by (cases h) (auto simp: val_view_rec)
  qed auto
  then show ?thesis by (simp add: resolving.val_view_rewritten mark_val assms(4))
qed

section \<open>The decoder writes absolute indexes\<close>

lemma gives_s33_absolute: "gives decodeS33TypeIdx (\<lambda>i. \<not> ti_Rec i)"
  unfolding decodeS33TypeIdx_def by (intro result_rules) simp_all

abbreviation heap_absolute :: "HeapType \<Rightarrow> bool" where
  "heap_absolute h \<equiv> heap_canon h \<and> \<not> ti_Rec (HeapType_Type h)"

lemma gives_heap_absolute: "gives decodeHeapType heap_absolute"
  unfolding decodeHeapType_def
  by (intro result_rules gives_map_any gives_map [OF gives_s33_absolute]) (simp_all add: pack_simps)

lemma gives_ref_heap_absolute: "gives decodeRefHeapType (\<lambda>(_, h). heap_absolute h)"
  unfolding decodeRefHeapType_def
  by (intro result_rules gives_map [OF gives_s33_absolute] gives_map [OF gives_heap_absolute]) (simp_all add: pack_simps)

lemma gives_ref_absolute: "gives decodeRefType (\<lambda>rt. ref_wf rt \<and> heap_absolute (RefType_Heap rt))"
  unfolding decodeRefType_def
  by (intro result_rules gives_map [OF gives_ref_heap_absolute]) (auto simp: pack_simps heap_canon_wf split: prod.splits)

definition val_absolute :: "ValType \<Rightarrow> bool" where
  "val_absolute v = (val_canon v \<and> \<not> isRecIndexed v)"

lemma V128_absolute: "\<not> isRecIndexed V128"
  by (simp add: isRecIndexed_def V128_def pack_simps)

lemma gives_val_absolute: "gives decodeValType val_absolute"
  unfolding decodeValType_def
  by (intro result_rules gives_map [OF gives_ref_absolute] gives_map_any)
    (auto simp: pack_simps val_absolute_def V128_absolute, simp_all add: isRecIndexed_def pack_simps)

text \<open>The signatures of a freshly decoded type section carry absolute indexes only.\<close>

definition sig_absolute :: "SubType \<Rightarrow> bool" where
  "sig_absolute st = (list_all val_absolute (ct_Params (st_Comp st)) \<and> list_all val_absolute (ct_Results (st_Comp st)))"

lemma gives_comp_absolute:
  "gives decodeCompType (\<lambda>ct. list_all val_absolute (ct_Params ct) \<and> list_all val_absolute (ct_Results ct))"
  unfolding decodeCompType_def decodeResultType_def
  by (intro result_rules gives_map_any gives_bind [OF gives_vec [OF gives_val_absolute]] gives_map [OF gives_vec [OF gives_val_absolute]])
    (simp_all add: zeroCompType_def)

lemma gives_subtype_absolute: "gives decodeSubType sig_absolute"
  unfolding decodeSubType_def split_beta
  by (intro result_rules gives_bind [OF gives_comp_absolute]) (simp_all add: sig_absolute_def)

lemma gives_rectype_absolute: "gives decodeRecType (\<lambda>g. list_all sig_absolute (SubTypes g))"
  unfolding decodeRecType_def readMetadataVec_def
  by (intro result_rules gives_map [OF gives_subtype_absolute] gives_map [where Q = "list_all sig_absolute"]
      gives_repeat gives_subtype_absolute) simp_all

lemma gives_groups_absolute: "gives (typeGroups n slab nextSlab) (list_all (\<lambda>g. list_all sig_absolute (SubTypes g)))"
proof (induction n slab nextSlab rule: typeGroups.induct)
  case (2 n slab nextSlab)
  show ?case
    unfolding typeGroups.simps Let_def split_beta
    by (intro result_rules gives_bind [OF gives_rectype_absolute] gives_bind [OF gives_subtype_absolute]
        gives_map [OF "2.IH"(1)] gives_map [OF "2.IH"(2)]) auto
qed (simp add: gives_def)

lemma decoded_sections_absolute:
  assumes "decodeTypeSection r = (Inr gs, r')"
  shows "list_all (\<lambda>g. list_all sig_absolute (SubTypes g)) gs"
  using assms givesD [OF gives_groups_absolute]
  by (auto simp: decodeTypeSection_def bindR_eq_Inr Let_def split: if_splits)

lemma resolve_marked_func:
  assumes "m_Types m = markRecursiveTypeIndexes gs" "k < length gs" "group_base gs (length gs) < 2 ^ 32"
    and "ct_Kind ct = CompFunc" "list_all val_absolute (ct_Params ct)" "list_all val_absolute (ct_Results ct)"
  shows "comp_view (resolveCompTypeRecIndexes m (markRecursiveCompTypeIndexes ct (of_nat (group_base gs k))
     (of_nat (group_base gs k) + of_nat (length (SubTypes (gs ! k))))) k) = comp_view ct"
  using assms(4-6) resolve_marked_view [OF assms(1-3)]
  by (auto simp: resolveCompTypeRecIndexes_def markRecursiveCompTypeIndexes_def comp_view_def val_absolute_def list_all_iff)

text \<open>Resolution is the identity where there is nothing to resolve, which licenses the aliasing path.\<close>

lemma resolve_nothing:
  assumes "\<not> isRecIndexed v" "val_canon v"
  shows "val_view (resolveValTypeRecIndexes m v k) = val_view v"
proof -
  have "resolveTypeIdxRecIndex m i k = i" if "\<not> ti_Rec i" for i
    using that by (cases i) (auto simp: resolveTypeIdxRecIndex_def flatTypeIdxInRecGroup_def Let_def)
  then have "map_val_view (\<lambda>i. resolveTypeIdxRecIndex m i k) (val_view v) = val_view v"
    using assms(1) by (cases "val_view v"; cases "case val_view v of RefV _ _ h \<Rightarrow> h") (auto simp: val_view_rec)
  then show ?thesis using assms(2) by (simp add: resolving.val_view_rewritten)
qed

lemma resolve_nothing_func:
  assumes "ct_Kind ct = CompFunc" "\<not> funcTypeHasRecIndexes ct" "list_all val_canon (ct_Params ct)" "list_all val_canon (ct_Results ct)"
  shows "comp_view (resolveCompTypeRecIndexes m ct k) = comp_view ct"
  using assms resolve_nothing
  by (auto simp: resolveCompTypeRecIndexes_def comp_view_def funcTypeHasRecIndexes_def list_all_iff list_ex_iff)

lemma marked_subtype:
  assumes "m_Types m = markRecursiveTypeIndexes gs" "k < length gs" "j < length (SubTypes (gs ! k))"
    and "group_base gs (length gs) < 2 ^ 32"
  shows "subtypeByTypeIdxWithRecGroup m \<lparr>ti_Index = of_nat (group_base gs k + j), ti_Rec = False\<rparr> =
    Some (markRecursiveSubTypeIndexes (SubTypes (gs ! k) ! j) (of_nat (group_base gs k))
      (of_nat (group_base gs k) + of_nat (length (SubTypes (gs ! k)))), k)"
proof -
  have lt: "group_base gs k + j < group_base gs (length gs)" using group_base_le [OF assms(2)] assms(3) by simp
  then have u: "unat (of_nat (group_base gs k + j) :: u32) = group_base gs k + j"
    using assms(4) by (simp add: unat_of_nat_small del: of_nat_add)
  have "list_all (\<lambda>g. length (SubTypes g) < 2 ^ 32) (m_Types m)"
    using group_sizes_bounded [of "m_Types m" 32] assms(1,4) by (simp add: marked_lengths)
  then have "list_all (\<lambda>g. length (SubTypes g) < 2 ^ 63) (m_Types m)" by (rule list.pred_mono_strong) simp
  note look = subtype_lookup [OF this]
  have "dir_flat (typeIndex m) ! (group_base gs k + j) = (SubTypes (m_Types m ! k) ! j, k)"
    using flat_nth [of k "m_Types m" j 0 0] assms(1-3) by (simp add: typeIndex_def marked_lengths marked_group)
  moreover have "length (dir_flat (typeIndex m)) = group_base gs (length gs)"
    using assms(1) flat_length [of 0 0 "m_Types m"] by (simp add: typeIndex_def marked_lengths)
  ultimately show ?thesis using look u lt assms(1-3)
    by (simp add: nth_opt_def marked_group del: of_nat_add)
qed

section \<open>Properties\<close>

text \<open>
  C7. Signatures survive the round trip through group-relative indexes: whatever type section was
  decoded, after its indexes have been marked, resolving the signature at a flattened index, with or
  without the aliasing shortcut, gives the signature the section declared there.
\<close>

theorem resolved_signatures_are_declared:
  assumes "decodeTypeSection r = (Inr gs, r')" "m_Types m = markRecursiveTypeIndexes gs"
    and "group_base gs (length gs) < 2 ^ 32" "k < length gs" "j < length (SubTypes (gs ! k))"
    and "ct_Kind (st_Comp (SubTypes (gs ! k) ! j)) = CompFunc"
  shows "map_option comp_view (ResolvedTypeFunc m (of_nat (group_base gs k + j))) = Some (comp_view (st_Comp (SubTypes (gs ! k) ! j)))
    \<and> map_option comp_view (ResolveTypeFunc m (of_nat (group_base gs k + j))) = Some (comp_view (st_Comp (SubTypes (gs ! k) ! j)))"
proof -
  let ?st = "SubTypes (gs ! k) ! j" and ?b = "of_nat (group_base gs k) :: u32"
  let ?l = "?b + of_nat (length (SubTypes (gs ! k)))"
  let ?ct = "markRecursiveCompTypeIndexes (st_Comp ?st) ?b ?l"
  have abs: "sig_absolute ?st"
    using decoded_sections_absolute [OF assms(1)] assms(4,5) by (simp add: list_all_length)
  then have undone: "comp_view (resolveCompTypeRecIndexes m ?ct k) = comp_view (st_Comp ?st)"
    using resolve_marked_func [OF assms(2,4,3,6)] by (simp add: sig_absolute_def)
  have kind: "ct_Kind ?ct = CompFunc" using assms(6) by (simp add: markRecursiveCompTypeIndexes_def)
  have "list_all val_canon (ct_Params ?ct)" "list_all val_canon (ct_Results ?ct)"
    using abs assms(6) by (auto simp: sig_absolute_def val_absolute_def markRecursiveCompTypeIndexes_def list_all_iff mark_val)
  then have "comp_view ?ct = comp_view (st_Comp ?st)" if "\<not> funcTypeHasRecIndexes ?ct"
    using resolve_nothing_func [OF kind that] undone by simp
  then show ?thesis using marked_subtype [OF assms(2,4,5,3)] undone kind
    by (simp add: ResolvedTypeFunc_def ResolveTypeFunc_def resolveTypeFunc_def markRecursiveSubTypeIndexes_def del: of_nat_add)
qed

lemma resolved_signatures_are_declared_witness:
  "\<exists>gs r' m. decodeTypeSection ((newReader [2, 0x60, 0, 1, 0x7f, 0x4e, 1, 0x60, 1, 0x63, 1, 0])
       \<lparr>budget := Some (newDecodeBudget DefaultDecodeLimits)\<rparr>) = (Inr gs, r') \<and>
     m_Types m = markRecursiveTypeIndexes gs \<and>
     map_option comp_view (ResolvedTypeFunc m 1) =
       Some (CompFunc, None, [], [RefV True False (IndexV \<lparr>ti_Index = 1, ti_Rec = False\<rparr>)], [])"
proof -
  let ?r = "(newReader [2, 0x60, 0, 1, 0x7f, 0x4e, 1, 0x60, 1, 0x63, 1, 0])\<lparr>budget := Some (newDecodeBudget DefaultDecodeLimits)\<rparr>"
  let ?fn = "\<lambda>ps rs. \<lparr>SubTypes = [\<lparr>st_Final = True, st_Supers = [], st_Metadata = noTypeMetadata,
      st_Comp = (zeroCompType CompFunc)\<lparr>ct_Params := ps, ct_Results := rs\<rparr>, st_HasPrefix = False\<rparr>]\<rparr>"
  let ?v = "RefVal (Ref True (IndexedHeap \<lparr>ti_Index = 1, ti_Rec = False\<rparr>) False)"
  let ?gs = "[?fn [] [I32], ?fn [?v] []]"
  let ?m = "emptyModule\<lparr>m_Types := markRecursiveTypeIndexes ?gs\<rparr>"
  have "fst (decodeTypeSection ?r) = Inr ?gs" by code_simp
  then have d: "decodeTypeSection ?r = (Inr ?gs, snd (decodeTypeSection ?r))" by (simp add: prod_eq_iff)
  have "map_option comp_view (ResolvedTypeFunc ?m 1) = Some (comp_view (st_Comp (SubTypes (?fn [?v] []) ! 0)))"
    using resolved_signatures_are_declared [OF d, of ?m 1 0] by (simp add: group_base_def emptyModule_def zeroCompType_def)
  moreover have "comp_view (st_Comp (SubTypes (?fn [?v] []) ! 0)) =
      (CompFunc, None, [], [RefV True False (IndexV \<lparr>ti_Index = 1, ti_Rec = False\<rparr>)], [])" by code_simp
  ultimately show ?thesis using d by (intro exI [of _ ?gs] exI [of _ "snd (decodeTypeSection ?r)"] exI [of _ ?m]) (simp add: emptyModule_def)
qed

text \<open>
  C13. Every index space is the imports of its kind followed by the local definitions: with either the
  scan for up to 32 imports or the cached directory, the table, memory, function and global lookups
  return exactly the entry of that list, and with either the scan for up to eight groups or the
  flattened directory, the type lookup returns the entry of the flattened type section.
\<close>

theorem index_spaces:
  assumes "length (m_Imports m) < 2 ^ 32" "group_base (m_Types m) (length (m_Types m)) < 2 ^ 63"
    and "length (m_Tables m) < 2 ^ 63" "length (m_Memories m) < 2 ^ 63"
    and "length (m_FuncTypes m) < 2 ^ 63" "length (m_Globals m) < 2 ^ 63"
  shows "Module_TableType (Some m) idx = nth_opt (index_space ExternTable ExternType_TableType m (map tb_Type (m_Tables m))) (unat idx)
    \<and> MemoryType (Some m) idx = nth_opt (index_space ExternMem ExternType_MemType m (m_Memories m)) (unat idx)
    \<and> FuncTypeIndex (Some m) idx = nth_opt (index_space ExternFunc ExternType_FuncType m (m_FuncTypes m)) (unat idx)
    \<and> GlobalTypeByIndex (Some m) idx = nth_opt (index_space ExternGlobal ExternType_GlobalType m (map gl_Type (m_Globals m))) (unat idx)
    \<and> TypeSubType (Some m) idx = nth_opt (concat (map SubTypes (m_Types m))) (unat idx)"
proof -
  have "map fst (dir_flat (typeIndexFrom k t gs)) = concat (map SubTypes gs)" for k t gs
    by (induction gs arbitrary: k t) (auto simp: Let_def comp_def)
  then have "TypeSubType (Some m) idx = nth_opt (concat (map SubTypes (m_Types m))) (unat idx)"
    using subtype_lookup [OF group_sizes_bounded [OF assms(2)]]
    by (simp add: TypeSubType_def subtypeByTypeIdx_def typeIndex_def nth_opt_map)
  moreover have "length (map tb_Type (m_Tables m)) < 2 ^ 63" "length (map gl_Type (m_Globals m)) < 2 ^ 63"
    using assms(3,6) by simp_all
  note tables.lookup_space [OF assms(1) this(1)] globals.lookup_space [OF assms(1) this(2)]
  ultimately show ?thesis
    using memories.lookup_space [OF assms(1,4)] funcs.lookup_space [OF assms(1,5)] by blast
qed

lemma index_spaces_witness:
  "let imp = \<lambda>t. \<lparr>im_Module = [], im_Name = [], im_Type = t\<rparr>;
       mem = \<lambda>n. \<lparr>mt_Limits = \<lparr>lim_Min = n, lim_Max = 0, lim_HasMax = False, lim_Addr64 = False\<rparr>, mt_Shared = False\<rparr>;
       m = emptyModule\<lparr>m_Imports := replicate 40 (imp (NewFuncExternType zeroTypeIdx)) @ [imp (NewMemExternType (mem 7))], m_Memories := [mem 9]\<rparr>
   in map_option (\<lambda>mt. lim_Min (mt_Limits mt)) (MemoryType (Some m) 0) = Some 7
    \<and> map_option (\<lambda>mt. lim_Min (mt_Limits mt)) (MemoryType (Some m) 1) = Some 9 \<and> MemoryType (Some m) 2 = None"
proof -
  let ?imp = "\<lambda>t. \<lparr>im_Module = [], im_Name = [], im_Type = t\<rparr>"
  let ?mem = "\<lambda>n. \<lparr>mt_Limits = \<lparr>lim_Min = n, lim_Max = 0, lim_HasMax = False, lim_Addr64 = False\<rparr>, mt_Shared = False\<rparr>"
  let ?m = "emptyModule\<lparr>m_Imports := replicate 40 (?imp (NewFuncExternType zeroTypeIdx)) @ [?imp (NewMemExternType (?mem 7))], m_Memories := [?mem 9]\<rparr>"
  have sp: "index_space ExternMem ExternType_MemType ?m (m_Memories ?m) = [?mem 7, ?mem 9]"
    by code_simp
  have "MemoryType (Some ?m) i = nth_opt (index_space ExternMem ExternType_MemType ?m (m_Memories ?m)) (unat i)" for i
    by (rule index_spaces [THEN conjunct2, THEN conjunct1]) (simp_all add: emptyModule_def group_base_def)
  then have "MemoryType (Some ?m) i = nth_opt [?mem 7, ?mem 9] (unat i)" for i unfolding sp .
  then show ?thesis unfolding Let_def by (simp add: nth_opt_def)
qed

text \<open>
  C33. The instruction scanner reads a memory offset at the width of the memory it addresses: the
  table built from a module gives, for every memory of the index space, imported or local, exactly
  the 64-bit flag of that memory, in the uniform case and in the mixed case alike.
\<close>

theorem memarg_widths_match_memories:
  assumes "length (m_Imports m) < 2 ^ 32" "length (m_Memories m) < 2 ^ 63" "MemoryType (Some m) idx = Some mt"
  shows "offset64 (moduleMemargWidths (Some m)) idx = lim_Addr64 (mt_Limits mt)"
  using memories.lookup_space [OF assms(1,2), of idx] assms(3) moduleMemargWidths_bits [of idx m]
  by (auto simp: nth_opt_def split: if_splits)

lemma memarg_widths_match_memories_witness:
  "let mem = \<lambda>b. \<lparr>mt_Limits = \<lparr>lim_Min = 1, lim_Max = 0, lim_HasMax = False, lim_Addr64 = b\<rparr>, mt_Shared = False\<rparr>;
       m = emptyModule\<lparr>m_Memories := [mem False, mem True]\<rparr>
   in \<not> offset64 (moduleMemargWidths (Some m)) 0 \<and> offset64 (moduleMemargWidths (Some m)) 1"
proof -
  let ?mem = "\<lambda>b. \<lparr>mt_Limits = \<lparr>lim_Min = 1, lim_Max = 0, lim_HasMax = False, lim_Addr64 = b\<rparr>, mt_Shared = False\<rparr>"
  let ?m = "emptyModule\<lparr>m_Memories := [?mem False, ?mem True]\<rparr>"
  have "MemoryType (Some ?m) 0 = Some (?mem False)" "MemoryType (Some ?m) 1 = Some (?mem True)"
    by code_simp+
  then show ?thesis
    using memarg_widths_match_memories [of ?m 0 "?mem False"] memarg_widths_match_memories [of ?m 1 "?mem True"]
    by (simp add: emptyModule_def Let_def)
qed

end
