(* ===== verification/Sections.thy ===== *)
theory Sections
  imports Modules
begin

text \<open>
  The section dispatcher of \<^verbatim>\<open>decode.go\<close> (\<^verbatim>\<open>decodeSection\<close>) and the name section of
  \<^verbatim>\<open>name_section_decode.go\<close>: a section's payload becomes the part of the module it declares. The module passed in
  is returned updated; on an error it is dropped, as by the caller. Readers opened on a payload share the allocation budget
  of the reader they come from.
\<close>

section \<open>Readers that share a budget\<close>

text \<open>
  \<^verbatim>\<open>&reader{data: bs, budget: r.budget}\<close>: what the new reader takes from a budget that exists is taken from the old
  reader's. A budget the new reader makes for itself is its own.
\<close>

definition onSub :: "byte list \<Rightarrow> (reader, 'a) rd \<Rightarrow> (reader, 'a \<times> reader) rd" where
  "onSub bs f r =
     (case f \<lparr>data = bs, pos = 0, budget = budget r\<rparr> of
        (x, s) \<Rightarrow> (map_sum id (\<lambda>y. (y, s)) x, if budget r = None then r else r\<lparr>budget := budget s\<rparr>))"

section \<open>The name section\<close>

definition sizeofNameSec :: u64 where "sizeofNameSec = 272"
definition sizeofNameAssoc :: u64 where "sizeofNameAssoc = 24"
definition sizeofIndirectNameAssoc :: u64 where "sizeofIndirectNameAssoc = 32"

definition nameAssoc :: "(reader, NameAssoc) rd" where
  "nameAssoc = bindR r_u32 (\<lambda>i. mapR (\<lambda>n. \<lparr>na_Index = i, na_Name = n\<rparr>) r_name)"

definition decodeNameMap :: "(reader, NameAssoc list) rd" where
  "decodeNameMap = bindR (readMetadataVec sizeofNameAssoc nameAssoc) (\<lambda>entries.
     if \<not> successively (<) (map na_Index entries) then failAt ErrInvalidSection else returnR entries)"

definition indirectNameAssoc :: "(reader, IndirectNameAssoc) rd" where
  "indirectNameAssoc = bindR r_u32 (\<lambda>i. mapR (\<lambda>m. \<lparr>ia_Index = i, ia_Names = m\<rparr>) decodeNameMap)"

definition decodeIndirectNameMap :: "(reader, IndirectNameAssoc list) rd" where
  "decodeIndirectNameMap = bindR (readMetadataVec sizeofIndirectNameAssoc indirectNameAssoc) (\<lambda>entries.
     if \<not> successively (<) (map ia_Index entries) then failAt ErrInvalidSection else returnR entries)"

definition emptyNameSec :: NameSec where
  "emptyNameSec = \<lparr>ns_ModuleName = None, ns_FunctionNames = [], ns_LocalNames = [], ns_LabelNames = [], ns_TypeNames = [],
     ns_TableNames = [], ns_MemoryNames = [], ns_GlobalNames = [], ns_ElementNames = [], ns_DataNames = [], ns_FieldNames = [],
     ns_TagNames = []\<rparr>"

text \<open>One subsection, and whether its id is known.\<close>

definition nameSubsectionInto :: "byte \<Rightarrow> NameSec \<Rightarrow> (reader, NameSec \<times> bool) rd" where
  "nameSubsectionInto i ns =
     (if i = 0 then mapR (\<lambda>n. (ns\<lparr>ns_ModuleName := Some n\<rparr>, True)) r_name
      else if i = 1 then mapR (\<lambda>m. (ns\<lparr>ns_FunctionNames := m\<rparr>, True)) decodeNameMap
      else if i = 2 then mapR (\<lambda>m. (ns\<lparr>ns_LocalNames := m\<rparr>, True)) decodeIndirectNameMap
      else if i = 3 then mapR (\<lambda>m. (ns\<lparr>ns_LabelNames := m\<rparr>, True)) decodeIndirectNameMap
      else if i = 4 then mapR (\<lambda>m. (ns\<lparr>ns_TypeNames := m\<rparr>, True)) decodeNameMap
      else if i = 5 then mapR (\<lambda>m. (ns\<lparr>ns_TableNames := m\<rparr>, True)) decodeNameMap
      else if i = 6 then mapR (\<lambda>m. (ns\<lparr>ns_MemoryNames := m\<rparr>, True)) decodeNameMap
      else if i = 7 then mapR (\<lambda>m. (ns\<lparr>ns_GlobalNames := m\<rparr>, True)) decodeNameMap
      else if i = 8 then mapR (\<lambda>m. (ns\<lparr>ns_ElementNames := m\<rparr>, True)) decodeNameMap
      else if i = 9 then mapR (\<lambda>m. (ns\<lparr>ns_DataNames := m\<rparr>, True)) decodeNameMap
      else if i = 10 then mapR (\<lambda>m. (ns\<lparr>ns_FieldNames := m\<rparr>, True)) decodeIndirectNameMap
      else if i = 11 then mapR (\<lambda>m. (ns\<lparr>ns_TagNames := m\<rparr>, True)) decodeNameMap
      else returnR (ns, False))"

text \<open>One round of the loop; \<open>prev\<close> is the last id, when one has been seen.\<close>

definition nameSubsection :: "byte option \<Rightarrow> NameSec \<Rightarrow> (reader, byte \<times> NameSec) rd" where
  "nameSubsection prev ns = bindR r_byte (\<lambda>i.
     if (case prev of Some p \<Rightarrow> i \<le> p | None \<Rightarrow> False) then failBack ErrInvalidSection
     else bindR r_u32 (\<lambda>size. bindR (r_bytes (unat size)) (\<lambda>subb. bindR (onSub subb (nameSubsectionInto i ns)) (\<lambda>(ns', sub).
       if snd ns' \<and> r_has sub then failR (\<lambda>r. DecodeError ErrSectionSizeMismatch (pos r - r_left sub)) else returnR (i, fst ns')))))"

section \<open>The contract\<close>

lemma decoder_onSub [cursor_rules]:
  assumes "decoder f"
  shows "decoder (onSub bs f)"
proof (rule decoderI)
  fix r x r' assume "onSub bs f r = (x, r')"
  then obtain y s where s: "f \<lparr>data = bs, pos = 0, budget = budget r\<rparr> = (y, s)" "r' = (if budget r = None then r else r\<lparr>budget := budget s\<rparr>)"
    by (auto simp: onSub_def split: prod.splits)
  have "advances \<lparr>data = bs, pos = 0, budget = budget r\<rparr> s" by (rule decoderD [OF assms s(1)])
  then show "advances r r'" using s(2) by (auto simp: advances_def budget_of_def)
qed

interpretation name_vec: element_decoder nameAssoc sizeofNameAssoc
  by unfold_locales (auto simp: sizeofNameAssoc_def nameAssoc_def intro!: cursor_rules)

lemma decoder_decodeNameMap [cursor_rules]: "decoder decodeNameMap"
  unfolding decodeNameMap_def by (intro cursor_rules name_vec.metadata_vec_decoder)

interpretation indirect_vec: element_decoder indirectNameAssoc sizeofIndirectNameAssoc
  by unfold_locales (auto simp: sizeofIndirectNameAssoc_def indirectNameAssoc_def intro!: cursor_rules)

lemma decoder_decodeIndirectNameMap [cursor_rules]: "decoder decodeIndirectNameMap"
  unfolding decodeIndirectNameMap_def by (intro cursor_rules indirect_vec.metadata_vec_decoder)

lemma decoder_nameSubsectionInto [cursor_rules]: "decoder (nameSubsectionInto i ns)"
  unfolding nameSubsectionInto_def by (intro cursor_rules)

lemma decoder_nameSubsection [cursor_rules]: "decoder (nameSubsection prev ns)"
  unfolding nameSubsection_def by (intro cursor_rules)

lemma nameSubsection_consumes:
  assumes "nameSubsection prev ns r = (Inr y, r')" "r_has r"
  shows "r_left r' < r_left r"
proof -
  obtain i r1 where b: "r_byte r = (Inr i, r1)" using assms(1) by (auto simp: nameSubsection_def bindR_eq_Inr)
  then have p: "pos r1 = pos r + 1" "data r1 = data r" by (auto simp: r_byte_def split: if_splits)
  let ?rest = "\<lambda>i. if (case prev of Some p \<Rightarrow> i \<le> p | None \<Rightarrow> False) then failBack ErrInvalidSection
     else bindR r_u32 (\<lambda>size. bindR (r_bytes (unat size)) (\<lambda>subb. bindR (onSub subb (nameSubsectionInto i ns)) (\<lambda>(ns', sub).
       if snd ns' \<and> r_has sub then failR (\<lambda>r. DecodeError ErrSectionSizeMismatch (pos r - r_left sub)) else returnR (i, fst ns'))))"
  have "decoder (?rest i)" by (intro cursor_rules)
  moreover have "?rest i r1 = (Inr y, r')" using assms(1) b by (simp add: nameSubsection_def bindR_Inr)
  ultimately have "advances r1 r'" by (rule decoderD)
  then show ?thesis using p assms(2) by (auto simp: advances_def r_left_def r_has_def)
qed

function nameSubsections :: "byte option \<Rightarrow> NameSec \<Rightarrow> (reader, NameSec) rd" where
  "nameSubsections prev ns r =
     (if \<not> r_has r then (Inr ns, r)
      else case nameSubsection prev ns r of
        (Inl e, r1) \<Rightarrow> (Inl e, r1)
      | (Inr (i, ns'), r1) \<Rightarrow> nameSubsections (Some i) ns' r1)"
  by pat_completeness auto
termination
  by (relation "measure (\<lambda>(_, _, r). r_left r)") (auto dest: nameSubsection_consumes [OF sym])

declare nameSubsections.simps [simp del]

lemma decoder_nameSubsections [cursor_rules]: "decoder (nameSubsections prev ns)"
proof -
  have "advances r (snd (nameSubsections prev ns r))" for r
  proof (induction prev ns r rule: nameSubsections.induct)
    case (1 prev ns r)
    obtain x r1 where s: "nameSubsection prev ns r = (x, r1)" by fastforce
    then have "advances r r1" by (rule decoderD [OF decoder_nameSubsection])
    then show ?case using "1.IH" s
      by (cases x) (auto simp: nameSubsections.simps [of prev ns r] intro: advances_trans split: prod.splits)
  qed
  then show ?thesis by (simp add: decoder_def)
qed

definition decodeNameSecWithBudget :: "byte list \<Rightarrow> (reader, NameSec) rd" where
  "decodeNameSecWithBudget payload =
     mapR fst (onSub payload (bindR (reserveMetadataStorage sizeofNameSec 1) (\<lambda>_. nameSubsections None emptyNameSec)))"

definition decodeNameSec :: "byte list \<Rightarrow> decode_error + NameSec" where
  "decodeNameSec payload = fst (decodeNameSecWithBudget payload ((newReader [])\<lparr>budget := Some (newDecodeBudget zeroDecodeLimits)\<rparr>))"

text \<open>Malformed name metadata is dropped; an exhausted budget is still an error.\<close>

definition malformedError :: "decode_error \<Rightarrow> bool" where
  "malformedError e = (case e of DecodeError _ _ \<Rightarrow> True | DecodeErrorIn _ _ _ _ _ \<Rightarrow> True | _ \<Rightarrow> False)"

definition decodeOptionalNameSec :: "byte list \<Rightarrow> (reader, NameSec option) rd" where
  "decodeOptionalNameSec payload r =
     (case decodeNameSecWithBudget payload r of
        (Inl e, r') \<Rightarrow> (if malformedError e then Inr None else Inl e, r')
      | (Inr ns, r') \<Rightarrow> (Inr (Some ns), r'))"

section \<open>Sections\<close>

definition secCustom :: byte where "secCustom = 0"
definition secType :: byte where "secType = 1"
definition secImport :: byte where "secImport = 2"
definition secFunction :: byte where "secFunction = 3"
definition secTable :: byte where "secTable = 4"
definition secMemory :: byte where "secMemory = 5"
definition secGlobal :: byte where "secGlobal = 6"
definition secExport :: byte where "secExport = 7"
definition secStart :: byte where "secStart = 8"
definition secElement :: byte where "secElement = 9"
definition secCode :: byte where "secCode = 10"
definition secData :: byte where "secData = 11"
definition secDataCount :: byte where "secDataCount = 12"
definition secTag :: byte where "secTag = 13"

definition sectionOrder :: "byte list" where
  "sectionOrder = [0, 1, 2, 3, 4, 5, 7, 8, 9, 10, 12, 13, 11, 6]"

definition lookupSectionOrder :: "byte \<Rightarrow> byte \<times> bool" where
  "lookupSectionOrder i =
     (if unat i \<ge> length sectionOrder then (0, False) else let order = sectionOrder ! unat i in (order, order \<noteq> 0))"

text \<open>The bytes of the string \<^verbatim>\<open>name\<close>.\<close>

definition nameSectionName :: "byte list" where "nameSectionName = [0x6E, 0x61, 0x6D, 0x65]"

text \<open>What becomes of a custom section, once its name and payload are read.\<close>

definition customInto :: "Module \<Rightarrow> byte list \<Rightarrow> byte list \<Rightarrow> (reader, Module) rd" where
  "customInto m name payload =
     (let firstName = (name = nameSectionName \<and> \<not> list_ex (\<lambda>custom. cs_Name custom = nameSectionName) (m_Customs m))
      in bindR (if firstName then mapR (\<lambda>ns. m\<lparr>m_NameSec := ns\<rparr>) (decodeOptionalNameSec payload) else returnR m) (\<lambda>m1.
         bindR (r_reserve (of_nat (length payload)) 2) (\<lambda>_.
           let m2 = (if firstName then m1\<lparr>m_RawNameSecPayload := (if payload = [] then None else Some payload)\<rparr> else m1)
           in returnR (m2\<lparr>m_Customs := m_Customs m2 @ [\<lparr>cs_Name = name, cs_Data = payload\<rparr>]\<rparr>))))"

definition decodeCustom :: "Module \<Rightarrow> (reader, Module) rd" where
  "decodeCustom m =
     bindR r_name (\<lambda>name. bindR leftR (\<lambda>n. bindR (r_bytes n) (\<lambda>payload. customInto m name payload)))"

definition decodeSection :: "Module \<Rightarrow> byte \<Rightarrow> (reader, Module) rd" where
  "decodeSection m i =
     (if i = secCustom then decodeCustom m
      else if i = secType then mapR (\<lambda>v. m\<lparr>m_Types := markRecursiveTypeIndexes v\<rparr>) decodeTypeSection
      else if i = secImport then mapR (\<lambda>(v, compact). m\<lparr>m_Imports := v, m_UsesCompactImports := compact\<rparr>) decodeImports
      else if i = secFunction then mapR (\<lambda>v. m\<lparr>m_FuncTypes := v\<rparr>) (readVec sizeofTypeIdx decodeTypeIdx)
      else if i = secMemory then mapR (\<lambda>v. m\<lparr>m_Memories := v\<rparr>) (readVec sizeofMemType decodeMemType)
      else if i = secTag then mapR (\<lambda>v. m\<lparr>m_Tags := v\<rparr>) (readVec sizeofTagType decodeTagType)
      else if i = secExport then mapR (\<lambda>v. m\<lparr>m_Exports := v\<rparr>) (readVec sizeofExport decodeExport)
      else if i = secStart then mapR (\<lambda>f. m\<lparr>m_Start := Some f\<rparr>) r_u32
      else if i = secDataCount then mapR (\<lambda>c. m\<lparr>m_DataCount := Some c\<rparr>) r_u32
      else failAt ErrInvalidSection)"

lemma decoder_nameSec [cursor_rules]: "decoder (decodeNameSecWithBudget payload)"
  unfolding decodeNameSecWithBudget_def by (intro cursor_rules)

lemma decoder_optionalNameSec [cursor_rules]: "decoder (decodeOptionalNameSec payload)"
proof (rule decoderI)
  fix r x r' assume x: "decodeOptionalNameSec payload r = (x, r')"
  obtain y s where "decodeNameSecWithBudget payload r = (y, s)" by fastforce
  moreover from this x have "r' = s" by (cases y) (simp_all add: decodeOptionalNameSec_def)
  ultimately show "advances r r'" using decoderD [OF decoder_nameSec] by blast
qed

lemma decoder_customInto [cursor_rules]: "decoder (customInto m name payload)"
  unfolding customInto_def by (intro cursor_rules)

lemma decoder_section: "decoder (decodeSection m i)"
proof -
  have "decoder (decodeCustom m)" unfolding decodeCustom_def by (intro cursor_rules)
  then show ?thesis unfolding decodeSection_def
    by (intro cursor_rules type_idx_vec.vec_decoder mem_vec.vec_decoder tag_vec.vec_decoder export_vec.vec_decoder)
qed

section \<open>Name metadata\<close>

definition map_ascending :: "NameAssoc list \<Rightarrow> bool" where
  "map_ascending xs \<longleftrightarrow> sorted_wrt (<) (map na_Index xs)"

definition indirect_ascending :: "IndirectNameAssoc list \<Rightarrow> bool" where
  "indirect_ascending xs \<longleftrightarrow> sorted_wrt (<) (map ia_Index xs) \<and> list_all (\<lambda>x. map_ascending (ia_Names x)) xs"

definition names_ascending :: "NameSec \<Rightarrow> bool" where
  "names_ascending ns \<longleftrightarrow> map_ascending (ns_FunctionNames ns) \<and> indirect_ascending (ns_LocalNames ns) \<and> indirect_ascending (ns_LabelNames ns) \<and>
     map_ascending (ns_TypeNames ns) \<and> map_ascending (ns_TableNames ns) \<and> map_ascending (ns_MemoryNames ns) \<and>
     map_ascending (ns_GlobalNames ns) \<and> map_ascending (ns_ElementNames ns) \<and> map_ascending (ns_DataNames ns) \<and>
     indirect_ascending (ns_FieldNames ns) \<and> map_ascending (ns_TagNames ns)"

lemma ascending_iff: "successively (<) xs \<longleftrightarrow> sorted_wrt (<) xs" for xs :: "u32 list"
  by (rule successively_conv_sorted_wrt) (auto intro: transpI)

lemma gives_map_ascending: "gives decodeNameMap map_ascending"
  unfolding decodeNameMap_def by (intro result_rules) (simp add: map_ascending_def ascending_iff)

lemma gives_indirect: "gives decodeIndirectNameMap indirect_ascending"
proof -
  have "gives indirectNameAssoc (\<lambda>x. map_ascending (ia_Names x))"
    unfolding indirectNameAssoc_def by (intro result_rules gives_map [OF gives_map_ascending]) simp
  then have "gives (readMetadataVec sizeofIndirectNameAssoc indirectNameAssoc) (list_all (\<lambda>x. map_ascending (ia_Names x)))"
    unfolding readMetadataVec_def by (intro result_rules gives_repeat)
  then show ?thesis unfolding decodeIndirectNameMap_def
    by (rule gives_bind) (intro result_rules, simp add: indirect_ascending_def ascending_iff)
qed

lemma gives_subsection:
  assumes "names_ascending ns"
  shows "gives (nameSubsectionInto i ns) (\<lambda>x. names_ascending (fst x))"
  unfolding nameSubsectionInto_def
  by (intro gives_if gives_return gives_map [OF gives_map_ascending] gives_map [OF gives_indirect] gives_map_any)
    (use assms in \<open>simp_all add: names_ascending_def\<close>)

lemma gives_onSub: "gives f P \<Longrightarrow> gives (onSub bs f) (\<lambda>x. P (fst x))"
proof (rule givesI)
  fix r y r' assume f: "gives f P" and y: "onSub bs f r = (Inr y, r')"
  obtain x s where x: "f \<lparr>data = bs, pos = 0, budget = budget r\<rparr> = (x, s)" by fastforce
  then obtain z where "x = Inr z" "y = (z, s)" using y by (cases x) (auto simp: onSub_def)
  then show "P (fst y)" using givesD [OF f] x by simp
qed

lemma names_of_subsection: "names_ascending ns \<Longrightarrow> gives (nameSubsection prev ns) (\<lambda>x. names_ascending (snd x))"
  unfolding nameSubsection_def
  by (intro gives_bind_any gives_if gives_fail gives_bind [OF gives_onSub [OF gives_subsection]]) (auto intro!: result_rules split: prod.splits)

lemma names_of_subsections:
  "names_ascending ns \<Longrightarrow> nameSubsections prev ns r = (Inr ns', r') \<Longrightarrow> names_ascending ns'"
proof (induction prev ns r arbitrary: ns' r' rule: nameSubsections.induct)
  case (1 prev ns r)
  show ?case
  proof (cases "r_has r")
    case False
    then show ?thesis using 1(2,3) by (simp add: nameSubsections.simps [of prev ns r])
  next
    case True
    then obtain i ns1 r1 where s: "nameSubsection prev ns r = (Inr (i, ns1), r1)" "nameSubsections (Some i) ns1 r1 = (Inr ns', r')"
      using 1(3) by (auto simp: nameSubsections.simps [of prev ns r] split: prod.splits sum.splits)
    have "names_ascending ns1" using givesD [OF names_of_subsection [OF 1(2)] s(1)] by simp
    then show ?thesis using 1(1) True s by auto
  qed
qed

lemma names_of_section: "gives (decodeNameSecWithBudget payload) names_ascending"
proof -
  have "names_ascending emptyNameSec" by (simp add: names_ascending_def emptyNameSec_def map_ascending_def indirect_ascending_def)
  then have "gives (nameSubsections None emptyNameSec) names_ascending" using names_of_subsections by (blast intro: givesI)
  then show ?thesis unfolding decodeNameSecWithBudget_def
    by (intro gives_map [OF gives_onSub [of _ names_ascending]] gives_bind_any)
qed

lemma names_of_optional: "gives (decodeOptionalNameSec payload) (pred_option names_ascending)"
  by (rule givesI) (auto simp: decodeOptionalNameSec_def split: prod.splits sum.splits if_splits dest: givesD [OF names_of_section])

lemma customInto_error:
  assumes "customInto m name payload r = (Inl e, r')"
  shows "\<not> malformedError e"
proof -
  have "\<not> malformedError e" if "decodeOptionalNameSec payload r = (Inl e, r')" for e r r'
    using that by (auto simp: decodeOptionalNameSec_def split: prod.splits sum.splits if_splits)
  moreover have "\<not> malformedError e" if "r_reserve n w r = (Inl e, r')" for n w e r r'
    using that by (auto simp: r_reserve_def Let_def malformedError_def split: if_splits)
  ultimately show ?thesis using assms
    by (auto simp: customInto_def Let_def bindR_def mapR_def split: prod.splits sum.splits if_splits)
qed

lemma customInto_result:
  assumes c: "customInto m name payload r = (Inr m', r')" and ok: "pred_option names_ascending (m_NameSec m)"
  shows "m_Customs m' = m_Customs m @ [\<lparr>cs_Name = name, cs_Data = payload\<rparr>] \<and>
      (name \<noteq> nameSectionName \<or> nameSectionName \<in> cs_Name ` set (m_Customs m) \<longrightarrow>
         m_NameSec m' = m_NameSec m \<and> m_RawNameSecPayload m' = m_RawNameSecPayload m)"
    "m' = m\<lparr>m_Customs := m_Customs m', m_NameSec := m_NameSec m', m_RawNameSecPayload := m_RawNameSecPayload m'\<rparr>"
    "pred_option names_ascending (m_NameSec m')"
proof -
  let ?first = "name = nameSectionName \<and> \<not> list_ex (\<lambda>custom. cs_Name custom = nameSectionName) (m_Customs m)"
  obtain m1 r1 where m1: "(if ?first then mapR (\<lambda>ns. m\<lparr>m_NameSec := ns\<rparr>) (decodeOptionalNameSec payload) else returnR m) r = (Inr m1, r1)"
    and m': "m' = (if ?first then m1\<lparr>m_RawNameSecPayload := (if payload = [] then None else Some payload)\<rparr> else m1)
        \<lparr>m_Customs := m_Customs m1 @ [\<lparr>cs_Name = name, cs_Data = payload\<rparr>]\<rparr>"
    using c unfolding customInto_def Let_def by (auto simp: bindR_eq_Inr)
  have "\<exists>ns. m1 = (if ?first then m\<lparr>m_NameSec := ns\<rparr> else m) \<and> pred_option names_ascending ns"
  proof (cases ?first)
    case True
    then show ?thesis using m1 givesD [OF names_of_optional] by (auto simp: mapR_eq_Inr)
  next
    case False
    then show ?thesis using m1 by (intro exI [of _ None]) auto
  qed
  then obtain ns where "m1 = (if ?first then m\<lparr>m_NameSec := ns\<rparr> else m)" "pred_option names_ascending ns" by blast
  then show "m_Customs m' = m_Customs m @ [\<lparr>cs_Name = name, cs_Data = payload\<rparr>] \<and>
      (name \<noteq> nameSectionName \<or> nameSectionName \<in> cs_Name ` set (m_Customs m) \<longrightarrow>
         m_NameSec m' = m_NameSec m \<and> m_RawNameSecPayload m' = m_RawNameSecPayload m)"
    "m' = m\<lparr>m_Customs := m_Customs m', m_NameSec := m_NameSec m', m_RawNameSecPayload := m_RawNameSecPayload m'\<rparr>"
    "pred_option names_ascending (m_NameSec m')"
    using ok by (auto simp: m' list_ex_iff)
qed

section \<open>Properties\<close>

text \<open>
  C21. Whatever the section id and the payload, \<open>decodeSection\<close> keeps the cursor contract, success or
  failure, and so does the decoder of a body's local declarations: it never modifies the input, never moves
  the cursor backwards or past the end, never changes the configured limits, never gives back reserved
  metadata bytes, and never lets the type count pass the configured maximum. The readers of the name section
  and of its subsections share the budget and are included. The table, global, element, code and data sections
  are not decoded here: for their ids, and for unknown ones, it fails without reading.
\<close>

theorem section_decoders_keep_contract:
  "advances r (snd (decodeSection m i r)) \<and> advances r (snd (decodeLocals r)) \<and>
   (i \<in> {secTable, secGlobal, secElement, secCode, secData} \<or> unat i \<ge> length sectionOrder \<longrightarrow>
      decodeSection m i r = (Inl (DecodeError ErrInvalidSection (pos r)), r))"
proof (intro conjI impI)
  show "advances r (snd (decodeSection m i r))" "advances r (snd (decodeLocals r))"
    using decoder_section decoder_locals(2) unfolding decoder_def by blast+
  assume i: "i \<in> {secTable, secGlobal, secElement, secCode, secData} \<or> unat i \<ge> length sectionOrder"
  then have "i \<notin> {secCustom, secType, secImport, secFunction, secMemory, secTag, secExport, secStart, secDataCount}"
    by (auto simp: sectionOrder_def secCustom_def secType_def secImport_def secFunction_def secMemory_def secTag_def secExport_def
      secStart_def secDataCount_def secTable_def secGlobal_def secElement_def secCode_def secData_def)
  then show "decodeSection m i r = (Inl (DecodeError ErrInvalidSection (pos r)), r)" by (simp add: decodeSection_def failAt_def)
qed

theorem section_decoders_keep_contract_witness:
  "decodeSection emptyModule secTable (newReader [1, 0x70, 0, 1]) =
    (Inl (DecodeError ErrInvalidSection 0), newReader [1, 0x70, 0, 1]) \<and>
   fst (decodeSection emptyModule secStart (newReader [5])) = Inr (emptyModule\<lparr>m_Start := Some 5\<rparr>)"
proof
  show "decodeSection emptyModule secTable (newReader [1, 0x70, 0, 1]) = (Inl (DecodeError ErrInvalidSection 0), newReader [1, 0x70, 0, 1])"
    using section_decoders_keep_contract [of "newReader [1, 0x70, 0, 1]" emptyModule secTable] by (simp add: newReader_def)
  show "fst (decodeSection emptyModule secStart (newReader [5])) = Inr (emptyModule\<lparr>m_Start := Some 5\<rparr>)" by code_simp
qed



end
