(* ===== verification/Signatures.thy ===== *)
theory Signatures
  imports Modules
begin

text \<open>
  Signature identities (\<^verbatim>\<open>module_helpers.go\<close>): equality of function signatures, the byte key that stands
  for a signature in a hash map, the canonical type index used by indirect calls, and the legacy
  FNV identifier. The lemmas show that the key separates exactly the signatures equality separates,
  and that the one-pass table over keys and the scan for small modules both return the first
  equal signature.
\<close>

section \<open>Definitions\<close>

definition FuncTypeEqual :: "CompType \<Rightarrow> CompType \<Rightarrow> bool" where
  "FuncTypeEqual a b =
     (if ct_Kind a \<noteq> CompFunc \<or> ct_Kind b \<noteq> CompFunc \<or> length (ct_Params a) \<noteq> length (ct_Params b) \<or>
         length (ct_Results a) \<noteq> length (ct_Results b) then False
      else list_all2 equalValType (ct_Params a) (ct_Params b) \<and> list_all2 equalValType (ct_Results a) (ct_Results b))"

definition putLE :: "nat \<Rightarrow> 'a::len word \<Rightarrow> byte list" where
  "putLE n w = map (\<lambda>i. ucast (drop_bit (8 * i) w)) [0..<n]"

definition writeCanonicalValTypeKey :: "ValType \<Rightarrow> byte list" where
  "writeCanonicalValTypeKey t =
     (let k0 = ucast (val_kind_code (ValType_Kind t)); k1 = ValType_Num t
      in if ValType_Kind t = ValRef then
           (let rt = ValType_Ref t; heap = RefType_Heap rt; typeIdx = HeapType_Type heap;
                (_, member, _, valid) = HeapType_Def heap;
                withDef = (HeapType_Kind heap = HeapDefType \<and> valid)
            in [k0, k1, if Nullable rt then 1 else 0, if Exact rt then 1 else 0,
                ucast (heap_kind_code (HeapType_Kind heap)), HeapType_Abs heap, if ti_Rec typeIdx then 1 else 0,
                if withDef then 1 else 0] @ putLE 4 (ti_Index typeIdx) @ (if withDef then putLE 4 member else [0, 0, 0, 0]))
         else [k0, k1] @ replicate 14 0)"

definition canonicalFuncTypeKey :: "CompType \<Rightarrow> byte list" where
  "canonicalFuncTypeKey ft =
     putLE 8 (of_nat (length (ct_Params ft)) :: u64) @ concat (map writeCanonicalValTypeKey (ct_Params ft)) @
     putLE 8 (of_nat (length (ct_Results ft)) :: u64) @ concat (map writeCanonicalValTypeKey (ct_Results ft))"

fun identicalPrefix :: "CompType \<Rightarrow> SubType list \<Rightarrow> nat" where
  "identicalPrefix first [] = 0"
| "identicalPrefix first (st # sts) = (if FuncTypeEqual first (st_Comp st) then Suc (identicalPrefix first sts) else 0)"

fun assignCanonicalIDs :: "nat \<Rightarrow> SubType list \<Rightarrow> (byte list \<times> u32) list \<Rightarrow> u32 list" where
  "assignCanonicalIDs i [] firstBySignature = []"
| "assignCanonicalIDs i (st # sts) firstBySignature =
     (if ct_Kind (st_Comp st) \<noteq> CompFunc then of_nat i # assignCanonicalIDs (Suc i) sts firstBySignature
      else let key = canonicalFuncTypeKey (st_Comp st)
           in case map_of firstBySignature key of
                Some first \<Rightarrow> first # assignCanonicalIDs (Suc i) sts firstBySignature
              | None \<Rightarrow> of_nat i # assignCanonicalIDs (Suc i) sts ((key, of_nat i) # firstBySignature))"

definition canonicalIDs :: "SubType list \<Rightarrow> u32 list" where
  "canonicalIDs flat =
     (let first = st_Comp (flat ! 0);
          prefix = (if ct_Kind first = CompFunc then Suc (identicalPrefix first (tl flat)) else 0)
      in if prefix = length flat then replicate (length flat) 0
         else replicate prefix 0 @
              assignCanonicalIDs prefix (drop prefix flat) (if prefix \<noteq> 0 then [(canonicalFuncTypeKey first, 0)] else []))"

fun scanSignatures :: "Module \<Rightarrow> CompType \<Rightarrow> u32 \<Rightarrow> nat list \<Rightarrow> u32" where
  "scanSignatures m target typeIdx [] = typeIdx"
| "scanSignatures m target typeIdx (i # is) =
     (case TypeFunc m (of_nat i) of
        Some ft \<Rightarrow> if FuncTypeEqual ft target then of_nat i else scanSignatures m target typeIdx is
      | None \<Rightarrow> scanSignatures m target typeIdx is)"

definition CanonicalTypeID :: "Module \<Rightarrow> u32 \<Rightarrow> u32" where
  "CanonicalTypeID m typeIdx =
     (if typeIdx = 0 then 0
      else let count = sum_list (map (\<lambda>g. length (SubTypes g)) (m_Types m))
           in if length (m_Types m) \<le> 8 \<and> count \<le> 8 then
                (case TypeFunc m typeIdx of
                   None \<Rightarrow> typeIdx
                 | Some target \<Rightarrow> scanSignatures m target typeIdx [0..<count])
              else let flat = map fst (dir_flat (typeIndex m))
                   in if unat typeIdx \<ge> length flat \<or> ct_Kind (st_Comp (flat ! unat typeIdx)) \<noteq> CompFunc then typeIdx
                      else canonicalIDs flat ! unat typeIdx)"

definition structuralLegacyValTypeByte :: "ValType \<Rightarrow> byte" where
  "structuralLegacyValTypeByte t =
     (case ValType_Kind t of
        ValNum \<Rightarrow> ValType_Num t
      | ValVec \<Rightarrow> 0x7b
      | ValRef \<Rightarrow>
          (let rt = ValType_Ref t
           in if Nullable rt \<and> \<not> Exact rt \<and> HeapType_Kind (RefType_Heap rt) = HeapAbs then HeapType_Abs (RefType_Heap rt) else 0)
      | ValBot \<Rightarrow> 0)"

definition fnvMix :: "byte \<Rightarrow> u32 \<Rightarrow> u32" where
  "fnvMix b h = (h XOR ucast b) * 16777619"

definition StructuralFuncTypeID :: "CompType \<Rightarrow> u32" where
  "StructuralFuncTypeID ft =
     fold (\<lambda>t. fnvMix (structuralLegacyValTypeByte t)) (ct_Results ft)
       (fnvMix (of_nat (length (ct_Results ft)))
          (fnvMix 0xfe
             (fold (\<lambda>t. fnvMix (structuralLegacyValTypeByte t)) (ct_Params ft)
                (fnvMix (of_nat (length (ct_Params ft))) 2166136261))))"

section \<open>The key\<close>

lemma putLE_inj:
  assumes "putLE n a = putLE n b" "LENGTH('a) \<le> 8 * n"
  shows "a = (b :: 'a::len word)"
proof (rule bit_word_eqI)
  fix k
  assume k: "k < LENGTH('a)"
  then have "k div 8 < n" using assms(2) by simp
  then have "(ucast (drop_bit (8 * (k div 8)) a) :: byte) = ucast (drop_bit (8 * (k div 8)) b)"
    using assms(1) by (simp add: putLE_def)
  then have "bit (ucast (drop_bit (8 * (k div 8)) a) :: byte) (k mod 8) = bit (ucast (drop_bit (8 * (k div 8)) b) :: byte) (k mod 8)"
    by simp
  then show "bit a k = bit b k" using k by (simp add: bit_simps)
qed

lemma putLE_eq_iff: "LENGTH('a) \<le> 8 * n \<Longrightarrow> putLE n a = putLE n (b :: 'a::len word) \<longleftrightarrow> a = b"
  using putLE_inj by blast

lemma length_putLE [simp]: "length (putLE n w) = n"
  by (simp add: putLE_def)

lemma length_valKey [simp]: "length (writeCanonicalValTypeKey t) = 16"
  by (auto simp: writeCanonicalValTypeKey_def Let_def split: prod.splits)

lemma kind_codes_inj:
  "(ucast (val_kind_code a) :: byte) = ucast (val_kind_code b) \<longleftrightarrow> a = b"
  "(ucast (heap_kind_code c) :: byte) = ucast (heap_kind_code d) \<longleftrightarrow> c = d"
  by (cases a; cases b; simp) (cases c; cases d; simp)

text \<open>What equality and the key observe of a reference type.\<close>

definition def_member :: "HeapType \<Rightarrow> u32 option" where
  "def_member h = (case HeapType_Def h of (_, member, _, valid) \<Rightarrow> if HeapType_Kind h = HeapDefType \<and> valid then Some member else None)"

definition ref_observed :: "ValType \<Rightarrow> NumType \<times> bool \<times> bool \<times> HeapTypeKind \<times> AbsHeapType \<times> bool \<times> u32 \<times> u32 option" where
  "ref_observed t =
     (let rt = ValType_Ref t; h = RefType_Heap rt
      in (ValType_Num t, Nullable rt, Exact rt, HeapType_Kind h, HeapType_Abs h, ti_Rec (HeapType_Type h), ti_Index (HeapType_Type h), def_member h))"

lemma valKey_ref:
  assumes "ValType_Kind t = ValRef" "ref_observed t = (num, nl, ex, hk, ab, rc, ix, dm)"
  shows "writeCanonicalValTypeKey t =
    [ucast (val_kind_code ValRef), num, if nl then 1 else 0, if ex then 1 else 0, ucast (heap_kind_code hk), ab,
     if rc then 1 else 0, if dm \<noteq> None then 1 else 0] @ putLE 4 ix @ (case dm of Some k \<Rightarrow> putLE 4 k | None \<Rightarrow> [0, 0, 0, 0])"
  using assms by (auto simp: writeCanonicalValTypeKey_def ref_observed_def def_member_def Let_def split: prod.splits)

lemma flag_eq: "(if p then 1 else 0 :: byte) = (if q then 1 else 0) \<longleftrightarrow> p = q"
  by simp

lemma valKey_ref_decides:
  assumes "ValType_Kind a = ValRef" "ValType_Kind b = ValRef"
  shows "writeCanonicalValTypeKey a = writeCanonicalValTypeKey b \<longleftrightarrow> ref_observed a = ref_observed b"
proof -
  obtain n1 l1 e1 k1 a1 r1 i1 d1 where o1: "ref_observed a = (n1, l1, e1, k1, a1, r1, i1, d1)" by (cases "ref_observed a") auto
  obtain n2 l2 e2 k2 a2 r2 i2 d2 where o2: "ref_observed b = (n2, l2, e2, k2, a2, r2, i2, d2)" by (cases "ref_observed b") auto
  show ?thesis
    unfolding valKey_ref [OF assms(1) o1] valKey_ref [OF assms(2) o2] o1 o2
    by (cases d1; cases d2; simp only: append_Cons append_Nil list.inject kind_codes_inj flag_eq append_eq_append_conv
          length_putLE prod.inject option.case; simp add: putLE_eq_iff; blast?)
qed

lemma equalHeapType_observed:
  "equalHeapType a b \<longleftrightarrow> HeapType_Kind a = HeapType_Kind b \<and> HeapType_Abs a = HeapType_Abs b \<and>
     ti_Rec (HeapType_Type a) = ti_Rec (HeapType_Type b) \<and> ti_Index (HeapType_Type a) = ti_Index (HeapType_Type b) \<and>
     def_member a = def_member b"
proof -
  obtain ga ma ka va where da: "HeapType_Def a = (ga, ma, ka, va)" by (cases "HeapType_Def a") auto
  obtain gb mb kb vb where db: "HeapType_Def b = (gb, mb, kb, vb)" by (cases "HeapType_Def b") auto
  have g: "ga = ti_Index (HeapType_Type a)" "gb = ti_Index (HeapType_Type b)"
    using da db by (auto simp: HeapType_Def_def HeapType_Type_def)
  have ti: "HeapType_Type a = HeapType_Type b \<longleftrightarrow>
      ti_Index (HeapType_Type a) = ti_Index (HeapType_Type b) \<and> ti_Rec (HeapType_Type a) = ti_Rec (HeapType_Type b)"
    by (cases "HeapType_Type a"; cases "HeapType_Type b") simp
  show ?thesis
    unfolding equalHeapType_def def_member_def da db ti prod.case
    by (cases "HeapType_Kind a = HeapType_Kind b"; cases va; cases vb; simp; auto simp: g)
qed

lemma valKey_decides: "writeCanonicalValTypeKey a = writeCanonicalValTypeKey b \<longleftrightarrow> equalValType a b"
proof (cases "ValType_Kind a = ValRef \<and> ValType_Kind b = ValRef")
  case True
  then have "equalValType a b \<longleftrightarrow> ref_observed a = ref_observed b"
    by (simp add: equalValType_def equalRefType_def equalHeapType_observed ref_observed_def Let_def; blast)
  then show ?thesis using True valKey_ref_decides by simp
next
  case False
  have "hd (writeCanonicalValTypeKey t) = ucast (val_kind_code (ValType_Kind t))" for t
    by (simp add: writeCanonicalValTypeKey_def Let_def split: prod.splits)
  then have "ValType_Kind a = ValType_Kind b" if "writeCanonicalValTypeKey a = writeCanonicalValTypeKey b"
    using that by (metis kind_codes_inj(1))
  moreover have "writeCanonicalValTypeKey a = writeCanonicalValTypeKey b \<longleftrightarrow> equalValType a b"
    if "ValType_Kind a = ValType_Kind b"
    using False that by (auto simp: writeCanonicalValTypeKey_def equalValType_def Let_def)
  ultimately show ?thesis by (auto simp: equalValType_def)
qed

lemma concat_blocks_eq:
  assumes "length xs = length ys" "\<And>x. length (f x) = n"
  shows "concat (map f xs) = concat (map f ys) \<longleftrightarrow> list_all2 (\<lambda>x y. f x = f y) xs ys"
  using assms(1) by (induction rule: list_induct2) (auto simp: assms(2) append_eq_append_conv)

lemma concat_blocks_length: "(\<And>x. length (f x) = n) \<Longrightarrow> length (concat (map f xs)) = n * length xs"
  by (induction xs) auto

text \<open>Signatures of representable arity: slices are shorter than \<open>2^63\<close>.\<close>

definition sig_fits :: "CompType \<Rightarrow> bool" where
  "sig_fits ct = (length (ct_Params ct) < 2 ^ 63 \<and> length (ct_Results ct) < 2 ^ 63)"

lemma count_eq: "x < 2 ^ 63 \<Longrightarrow> y < 2 ^ 63 \<Longrightarrow> putLE 8 (of_nat x :: u64) = putLE 8 (of_nat y :: u64) \<longleftrightarrow> x = y"
proof -
  assume "x < 2 ^ 63" "y < 2 ^ 63"
  then have u: "unat (of_nat x :: u64) = x" "unat (of_nat y :: u64) = y"
    by (intro unat_of_nat_small; simp)+
  have eq: "putLE 8 (of_nat x :: u64) = putLE 8 (of_nat y :: u64) \<longleftrightarrow> (of_nat x :: u64) = of_nat y"
    by (rule putLE_eq_iff) simp
  show ?thesis unfolding eq by (metis u)
qed

lemma funcKey_decides:
  assumes "ct_Kind a = CompFunc" "ct_Kind b = CompFunc" "sig_fits a" "sig_fits b"
  shows "canonicalFuncTypeKey a = canonicalFuncTypeKey b \<longleftrightarrow> FuncTypeEqual a b"
proof -
  let ?k = writeCanonicalValTypeKey
  have p: "length (ct_Params a) = length (ct_Params b)" if "canonicalFuncTypeKey a = canonicalFuncTypeKey b"
    using that assms(3,4) count_eq unfolding canonicalFuncTypeKey_def sig_fits_def
    by (simp add: append_eq_append_conv)
  have "canonicalFuncTypeKey a = canonicalFuncTypeKey b \<longleftrightarrow>
      length (ct_Results a) = length (ct_Results b) \<and> concat (map ?k (ct_Params a)) = concat (map ?k (ct_Params b)) \<and>
      concat (map ?k (ct_Results a)) = concat (map ?k (ct_Results b))" if "length (ct_Params a) = length (ct_Params b)"
    using that assms(3,4) count_eq concat_blocks_length [of ?k 16] unfolding canonicalFuncTypeKey_def sig_fits_def
    by (simp add: append_eq_append_conv) blast
  then show ?thesis using p assms(1,2) concat_blocks_eq [where f = ?k and n = 16]
    by (auto simp: FuncTypeEqual_def valKey_decides)
qed

section \<open>The table of first signatures\<close>

abbreviation is_func :: "SubType \<Rightarrow> bool" where
  "is_func st \<equiv> ct_Kind (st_Comp st) = CompFunc"

definition first_key :: "SubType list \<Rightarrow> byte list \<Rightarrow> nat" where
  "first_key sts k = length (takeWhile (\<lambda>st. \<not> (is_func st \<and> canonicalFuncTypeKey (st_Comp st) = k)) sts)"

definition key_id :: "SubType list \<Rightarrow> nat \<Rightarrow> u32" where
  "key_id sts i = (if is_func (sts ! i) then of_nat (first_key sts (canonicalFuncTypeKey (st_Comp (sts ! i)))) else of_nat i)"

definition seen_ok :: "SubType list \<Rightarrow> (byte list \<times> u32) list \<Rightarrow> bool" where
  "seen_ok ps seen = (\<forall>k. map_of seen k =
     (if \<exists>st \<in> set ps. is_func st \<and> canonicalFuncTypeKey (st_Comp st) = k then Some (of_nat (first_key ps k)) else None))"

lemma first_key_append:
  "first_key (ps @ qs) k = (if \<exists>st \<in> set ps. is_func st \<and> canonicalFuncTypeKey (st_Comp st) = k then first_key ps k
     else length ps + first_key qs k)"
  by (induction ps) (auto simp: first_key_def)

lemma first_key_Cons: "first_key (st # sts) k =
   (if is_func st \<and> canonicalFuncTypeKey (st_Comp st) = k then 0 else Suc (first_key sts k))"
  by (simp add: first_key_def)

lemma seen_ok_snoc:
  assumes "seen_ok ps seen"
  shows "\<not> is_func st \<Longrightarrow> seen_ok (ps @ [st]) seen"
    "is_func st \<Longrightarrow> map_of seen (canonicalFuncTypeKey (st_Comp st)) \<noteq> None \<Longrightarrow> seen_ok (ps @ [st]) seen"
    "is_func st \<Longrightarrow> map_of seen (canonicalFuncTypeKey (st_Comp st)) = None \<Longrightarrow>
       seen_ok (ps @ [st]) ((canonicalFuncTypeKey (st_Comp st), of_nat (length ps)) # seen)"
  using assms unfolding seen_ok_def by (auto simp: first_key_append first_key_Cons split: if_splits)

lemma assignCanonicalIDs_length [simp]: "length (assignCanonicalIDs i sts seen) = length sts"
  by (induction sts arbitrary: i seen) (auto simp: Let_def split: option.splits)

lemma assignCanonicalIDs_nth:
  "seen_ok ps seen \<Longrightarrow> j < length sts \<Longrightarrow> assignCanonicalIDs (length ps) sts seen ! j = key_id (ps @ sts) (length ps + j)"
proof (induction sts arbitrary: ps seen j)
  case (Cons st sts)
  let ?k = "canonicalFuncTypeKey (st_Comp st)"
  define seen' where "seen' = (if is_func st \<and> map_of seen ?k = None then (?k, of_nat (length ps)) # seen else seen)"
  have ok: "seen_ok (ps @ [st]) seen'" using seen_ok_snoc [OF Cons.prems(1)] by (auto simp: seen'_def)
  have hd: "key_id (ps @ st # sts) (length ps) =
      (if is_func st then (case map_of seen ?k of Some first \<Rightarrow> first | None \<Rightarrow> of_nat (length ps)) else of_nat (length ps))"
    using Cons.prems(1) unfolding seen_ok_def key_id_def by (auto simp: first_key_append first_key_Cons)
  have "assignCanonicalIDs (length ps) (st # sts) seen = key_id (ps @ st # sts) (length ps) # assignCanonicalIDs (Suc (length ps)) sts seen'"
    unfolding hd by (auto simp: seen'_def Let_def split: option.splits)
  then show ?case
  proof (cases j)
    case (Suc i)
    then show ?thesis using Cons.IH [OF ok, of i] Cons.prems(2) \<open>assignCanonicalIDs (length ps) (st # sts) seen = _\<close> by simp
  qed simp
qed simp

lemma identicalPrefix_equal:
  "i < identicalPrefix first sts \<Longrightarrow> FuncTypeEqual first (st_Comp (sts ! i))" "identicalPrefix first sts \<le> length sts"
proof (induction sts arbitrary: i)
  case (Cons st sts)
  {
    case 1
    then show ?case using Cons.IH(1) by (cases i) (auto split: if_splits)
  next
    case 2
    then show ?case using Cons.IH(2) by simp
  }
qed simp_all

text \<open>The prefix shortcut writes the same identifiers as the table.\<close>

lemma canonicalIDs_nth:
  assumes "i < length sts" "list_all (\<lambda>st. sig_fits (st_Comp st)) sts"
  shows "canonicalIDs sts ! i = key_id sts i"
proof -
  let ?first = "st_Comp (sts ! 0)"
  define prefix where "prefix = (if ct_Kind ?first = CompFunc then Suc (identicalPrefix ?first (tl sts)) else 0)"
  define seen where "seen = (if prefix \<noteq> 0 then [(canonicalFuncTypeKey ?first, 0 :: u32)] else [])"
  have ids: "canonicalIDs sts = (if prefix = length sts then replicate (length sts) 0 else replicate prefix 0 @ assignCanonicalIDs prefix (drop prefix sts) seen)"
    by (simp add: canonicalIDs_def prefix_def seen_def Let_def)
  have le: "prefix \<le> length sts" using assms(1) identicalPrefix_equal(2) [of ?first "tl sts"] by (auto simp: prefix_def)
  have pre: "is_func (sts ! j) \<and> canonicalFuncTypeKey (st_Comp (sts ! j)) = canonicalFuncTypeKey ?first \<and> is_func (sts ! 0)" if "j < prefix" for j
  proof -
    have f: "is_func (sts ! 0)" using that by (auto simp: prefix_def split: if_splits)
    show ?thesis
    proof (cases j)
      case (Suc i)
      have jl: "0 < length sts" "j < length sts" using that le by auto
      then have eq: "FuncTypeEqual ?first (st_Comp (sts ! j))"
        using that f Suc identicalPrefix_equal(1) [of i ?first "tl sts"] by (simp add: prefix_def nth_tl)
      then have fj: "is_func (sts ! j)" by (simp add: FuncTypeEqual_def split: if_splits)
      have "sig_fits ?first" "sig_fits (st_Comp (sts ! j))" using assms(2) jl by (simp_all add: list_all_length)
      from funcKey_decides [OF f fj this] show ?thesis using eq f fj by simp
    qed (use f in simp)
  qed
  have zero: "key_id sts j = 0" if "j < prefix" for j
  proof -
    obtain st rest where "sts = st # rest" using assms(1) by (cases sts) auto
    then show ?thesis using pre [OF that] by (simp add: key_id_def first_key_Cons)
  qed
  show ?thesis
  proof (cases "i < prefix")
    case True
    then show ?thesis using zero le ids by (simp add: nth_append)
  next
    case False
    have "seen_ok (take prefix sts) seen"
    proof (cases "prefix = 0")
      case False
      then obtain st rest where st: "sts = st # rest" using assms(1) by (cases sts) auto
      have all: "is_func x \<and> canonicalFuncTypeKey (st_Comp x) = canonicalFuncTypeKey ?first" if x: "x \<in> set (take prefix sts)" for x
      proof -
        obtain j where "j < prefix" "x = sts ! j" using x by (auto simp: in_set_conv_nth)
        then show ?thesis using pre by blast
      qed
      moreover have "sts ! 0 \<in> set (take prefix sts)" using False st by (cases prefix) auto
      moreover have "first_key (take prefix sts) (canonicalFuncTypeKey ?first) = 0"
        using False st pre [of 0] by (cases prefix) (simp_all add: first_key_Cons)
      ultimately have "(\<exists>x \<in> set (take prefix sts). is_func x \<and> canonicalFuncTypeKey (st_Comp x) = k) = (k = canonicalFuncTypeKey ?first)" for k
        by blast
      then show ?thesis using False \<open>first_key _ _ = 0\<close> unfolding seen_ok_def seen_def by simp
    qed (simp add: seen_ok_def seen_def)
    moreover have "i - prefix < length (drop prefix sts)" "length (take prefix sts) = prefix" using False assms(1) le by simp_all
    ultimately have "assignCanonicalIDs prefix (drop prefix sts) seen ! (i - prefix) = key_id sts (prefix + (i - prefix))"
      using assignCanonicalIDs_nth [of "take prefix sts" seen "i - prefix" "drop prefix sts"] by (simp only: append_take_drop_id)
    then show ?thesis using False assms(1) le ids by (simp add: nth_append)
  qed
qed

section \<open>Canonical identifiers\<close>

definition first_equal :: "SubType list \<Rightarrow> CompType \<Rightarrow> nat" where
  "first_equal sts target = length (takeWhile (\<lambda>st. \<not> FuncTypeEqual (st_Comp st) target) sts)"

lemma first_key_equal:
  assumes "list_all (\<lambda>st. sig_fits (st_Comp st)) sts" "ct_Kind target = CompFunc" "sig_fits target"
  shows "first_key sts (canonicalFuncTypeKey target) = first_equal sts target"
proof -
  have "(is_func st \<and> canonicalFuncTypeKey (st_Comp st) = canonicalFuncTypeKey target) = FuncTypeEqual (st_Comp st) target"
    if "st \<in> set sts" for st
    using that assms funcKey_decides [of "st_Comp st" target] by (auto simp: list_all_iff FuncTypeEqual_def)
  then show ?thesis unfolding first_key_def first_equal_def by (intro arg_cong [where f = length] takeWhile_cong) auto
qed

lemma scanSignatures_first:
  assumes "\<And>i. i < n \<Longrightarrow> TypeFunc m (of_nat i) = (if is_func (sts ! i) then Some (st_Comp (sts ! i)) else None)"
    and "n = length sts" "k \<le> n"
  shows "scanSignatures m target typeIdx [k..<n] =
    (if \<exists>i. k \<le> i \<and> i < n \<and> FuncTypeEqual (st_Comp (sts ! i)) target
     then of_nat (k + first_equal (drop k sts) target) else typeIdx)"
  using assms(3)
proof (induction k rule: inc_induct)
  case (step k)
  have "FuncTypeEqual (st_Comp (sts ! k)) target \<Longrightarrow> is_func (sts ! k)" by (auto simp: FuncTypeEqual_def split: if_splits)
  moreover have "drop k sts = sts ! k # drop (Suc k) sts" using step assms(2) by (simp add: Cons_nth_drop_Suc)
  moreover have "(\<exists>i\<ge>k. i < n \<and> P i) \<longleftrightarrow> P k \<or> (\<exists>i\<ge>Suc k. i < n \<and> P i)" for P
    using step.hyps by (metis Suc_leD Suc_leI le_neq_implies_less order_refl)
  ultimately show ?case using step assms(1) [of k] by (auto simp: upt_conv_Cons first_equal_def)
qed auto

lemma FuncTypeEqual_equivalence:
  assumes "sig_fits a" "sig_fits b" "sig_fits c"
  shows "ct_Kind a = CompFunc \<Longrightarrow> FuncTypeEqual a a" "FuncTypeEqual a b \<Longrightarrow> FuncTypeEqual b a"
    "FuncTypeEqual a b \<Longrightarrow> FuncTypeEqual b c \<Longrightarrow> FuncTypeEqual a c"
proof -
  have k: "FuncTypeEqual x y \<longleftrightarrow> ct_Kind x = CompFunc \<and> ct_Kind y = CompFunc \<and> canonicalFuncTypeKey x = canonicalFuncTypeKey y"
    if "sig_fits x" "sig_fits y" for x y
    using funcKey_decides [OF _ _ that] by (auto simp: FuncTypeEqual_def)
  show "ct_Kind a = CompFunc \<Longrightarrow> FuncTypeEqual a a" "FuncTypeEqual a b \<Longrightarrow> FuncTypeEqual b a"
    "FuncTypeEqual a b \<Longrightarrow> FuncTypeEqual b c \<Longrightarrow> FuncTypeEqual a c"
    using k assms by auto
qed

lemma TypeFunc_flat:
  assumes "group_base (m_Types m) (length (m_Types m)) < 2 ^ 32"
  shows "TypeFunc m t = (case nth_opt (map fst (dir_flat (typeIndex m))) (unat t) of
      None \<Rightarrow> None | Some st \<Rightarrow> if is_func st then Some (st_Comp st) else None)"
proof -
  have "group_base (m_Types m) (length (m_Types m)) < 2 ^ 63" using assms by simp
  then show ?thesis using subtype_lookup [OF group_sizes_bounded [where n = 63]]
    by (auto simp: TypeFunc_def typeFunc_def subtypeByTypeIdx_def nth_opt_def)
qed

lemma CanonicalTypeID_first:
  assumes "group_base (m_Types m) (length (m_Types m)) < 2 ^ 32"
    and "list_all (\<lambda>st. sig_fits (st_Comp st)) (map fst (dir_flat (typeIndex m)))"
    and "TypeFunc m t = Some target"
  shows "CanonicalTypeID m t = of_nat (first_equal (map fst (dir_flat (typeIndex m))) target)"
proof -
  let ?sts = "map fst (dir_flat (typeIndex m))"
  have len: "length ?sts = group_base (m_Types m) (length (m_Types m))" by (simp add: typeIndex_def flat_length)
  have t: "unat t < length ?sts" "is_func (?sts ! unat t)" "target = st_Comp (?sts ! unat t)"
    using assms(3) TypeFunc_flat [OF assms(1), of t] by (auto simp: nth_opt_def simp del: length_map nth_map split: if_splits)
  have fits: "sig_fits target" using assms(2) t by (simp add: list_all_length del: length_map nth_map)
  have self: "FuncTypeEqual target target" using FuncTypeEqual_equivalence(1) [OF fits fits fits] t by simp
  have small: "CanonicalTypeID m t = of_nat (first_equal ?sts target)" if "t \<noteq> 0" "length (m_Types m) \<le> 8" "length ?sts \<le> 8"
  proof -
    have fn: "TypeFunc m (of_nat i) = (if is_func (?sts ! i) then Some (st_Comp (?sts ! i)) else None)" if "i < length ?sts" for i
      using that TypeFunc_flat [OF assms(1), of "of_nat i"] assms(1) len by (simp add: nth_opt_def unat_of_nat_small del: length_map nth_map)
    have "CanonicalTypeID m t = scanSignatures m target t [0..<length ?sts]"
      using that assms(3) len by (simp add: CanonicalTypeID_def group_base_def)
    then show ?thesis using scanSignatures_first [OF fn refl, of 0 target t] t self by auto
  qed
  have large: "CanonicalTypeID m t = of_nat (first_equal ?sts target)" if "t \<noteq> 0" "\<not> (length (m_Types m) \<le> 8 \<and> length ?sts \<le> 8)"
    using that t assms(2) len canonicalIDs_nth [OF t(1) assms(2)] first_key_equal [OF assms(2), of target] fits
    by (auto simp add: CanonicalTypeID_def key_id_def Let_def group_base_def simp del: length_map nth_map)
  show ?thesis
  proof (cases "t = 0")
    case True
    have "FuncTypeEqual (st_Comp (?sts ! 0)) target" using True self t by simp
    moreover obtain st rest where "?sts = st # rest" using t(1) by (cases ?sts) auto
    ultimately have "first_equal ?sts target = 0" by (simp add: first_equal_def)
    then show ?thesis using True by (simp add: CanonicalTypeID_def)
  next
    case False
    then show ?thesis using small large by blast
  qed
qed

lemma of_nat_inj_small:
  "x < 2 ^ LENGTH('a) \<Longrightarrow> y < 2 ^ LENGTH('a) \<Longrightarrow> (of_nat x :: 'a::len word) = of_nat y \<longleftrightarrow> x = y"
  by (metis unat_of_nat_small)

lemma first_equal_nth:
  "st \<in> set sts \<Longrightarrow> FuncTypeEqual (st_Comp st) t \<Longrightarrow>
     first_equal sts t < length sts \<and> FuncTypeEqual (st_Comp (sts ! first_equal sts t)) t"
  by (induction sts) (auto simp: first_equal_def)

lemma first_equal_iff:
  assumes "list_all (\<lambda>st. sig_fits (st_Comp st)) sts" "s \<in> set sts" "t \<in> set sts" "is_func s" "is_func t"
  shows "first_equal sts (st_Comp s) = first_equal sts (st_Comp t) \<longleftrightarrow> FuncTypeEqual (st_Comp s) (st_Comp t)"
proof
  have fits: "sig_fits (st_Comp x)" if "x \<in> set sts" for x using assms(1) that by (auto simp: list_all_iff)
  note eqv = FuncTypeEqual_equivalence [OF fits fits fits]
  {
    assume eq: "first_equal sts (st_Comp s) = first_equal sts (st_Comp t)"
    have "FuncTypeEqual (st_Comp s) (st_Comp s)" "FuncTypeEqual (st_Comp t) (st_Comp t)" using eqv(1) assms(2-5) by blast+
    then have "first_equal sts (st_Comp s) < length sts" "FuncTypeEqual (st_Comp (sts ! first_equal sts (st_Comp s))) (st_Comp s)"
      "FuncTypeEqual (st_Comp (sts ! first_equal sts (st_Comp s))) (st_Comp t)"
      using first_equal_nth [OF assms(2)] first_equal_nth [OF assms(3)] eq by metis+
    then show "FuncTypeEqual (st_Comp s) (st_Comp t)" using eqv(2,3) assms(2,3) nth_mem by blast
  }
  assume "FuncTypeEqual (st_Comp s) (st_Comp t)"
  then have "FuncTypeEqual (st_Comp x) (st_Comp s) = FuncTypeEqual (st_Comp x) (st_Comp t)" if "x \<in> set sts" for x
    using that eqv(2,3) assms(2,3) by blast
  then show "first_equal sts (st_Comp s) = first_equal sts (st_Comp t)"
    unfolding first_equal_def by (intro arg_cong [where f = length] takeWhile_cong) auto
qed

lemma TypeFunc_member:
  assumes "group_base (m_Types m) (length (m_Types m)) < 2 ^ 32" "TypeFunc m i = Some f"
  obtains st where "st \<in> set (map fst (dir_flat (typeIndex m)))" "is_func st" "st_Comp st = f"
proof -
  let ?sts = "map fst (dir_flat (typeIndex m))"
  have "unat i < length ?sts" "is_func (?sts ! unat i)" "f = st_Comp (?sts ! unat i)"
    using assms(2) TypeFunc_flat [OF assms(1), of i] by (auto simp: nth_opt_def simp del: length_map nth_map split: if_splits)
  then show thesis using that nth_mem by metis
qed

section \<open>Properties\<close>

text \<open>
  C14. \<open>CanonicalTypeID\<close> is an exact identity for signatures: for every function type of the module it
  returns the index of the first declared signature equal to it, whether the section is scanned or
  the key table with its prefix shortcut is built, and two function types get the same identifier
  exactly when \<open>FuncTypeEqual\<close> says they are equal.
\<close>

theorem CanonicalTypeID_identifies_signatures:
  assumes "group_base (m_Types m) (length (m_Types m)) < 2 ^ 32"
    and "list_all (\<lambda>st. sig_fits (st_Comp st)) (map fst (dir_flat (typeIndex m)))"
    and "TypeFunc m s = Some fs" "TypeFunc m t = Some ft"
  shows "CanonicalTypeID m t = of_nat (first_equal (map fst (dir_flat (typeIndex m))) ft)
    \<and> (CanonicalTypeID m s = CanonicalTypeID m t \<longleftrightarrow> FuncTypeEqual fs ft)"
proof -
  let ?sts = "map fst (dir_flat (typeIndex m))"
  obtain ss st where "ss \<in> set ?sts" "is_func ss" "st_Comp ss = fs" "st \<in> set ?sts" "is_func st" "st_Comp st = ft"
    using TypeFunc_member [OF assms(1,3)] TypeFunc_member [OF assms(1,4)] by metis
  then have "first_equal ?sts fs = first_equal ?sts ft \<longleftrightarrow> FuncTypeEqual fs ft" using first_equal_iff [OF assms(2)] by blast
  moreover have "first_equal ?sts f < 2 ^ LENGTH(32)" for f
    using assms(1) length_takeWhile_le [of "\<lambda>st. \<not> FuncTypeEqual (st_Comp st) f" ?sts]
    by (simp add: first_equal_def typeIndex_def flat_length)
  ultimately show ?thesis
    using CanonicalTypeID_first [OF assms(1,2,3)] CanonicalTypeID_first [OF assms(1,2,4)] of_nat_inj_small by metis
qed

lemma CanonicalTypeID_identifies_signatures_witness:
  "let fn = \<lambda>ps rs. \<lparr>SubTypes = [\<lparr>st_Final = True, st_Supers = [], st_Metadata = noTypeMetadata,
         st_Comp = (zeroCompType CompFunc)\<lparr>ct_Params := ps, ct_Results := rs\<rparr>, st_HasPrefix = False\<rparr>]\<rparr>;
       m = emptyModule\<lparr>m_Types := replicate 8 (fn [I32] []) @ [fn [FuncRef] [], fn [RefVal (Ref True (AbsHeap HeapFunc) False)] []]\<rparr>
   in CanonicalTypeID m 9 = 8 \<and> CanonicalTypeID m 8 = CanonicalTypeID m 9 \<and> CanonicalTypeID m 7 \<noteq> CanonicalTypeID m 9"
proof -
  let ?fn = "\<lambda>ps rs. \<lparr>SubTypes = [\<lparr>st_Final = True, st_Supers = [], st_Metadata = noTypeMetadata,
         st_Comp = (zeroCompType CompFunc)\<lparr>ct_Params := ps, ct_Results := rs\<rparr>, st_HasPrefix = False\<rparr>]\<rparr>"
  let ?m = "emptyModule\<lparr>m_Types := replicate 8 (?fn [I32] []) @ [?fn [FuncRef] [], ?fn [RefVal (Ref True (AbsHeap HeapFunc) False)] []]\<rparr>"
  let ?ct = "\<lambda>p. (zeroCompType CompFunc)\<lparr>ct_Params := [p], ct_Results := []\<rparr>"
  have "list_all (\<lambda>st. length (ct_Params (st_Comp st)) < 5 \<and> length (ct_Results (st_Comp st)) < 5) (map fst (dir_flat (typeIndex ?m)))"
    by code_simp
  then have h2: "list_all (\<lambda>st. sig_fits (st_Comp st)) (map fst (dir_flat (typeIndex ?m)))"
    by (rule list.pred_mono_strong) (simp add: sig_fits_def)
  have h1: "group_base (m_Types ?m) (length (m_Types ?m)) < 2 ^ 32"
    by (simp add: group_base_def emptyModule_def sum_list_replicate)
  have fn: "TypeFunc ?m 7 = Some (?ct I32)" "TypeFunc ?m 8 = Some (?ct FuncRef)"
      "TypeFunc ?m 9 = Some (?ct (RefVal (Ref True (AbsHeap HeapFunc) False)))"
    and eq: "FuncTypeEqual (?ct FuncRef) (?ct (RefVal (Ref True (AbsHeap HeapFunc) False)))"
      "\<not> FuncTypeEqual (?ct I32) (?ct (RefVal (Ref True (AbsHeap HeapFunc) False)))"
      "first_equal (map fst (dir_flat (typeIndex ?m))) (?ct (RefVal (Ref True (AbsHeap HeapFunc) False))) = 8"
    by code_simp+
  have "CanonicalTypeID ?m 9 = of_nat 8"
    using CanonicalTypeID_identifies_signatures [OF h1 h2 fn(2,3), THEN conjunct1] unfolding eq(3) .
  moreover have "CanonicalTypeID ?m 8 = CanonicalTypeID ?m 9" "CanonicalTypeID ?m 7 \<noteq> CanonicalTypeID ?m 9"
    using CanonicalTypeID_identifies_signatures [OF h1 h2 fn(2,3), THEN conjunct2]
      CanonicalTypeID_identifies_signatures [OF h1 h2 fn(1,3), THEN conjunct2] eq(1,2) by blast+
  ultimately show ?thesis unfolding Let_def of_nat_numeral by blast
qed

end
