(* ===== verification/TypeEquiv.thy ===== *)
theory TypeEquiv
  imports Signatures
begin

text \<open>
  Structural equivalence of defined types (\<^verbatim>\<open>validate_gc_helpers.go\<close>, \<open>typeIdxEquivalentWithState\<close>). The
  code compares two members of recursive groups with a map of pair states that makes the recursion
  stop on pairs under comparison; the state outlives a successful root comparison and is rolled back
  after a failed one. The reference is the greatest relation closed under matching declarations. The
  lemmas show that the comparison ends after at most one visit per pair of types, that it decides
  the reference relation, and that every state it leaves behind is sound to share.
\<close>

section \<open>The validator's type directory\<close>

fun localTypeIndex :: "nat \<Rightarrow> RecType list \<Rightarrow> (SubType \<times> nat) list \<Rightarrow> moduleTypeIndexDirectory" where
  "localTypeIndex grp [] flat = \<lparr>dir_bases = [length flat], dir_flat = flat\<rparr>"
| "localTypeIndex grp (g # gs) flat =
     (let d = localTypeIndex (Suc grp) gs (flat @ map (\<lambda>st. (st, grp)) (SubTypes g))
      in d\<lparr>dir_bases := length flat # dir_bases d\<rparr>)"

definition ensureTypeIndex :: "Module \<Rightarrow> moduleTypeIndexDirectory" where
  "ensureTypeIndex m =
     (if length (m_Types m) \<le> 8 \<and> sum_list (map (\<lambda>g. length (SubTypes g)) (m_Types m)) \<le> 8
      then localTypeIndex 0 (m_Types m) [] else typeIndex m)"

definition subtypeByFlatTypeIdx :: "Module \<Rightarrow> nat \<Rightarrow> (SubType \<times> nat) option" where
  "subtypeByFlatTypeIdx m idx = (if idx \<ge> length (dir_flat (ensureTypeIndex m)) then None else Some (dir_flat (ensureTypeIndex m) ! idx))"

definition v_subtypeByTypeIdxWithRecGroup :: "Module \<Rightarrow> TypeIdx \<Rightarrow> (SubType \<times> nat) option" where
  "v_subtypeByTypeIdxWithRecGroup m idx = (if ti_Rec idx then None else subtypeByFlatTypeIdx m (unat (ti_Index idx)))"

definition validTypeIdx :: "Module \<Rightarrow> TypeIdx \<Rightarrow> bool" where
  "validTypeIdx m idx = (v_subtypeByTypeIdxWithRecGroup m idx \<noteq> None)"

definition v_flatTypeIdxInRecGroup :: "Module \<Rightarrow> TypeIdx \<Rightarrow> int \<Rightarrow> nat option" where
  "v_flatTypeIdxInRecGroup m idx recGroup =
     (if \<not> ti_Rec idx then (if \<not> validTypeIdx m idx then None else Some (unat (ti_Index idx)))
      else if recGroup < 0 \<or> recGroup \<ge> int (length (m_Types m)) \<or> ti_Index idx \<ge> of_nat (length (SubTypes (m_Types m ! nat recGroup)))
      then None
      else Some (dir_bases (ensureTypeIndex m) ! nat recGroup + unat (ti_Index idx)))"

definition groupLocation :: "Module \<Rightarrow> nat \<Rightarrow> (nat \<times> nat \<times> nat) option" where
  "groupLocation m flat =
     (let d = ensureTypeIndex m
      in if flat \<ge> length (dir_flat d) then None
         else let grp = snd (dir_flat d ! flat)
              in if grp + 1 \<ge> length (dir_bases d) then None
                 else Some (grp, flat - dir_bases d ! grp, dir_bases d ! grp))"

section \<open>The comparison\<close>

text \<open>
  Pair states: 0 unknown, 1 under comparison, 2 equal, 3 different. An action returns a truth value
  and the new state; \<open>None\<close> stands for running out of fuel.
\<close>

record eqState =
  es_state :: "nat \<times> nat \<Rightarrow> nat"
  es_introduced :: "(nat \<times> nat) list"

type_synonym eqAction = "eqState \<Rightarrow> (bool \<times> eqState) option"

definition retE :: "bool \<Rightarrow> eqAction" where
  "retE b s = Some (b, s)"

definition andE :: "eqAction \<Rightarrow> eqAction \<Rightarrow> eqAction" where
  "andE a b s = (case a s of None \<Rightarrow> None | Some (ok, s') \<Rightarrow> if ok then b s' else Some (False, s'))"

fun allE :: "eqAction list \<Rightarrow> eqAction" where
  "allE [] = retE True"
| "allE (a # as) = andE a (allE as)"

definition eqFlat :: "(nat \<Rightarrow> nat \<Rightarrow> eqAction) \<Rightarrow> Module \<Rightarrow> TypeIdx \<Rightarrow> TypeIdx \<Rightarrow> int \<Rightarrow> int \<Rightarrow> eqAction" where
  "eqFlat eqType m x y xGroup yGroup =
     (if ti_Rec x \<noteq> ti_Rec y then retE False
      else case (v_flatTypeIdxInRecGroup m x xGroup, v_flatTypeIdxInRecGroup m y yGroup) of
        (Some xi, Some yi) \<Rightarrow> eqType xi yi
      | _ \<Rightarrow> retE False)"

definition eqHeap :: "(nat \<Rightarrow> nat \<Rightarrow> eqAction) \<Rightarrow> Module \<Rightarrow> HeapType \<Rightarrow> HeapType \<Rightarrow> int \<Rightarrow> int \<Rightarrow> eqAction" where
  "eqHeap eqType m x y xGroup yGroup =
     (if HeapType_Kind x \<noteq> HeapType_Kind y then retE False
      else case HeapType_Kind x of
        HeapAbs \<Rightarrow> retE (HeapType_Abs x = HeapType_Abs y)
      | HeapTypeIndex \<Rightarrow> eqFlat eqType m (HeapType_Type x) (HeapType_Type y) xGroup yGroup
      | HeapDefType \<Rightarrow>
          (case (HeapType_Def x, HeapType_Def y) of ((xg, xi, _, xv), (yg, yi, _, yv)) \<Rightarrow>
             retE (xv = yv \<and> (\<not> xv \<or> xg = yg \<and> xi = yi)))
      | heapBottom \<Rightarrow> retE False)"

definition eqVal :: "(nat \<Rightarrow> nat \<Rightarrow> eqAction) \<Rightarrow> Module \<Rightarrow> int \<Rightarrow> int \<Rightarrow> ValType \<Rightarrow> ValType \<Rightarrow> eqAction" where
  "eqVal eqType m xGroup yGroup x y =
     (if ValType_Kind x \<noteq> ValType_Kind y \<or> ValType_Num x \<noteq> ValType_Num y then retE False
      else if ValType_Kind x \<noteq> ValRef then retE True
      else if Nullable (ValType_Ref x) \<noteq> Nullable (ValType_Ref y) \<or> Exact (ValType_Ref x) \<noteq> Exact (ValType_Ref y) then retE False
      else eqHeap eqType m (RefType_Heap (ValType_Ref x)) (RefType_Heap (ValType_Ref y)) xGroup yGroup)"

definition eqStorage :: "(nat \<Rightarrow> nat \<Rightarrow> eqAction) \<Rightarrow> Module \<Rightarrow> int \<Rightarrow> int \<Rightarrow> StorageType \<Rightarrow> StorageType \<Rightarrow> eqAction" where
  "eqStorage eqType m xGroup yGroup x y =
     (if Storage_Packed x \<noteq> Storage_Packed y \<or> Storage_Pack x \<noteq> Storage_Pack y then retE False
      else if Storage_Packed x then retE True
      else eqVal eqType m xGroup yGroup (Storage_Val x) (Storage_Val y))"

definition eqField :: "(nat \<Rightarrow> nat \<Rightarrow> eqAction) \<Rightarrow> Module \<Rightarrow> int \<Rightarrow> int \<Rightarrow> FieldType \<Rightarrow> FieldType \<Rightarrow> eqAction" where
  "eqField eqType m xGroup yGroup x y =
     (if Field_Mut x \<noteq> Field_Mut y then retE False
      else eqStorage eqType m xGroup yGroup (Field_Storage x) (Field_Storage y))"

definition eqOptionalType :: "(nat \<Rightarrow> nat \<Rightarrow> eqAction) \<Rightarrow> Module \<Rightarrow> int \<Rightarrow> int \<Rightarrow> OptionalTypeIdx \<Rightarrow> OptionalTypeIdx \<Rightarrow> eqAction" where
  "eqOptionalType eqType m xGroup yGroup x y =
     (case (OptionalTypeIdx_Get x, OptionalTypeIdx_Get y) of ((xv, xpresent), (yv, ypresent)) \<Rightarrow>
        if \<not> xpresent \<or> \<not> ypresent then retE (xpresent = ypresent)
        else eqFlat eqType m xv yv xGroup yGroup)"

definition eqComp :: "(nat \<Rightarrow> nat \<Rightarrow> eqAction) \<Rightarrow> Module \<Rightarrow> int \<Rightarrow> int \<Rightarrow> CompType \<Rightarrow> CompType \<Rightarrow> eqAction" where
  "eqComp eqType m xGroup yGroup x y =
     (case ct_Kind x of
        CompFunc \<Rightarrow>
          if length (ct_Params x) \<noteq> length (ct_Params y) \<or> length (ct_Results x) \<noteq> length (ct_Results y) then retE False
          else andE (allE (map2 (eqVal eqType m xGroup yGroup) (ct_Params x) (ct_Params y)))
                    (allE (map2 (eqVal eqType m xGroup yGroup) (ct_Results x) (ct_Results y)))
      | CompStruct \<Rightarrow>
          if length (ct_Fields x) \<noteq> length (ct_Fields y) then retE False
          else allE (map2 (eqField eqType m xGroup yGroup) (ct_Fields x) (ct_Fields y))
      | CompArray \<Rightarrow> eqField eqType m xGroup yGroup (ct_Array x) (ct_Array y))"

definition setPair :: "nat \<times> nat \<Rightarrow> nat \<Rightarrow> eqState \<Rightarrow> eqState" where
  "setPair p c s = s\<lparr>es_state := (es_state s)(p := c)\<rparr>"

definition introduce :: "nat \<times> nat \<Rightarrow> eqState \<Rightarrow> eqState" where
  "introduce p s = setPair p 1 (s\<lparr>es_introduced := es_introduced s @ [p]\<rparr>)"

definition eqDeclarations ::
  "(nat \<Rightarrow> nat \<Rightarrow> eqAction) \<Rightarrow> Module \<Rightarrow> bool \<Rightarrow> nat \<Rightarrow> nat \<Rightarrow> nat \<Rightarrow> int \<Rightarrow> int \<Rightarrow> SubType \<Rightarrow> SubType \<Rightarrow> eqAction" where
  "eqDeclarations eqType m scanGroup size_x xBase yBase xGroup yGroup xs ys =
     andE (if scanGroup then allE (map (\<lambda>i. eqType (xBase + i) (yBase + i)) [0..<size_x]) else retE True)
     (andE (eqOptionalType eqType m xGroup yGroup (tm_Describes (st_Metadata xs)) (tm_Describes (st_Metadata ys)))
     (andE (eqOptionalType eqType m xGroup yGroup (tm_Descriptor (st_Metadata xs)) (tm_Descriptor (st_Metadata ys)))
     (andE (allE (map2 (\<lambda>a b. eqFlat eqType m a b xGroup yGroup) (st_Supers xs) (st_Supers ys)))
           (eqComp eqType m xGroup yGroup (st_Comp xs) (st_Comp ys)))))"

primrec eqType :: "nat \<Rightarrow> Module \<Rightarrow> nat \<Rightarrow> nat \<Rightarrow> eqAction" where
  "eqType 0 m x y s = None"
| "eqType (Suc fuel) m x y s =
     (if x = y then Some (True, s)
      else case (groupLocation m x, groupLocation m y) of
        (Some (xGroupLoc, xLocal, xBase), Some (yGroupLoc, yLocal, yBase)) \<Rightarrow>
          (let size_x = length (SubTypes (m_Types m ! xGroupLoc))
           in if xLocal \<noteq> yLocal \<or> size_x \<noteq> length (SubTypes (m_Types m ! yGroupLoc)) then Some (False, s)
           else if es_state s (x, y) = 1 \<or> es_state s (x, y) = 2 then Some (True, s)
           else if es_state s (x, y) = 3 then Some (False, s)
           else case (subtypeByFlatTypeIdx m x, subtypeByFlatTypeIdx m y) of
             (Some (xs, xGroup), Some (ys, yGroup)) \<Rightarrow>
               if st_Final xs \<noteq> st_Final ys \<or> length (st_Supers xs) \<noteq> length (st_Supers ys) \<or> ct_Kind (st_Comp xs) \<noteq> ct_Kind (st_Comp ys)
               then Some (False, s)
               else
                 (let scanGroup = (size_x > 1 \<and> es_state s (xBase, yBase) = 0);
                      body = eqDeclarations (eqType fuel m) m scanGroup size_x xBase yBase (int xGroup) (int yGroup) xs ys
                  in case body (introduce (x, y) s) of
                       None \<Rightarrow> None
                     | Some (ok, s') \<Rightarrow> Some (ok, setPair (x, y) (if ok then 2 else 3) s'))
           | _ \<Rightarrow> Some (False, s))
      | _ \<Rightarrow> Some (False, s))"

declare eqType.simps(2) [simp del]

text \<open>One visit per pair of types is enough fuel.\<close>

definition eqFuel :: "Module \<Rightarrow> nat" where
  "eqFuel m = Suc (length (dir_flat (ensureTypeIndex m)) * length (dir_flat (ensureTypeIndex m)))"

definition typeIdxEquivalentWithState :: "Module \<Rightarrow> TypeIdx \<Rightarrow> TypeIdx \<Rightarrow> (nat \<times> nat \<Rightarrow> nat) \<Rightarrow> (bool \<times> (nat \<times> nat \<Rightarrow> nat)) option" where
  "typeIdxEquivalentWithState m a b state =
     (case (v_flatTypeIdxInRecGroup m a (-1), v_flatTypeIdxInRecGroup m b (-1)) of
        (Some aFlat, Some bFlat) \<Rightarrow>
          (case eqType (eqFuel m) m aFlat bFlat \<lparr>es_state = state, es_introduced = []\<rparr> of
             None \<Rightarrow> None
           | Some (ok, s) \<Rightarrow>
               Some (ok, if ok then es_state s else fold (\<lambda>p st. st(p := 0)) (es_introduced s) (es_state s)))
      | _ \<Rightarrow> Some (False, state))"

definition typeIdxEquivalent :: "Module \<Rightarrow> TypeIdx \<Rightarrow> TypeIdx \<Rightarrow> bool option" where
  "typeIdxEquivalent m a b = map_option fst (typeIdxEquivalentWithState m a b (\<lambda>_. 0))"

section \<open>The directory\<close>

lemma localTypeIndex_eq:
  "dir_flat (localTypeIndex g gs fl) = fl @ dir_flat (typeIndexFrom g (length fl) gs)"
  "dir_bases (localTypeIndex g gs fl) = dir_bases (typeIndexFrom g (length fl) gs)"
  by (induction gs arbitrary: g fl) (auto simp: Let_def)

lemma ensureTypeIndex_eq: "ensureTypeIndex m = typeIndex m"
proof -
  have "localTypeIndex 0 (m_Types m) [] = typeIndex m"
    using localTypeIndex_eq [of 0 "m_Types m" "[]"] by (cases "typeIndex m"; cases "localTypeIndex 0 (m_Types m) []") (simp add: typeIndex_def)
  then show ?thesis by (simp add: ensureTypeIndex_def)
qed

lemma flat_position:
  "x < group_base gs (length gs) \<Longrightarrow> \<exists>k j. k < length gs \<and> j < length (SubTypes (gs ! k)) \<and> x = group_base gs k + j"
proof (induction gs arbitrary: x)
  case (Cons g gs)
  show ?case
  proof (cases "x < length (SubTypes g)")
    case True
    then show ?thesis by (intro exI [of _ 0] exI [of _ x]) (simp add: group_base_def)
  next
    case False
    then have "x - length (SubTypes g) < group_base gs (length gs)" using Cons.prems by (simp add: group_base_def)
    then obtain k j where "k < length gs" "j < length (SubTypes (gs ! k))" "x - length (SubTypes g) = group_base gs k + j"
      using Cons.IH by blast
    then show ?thesis using False by (intro exI [of _ "Suc k"] exI [of _ j]) (simp add: group_base_def)
  qed
qed (simp add: group_base_def)

lemma bases_length: "length (dir_bases (typeIndexFrom g t gs)) = Suc (length gs)"
  by (induction gs arbitrary: g t) (auto simp: Let_def)

abbreviation type_count :: "Module \<Rightarrow> nat" where
  "type_count m \<equiv> group_base (m_Types m) (length (m_Types m))"

lemma flat_count: "length (dir_flat (ensureTypeIndex m)) = type_count m"
  by (simp add: ensureTypeIndex_eq typeIndex_def flat_length)

lemma groupLocation_at:
  assumes "k < length (m_Types m)" "j < length (SubTypes (m_Types m ! k))"
  shows "groupLocation m (group_base (m_Types m) k + j) = Some (k, j, group_base (m_Types m) k)"
    "subtypeByFlatTypeIdx m (group_base (m_Types m) k + j) = Some (SubTypes (m_Types m ! k) ! j, k)"
    "group_base (m_Types m) k + j < type_count m"
proof -
  show lt: "group_base (m_Types m) k + j < type_count m" using group_base_le [OF assms(1)] assms(2) by simp
  have "dir_flat (typeIndex m) ! (group_base (m_Types m) k + j) = (SubTypes (m_Types m ! k) ! j, k)"
    using flat_nth [OF assms, of 0 0] by (simp add: typeIndex_def)
  then show "subtypeByFlatTypeIdx m (group_base (m_Types m) k + j) = Some (SubTypes (m_Types m ! k) ! j, k)"
    "groupLocation m (group_base (m_Types m) k + j) = Some (k, j, group_base (m_Types m) k)"
    using lt assms(1) flat_count [of m] bases_nth [of k "m_Types m" 0 0] bases_length [of 0 0 "m_Types m"]
    by (simp_all add: subtypeByFlatTypeIdx_def groupLocation_def ensureTypeIndex_eq Let_def typeIndex_def)
qed

lemma groupLocation_cases:
  assumes "groupLocation m x = Some (g, l, b)"
  shows "g < length (m_Types m)" "l < length (SubTypes (m_Types m ! g))" "b = group_base (m_Types m) g" "x = b + l" "x < type_count m"
proof -
  have "x < type_count m" using assms flat_count [of m] by (auto simp: groupLocation_def Let_def split: if_splits)
  then obtain k j where "k < length (m_Types m)" "j < length (SubTypes (m_Types m ! k))" "x = group_base (m_Types m) k + j"
    using flat_position by blast
  then show "g < length (m_Types m)" "l < length (SubTypes (m_Types m ! g))" "b = group_base (m_Types m) g" "x = b + l" "x < type_count m"
    using groupLocation_at [of k m j] assms by auto
qed

section \<open>The reference relation\<close>

text \<open>
  Two declarations match, given a relation \<open>R\<close> between the types they refer to. Equivalence is the
  greatest relation closed under matching of whole recursive groups.
\<close>

definition flat_match :: "Module \<Rightarrow> (nat \<Rightarrow> nat \<Rightarrow> bool) \<Rightarrow> int \<Rightarrow> int \<Rightarrow> TypeIdx \<Rightarrow> TypeIdx \<Rightarrow> bool" where
  "flat_match m R xGroup yGroup x y \<longleftrightarrow> ti_Rec x = ti_Rec y \<and>
     (\<exists>xi yi. v_flatTypeIdxInRecGroup m x xGroup = Some xi \<and> v_flatTypeIdxInRecGroup m y yGroup = Some yi \<and> R xi yi)"

definition heap_match :: "Module \<Rightarrow> (nat \<Rightarrow> nat \<Rightarrow> bool) \<Rightarrow> int \<Rightarrow> int \<Rightarrow> HeapType \<Rightarrow> HeapType \<Rightarrow> bool" where
  "heap_match m R xGroup yGroup x y \<longleftrightarrow> HeapType_Kind x = HeapType_Kind y \<and> HeapType_Kind x \<noteq> heapBottom \<and>
     (HeapType_Kind x = HeapAbs \<longrightarrow> HeapType_Abs x = HeapType_Abs y) \<and>
     (HeapType_Kind x = HeapTypeIndex \<longrightarrow> flat_match m R xGroup yGroup (HeapType_Type x) (HeapType_Type y)) \<and>
     (HeapType_Kind x = HeapDefType \<longrightarrow>
        (case (HeapType_Def x, HeapType_Def y) of ((xg, xi, _, xv), (yg, yi, _, yv)) \<Rightarrow> xv = yv \<and> (\<not> xv \<or> xg = yg \<and> xi = yi)))"

definition val_match :: "Module \<Rightarrow> (nat \<Rightarrow> nat \<Rightarrow> bool) \<Rightarrow> int \<Rightarrow> int \<Rightarrow> ValType \<Rightarrow> ValType \<Rightarrow> bool" where
  "val_match m R xGroup yGroup x y \<longleftrightarrow> ValType_Kind x = ValType_Kind y \<and> ValType_Num x = ValType_Num y \<and>
     (ValType_Kind x = ValRef \<longrightarrow>
        Nullable (ValType_Ref x) = Nullable (ValType_Ref y) \<and> Exact (ValType_Ref x) = Exact (ValType_Ref y) \<and>
        heap_match m R xGroup yGroup (RefType_Heap (ValType_Ref x)) (RefType_Heap (ValType_Ref y)))"

definition field_match :: "Module \<Rightarrow> (nat \<Rightarrow> nat \<Rightarrow> bool) \<Rightarrow> int \<Rightarrow> int \<Rightarrow> FieldType \<Rightarrow> FieldType \<Rightarrow> bool" where
  "field_match m R xGroup yGroup x y \<longleftrightarrow> Field_Mut x = Field_Mut y \<and>
     Storage_Packed (Field_Storage x) = Storage_Packed (Field_Storage y) \<and>
     Storage_Pack (Field_Storage x) = Storage_Pack (Field_Storage y) \<and>
     (\<not> Storage_Packed (Field_Storage x) \<longrightarrow>
        val_match m R xGroup yGroup (Storage_Val (Field_Storage x)) (Storage_Val (Field_Storage y)))"

definition optional_match :: "Module \<Rightarrow> (nat \<Rightarrow> nat \<Rightarrow> bool) \<Rightarrow> int \<Rightarrow> int \<Rightarrow> OptionalTypeIdx \<Rightarrow> OptionalTypeIdx \<Rightarrow> bool" where
  "optional_match m R xGroup yGroup x y \<longleftrightarrow> snd (OptionalTypeIdx_Get x) = snd (OptionalTypeIdx_Get y) \<and>
     (snd (OptionalTypeIdx_Get x) \<longrightarrow> flat_match m R xGroup yGroup (fst (OptionalTypeIdx_Get x)) (fst (OptionalTypeIdx_Get y)))"

definition comp_match :: "Module \<Rightarrow> (nat \<Rightarrow> nat \<Rightarrow> bool) \<Rightarrow> int \<Rightarrow> int \<Rightarrow> CompType \<Rightarrow> CompType \<Rightarrow> bool" where
  "comp_match m R xGroup yGroup x y \<longleftrightarrow>
     (ct_Kind x = CompFunc \<longrightarrow> list_all2 (val_match m R xGroup yGroup) (ct_Params x) (ct_Params y) \<and>
        list_all2 (val_match m R xGroup yGroup) (ct_Results x) (ct_Results y)) \<and>
     (ct_Kind x = CompStruct \<longrightarrow> list_all2 (field_match m R xGroup yGroup) (ct_Fields x) (ct_Fields y)) \<and>
     (ct_Kind x = CompArray \<longrightarrow> field_match m R xGroup yGroup (ct_Array x) (ct_Array y))"

definition sub_match :: "Module \<Rightarrow> (nat \<Rightarrow> nat \<Rightarrow> bool) \<Rightarrow> int \<Rightarrow> int \<Rightarrow> SubType \<Rightarrow> SubType \<Rightarrow> bool" where
  "sub_match m R xGroup yGroup xs ys \<longleftrightarrow> st_Final xs = st_Final ys \<and> ct_Kind (st_Comp xs) = ct_Kind (st_Comp ys) \<and>
     optional_match m R xGroup yGroup (tm_Describes (st_Metadata xs)) (tm_Describes (st_Metadata ys)) \<and>
     optional_match m R xGroup yGroup (tm_Descriptor (st_Metadata xs)) (tm_Descriptor (st_Metadata ys)) \<and>
     list_all2 (flat_match m R xGroup yGroup) (st_Supers xs) (st_Supers ys) \<and>
     comp_match m R xGroup yGroup (st_Comp xs) (st_Comp ys)"

definition type_match :: "Module \<Rightarrow> (nat \<Rightarrow> nat \<Rightarrow> bool) \<Rightarrow> nat \<Rightarrow> nat \<Rightarrow> bool" where
  "type_match m R x y \<longleftrightarrow>
     (\<exists>g h l. g < length (m_Types m) \<and> h < length (m_Types m) \<and>
        x = group_base (m_Types m) g + l \<and> y = group_base (m_Types m) h + l \<and>
        l < length (SubTypes (m_Types m ! g)) \<and> length (SubTypes (m_Types m ! g)) = length (SubTypes (m_Types m ! h)) \<and>
        (\<forall>i < length (SubTypes (m_Types m ! g)). R (group_base (m_Types m) g + i) (group_base (m_Types m) h + i)) \<and>
        sub_match m R (int g) (int h) (SubTypes (m_Types m ! g) ! l) (SubTypes (m_Types m ! h) ! l))"

named_theorems match_mono

lemma flat_match_mono [match_mono]: "flat_match m R g h x y \<Longrightarrow> (\<And>a b. R a b \<Longrightarrow> S a b) \<Longrightarrow> flat_match m S g h x y"
  by (auto simp: flat_match_def)

lemma heap_match_mono [match_mono]: "heap_match m R g h x y \<Longrightarrow> (\<And>a b. R a b \<Longrightarrow> S a b) \<Longrightarrow> heap_match m S g h x y"
  by (auto simp: heap_match_def intro: match_mono)

lemma val_match_mono [match_mono]: "val_match m R g h x y \<Longrightarrow> (\<And>a b. R a b \<Longrightarrow> S a b) \<Longrightarrow> val_match m S g h x y"
  by (auto simp: val_match_def intro: match_mono)

lemma field_match_mono [match_mono]: "field_match m R g h x y \<Longrightarrow> (\<And>a b. R a b \<Longrightarrow> S a b) \<Longrightarrow> field_match m S g h x y"
  by (auto simp: field_match_def intro: match_mono)

lemma optional_match_mono [match_mono]: "optional_match m R g h x y \<Longrightarrow> (\<And>a b. R a b \<Longrightarrow> S a b) \<Longrightarrow> optional_match m S g h x y"
  by (auto simp: optional_match_def intro: match_mono)

lemma comp_match_mono [match_mono]: "comp_match m R g h x y \<Longrightarrow> (\<And>a b. R a b \<Longrightarrow> S a b) \<Longrightarrow> comp_match m S g h x y"
  unfolding comp_match_def by (blast intro: match_mono list_all2_mono)

lemma sub_match_mono [match_mono]: "sub_match m R g h x y \<Longrightarrow> (\<And>a b. R a b \<Longrightarrow> S a b) \<Longrightarrow> sub_match m S g h x y"
  unfolding sub_match_def by (blast intro: match_mono list_all2_mono)

lemma type_match_mono [match_mono, mono]: "R \<le> S \<Longrightarrow> type_match m R x y \<longrightarrow> type_match m S x y"
  unfolding type_match_def by (blast intro: match_mono)

coinductive type_equiv :: "Module \<Rightarrow> nat \<Rightarrow> nat \<Rightarrow> bool" for m where
  equiv: "x = y \<or> type_match m (type_equiv m) x y \<Longrightarrow> type_equiv m x y"

section \<open>What an action does to the state\<close>

text \<open>
  \<open>assumed s\<close> relates the pairs the state takes as equal. A run never changes a known entry; when it
  succeeds, every new entry is \<open>equal\<close> and its declarations match up to \<open>assumed\<close>. The first pair of
  a group stands for the scan of the whole group.
\<close>

definition assumed :: "eqState \<Rightarrow> nat \<Rightarrow> nat \<Rightarrow> bool" where
  "assumed s x y \<longleftrightarrow> x = y \<or> es_state s (x, y) \<in> {1, 2}"

definition obliged :: "Module \<Rightarrow> (nat \<Rightarrow> nat \<Rightarrow> bool) \<Rightarrow> nat \<times> nat \<Rightarrow> bool" where
  "obliged m R p \<longleftrightarrow>
     (\<exists>g h l. g < length (m_Types m) \<and> h < length (m_Types m) \<and>
        fst p = group_base (m_Types m) g + l \<and> snd p = group_base (m_Types m) h + l \<and>
        l < length (SubTypes (m_Types m ! g)) \<and> length (SubTypes (m_Types m ! g)) = length (SubTypes (m_Types m ! h)) \<and>
        R (group_base (m_Types m) g) (group_base (m_Types m) h) \<and>
        (l = 0 \<longrightarrow> (\<forall>i < length (SubTypes (m_Types m ! g)). R (group_base (m_Types m) g + i) (group_base (m_Types m) h + i))) \<and>
        sub_match m R (int g) (int h) (SubTypes (m_Types m ! g) ! l) (SubTypes (m_Types m ! h) ! l))"

definition no_failure :: "eqState \<Rightarrow> bool" where
  "no_failure s \<longleftrightarrow> (\<forall>p. es_state s p \<noteq> 3 \<and> es_state s p \<le> 3)"

definition keeps :: "eqState \<Rightarrow> eqState \<Rightarrow> bool" where
  "keeps s s' \<longleftrightarrow> (\<forall>p. es_state s p \<noteq> 0 \<longrightarrow> es_state s' p = es_state s p)"

definition settles :: "Module \<Rightarrow> eqState \<Rightarrow> eqState \<Rightarrow> bool" where
  "settles m s s' \<longleftrightarrow> (\<forall>p. es_state s p = 0 \<and> es_state s' p \<noteq> 0 \<longrightarrow> es_state s' p = 2 \<and> obliged m (assumed s') p)"

definition decides :: "Module \<Rightarrow> eqAction \<Rightarrow> ((nat \<Rightarrow> nat \<Rightarrow> bool) \<Rightarrow> bool) \<Rightarrow> bool" where
  "decides m act Q \<longleftrightarrow>
     (\<forall>s b s'. no_failure s \<and> act s = Some (b, s') \<longrightarrow>
        keeps s s' \<and> (b \<longrightarrow> no_failure s' \<and> settles m s s' \<and> Q (assumed s')) \<and> (Q (type_equiv m) \<longrightarrow> b))"

definition mono_rel :: "((nat \<Rightarrow> nat \<Rightarrow> bool) \<Rightarrow> bool) \<Rightarrow> bool" where
  "mono_rel Q \<longleftrightarrow> (\<forall>R S. (\<forall>a b. R a b \<longrightarrow> S a b) \<longrightarrow> Q R \<longrightarrow> Q S)"

named_theorems decide_rules

lemma mono_relD: "mono_rel Q \<Longrightarrow> Q R \<Longrightarrow> (\<And>a b. R a b \<Longrightarrow> S a b) \<Longrightarrow> Q S"
  by (auto simp: mono_rel_def)

lemma keeps_assumed: "keeps s s' \<Longrightarrow> assumed s x y \<Longrightarrow> assumed s' x y"
  by (auto simp: keeps_def assumed_def)

lemma keeps_trans: "keeps s s' \<Longrightarrow> keeps s' s'' \<Longrightarrow> keeps s s''"
  by (auto simp: keeps_def)

lemma keeps_refl: "keeps s s"
  by (simp add: keeps_def)

lemma obliged_mono: "obliged m R p \<Longrightarrow> (\<And>a b. R a b \<Longrightarrow> S a b) \<Longrightarrow> obliged m S p"
  unfolding obliged_def by (blast intro: match_mono)

lemma settles_refl: "settles m s s"
  unfolding settles_def by blast

lemma settles_trans:
  assumes "settles m s s'" "settles m s' s''" "keeps s' s''"
  shows "settles m s s''"
  unfolding settles_def
proof (intro allI impI)
  fix p
  assume p: "es_state s p = 0 \<and> es_state s'' p \<noteq> 0"
  show "es_state s'' p = 2 \<and> obliged m (assumed s'') p"
  proof (cases "es_state s' p = 0")
    case False
    then have e: "es_state s' p = 2" and ob: "obliged m (assumed s') p" using p assms(1) unfolding settles_def by blast+
    have "es_state s'' p = 2" using e assms(3) unfolding keeps_def by (metis zero_neq_numeral)
    moreover have "obliged m (assumed s'') p" using ob by (rule obliged_mono) (rule keeps_assumed [OF assms(3)])
    ultimately show ?thesis by blast
  qed (use p assms(2) in \<open>unfold settles_def, blast\<close>)
qed

lemma decides_ret [decide_rules]: "decides m (retE b) (\<lambda>_. b)"
  by (auto simp: decides_def retE_def keeps_refl settles_def)

lemma decides_and [decide_rules]:
  assumes "decides m a P" "mono_rel P" "decides m b Q"
  shows "decides m (andE a b) (\<lambda>R. P R \<and> Q R)"
  unfolding decides_def
proof (intro allI impI, elim conjE)
  fix s ok s'
  assume s: "no_failure s" and run: "andE a b s = Some (ok, s')"
  obtain oka s1 where a: "a s = Some (oka, s1)" using run by (cases "a s") (auto simp: andE_def)
  note A = assms(1) [unfolded decides_def, rule_format, OF conjI [OF s a]]
  show "keeps s s' \<and> (ok \<longrightarrow> no_failure s' \<and> settles m s s' \<and> P (assumed s') \<and> Q (assumed s')) \<and>
      (P (type_equiv m) \<and> Q (type_equiv m) \<longrightarrow> ok)"
  proof (cases oka)
    case True
    then have b: "b s1 = Some (ok, s')" and s1: "no_failure s1" using run a A by (auto simp: andE_def)
    note B = assms(3) [unfolded decides_def, rule_format, OF conjI [OF s1 b]]
    have "P (assumed s')" using mono_relD [OF assms(2)] keeps_assumed A B True by blast
    then show ?thesis using A B True keeps_trans settles_trans by blast
  next
    case False
    then show ?thesis using run a A by (auto simp: andE_def)
  qed
qed

lemma decides_all:
  assumes "\<And>i. i < length as \<Longrightarrow> decides m (as ! i) (Q i) \<and> mono_rel (Q i)"
  shows "decides m (allE as) (\<lambda>R. \<forall>i < length as. Q i R) \<and> mono_rel (\<lambda>R. \<forall>i < length as. Q i R)"
  using assms
proof (induction as arbitrary: Q)
  case (Cons a as)
  have tl: "decides m (allE as) (\<lambda>R. \<forall>i < length as. Q (Suc i) R) \<and> mono_rel (\<lambda>R. \<forall>i < length as. Q (Suc i) R)"
    using Cons.prems [of "Suc _"] by (intro Cons.IH) auto
  have hd: "decides m a (Q 0)" "mono_rel (Q 0)" using Cons.prems [of 0] by auto
  have eq: "(\<lambda>R. \<forall>i < length (a # as). Q i R) = (\<lambda>R. Q 0 R \<and> (\<forall>i < length as. Q (Suc i) R))"
    by (rule ext) (simp add: All_less_Suc2)
  show ?case unfolding eq using decides_and [OF hd conjunct1 [OF tl]] hd(2) conjunct2 [OF tl]
    by (auto simp: mono_rel_def)
qed (auto simp: decides_def retE_def keeps_refl settles_def mono_rel_def)

lemma decides_map2:
  assumes "length xs = length ys" "\<And>x y. x \<in> set xs \<Longrightarrow> y \<in> set ys \<Longrightarrow> decides m (f x y) (\<lambda>R. Q R x y) \<and> mono_rel (\<lambda>R. Q R x y)"
  shows "decides m (allE (map2 f xs ys)) (\<lambda>R. list_all2 (Q R) xs ys) \<and> mono_rel (\<lambda>R. list_all2 (Q R) xs ys)"
  using decides_all [of "map2 f xs ys" m "\<lambda>i R. Q R (xs ! i) (ys ! i)"] assms
  by (simp add: list_all2_conv_all_nth)

lemma mono_matches [decide_rules]:
  "mono_rel (\<lambda>R. flat_match m R g h a b)" "mono_rel (\<lambda>R. heap_match m R g h x y)" "mono_rel (\<lambda>R. val_match m R g h v w)"
  "mono_rel (\<lambda>R. field_match m R g h f k)" "mono_rel (\<lambda>R. optional_match m R g h c d)" "mono_rel (\<lambda>R. comp_match m R g h u t)"
  "mono_rel (\<lambda>R. R i j)" "mono_rel (\<lambda>R. e)"
  by (auto simp: mono_rel_def intro: match_mono)

lemma mono_and [decide_rules]: "mono_rel P \<Longrightarrow> mono_rel Q \<Longrightarrow> mono_rel (\<lambda>R. P R \<and> Q R)"
  unfolding mono_rel_def by blast

lemma decides_const:
  assumes "\<exists>b. a = retE b \<and> (\<forall>R. Q R = b)"
  shows "decides m a Q"
proof -
  obtain b where "a = retE b" "Q = (\<lambda>_. b)" using assms by auto
  then show ?thesis using decides_ret by simp
qed

locale comparer =
  fixes m :: Module and eqt :: "nat \<Rightarrow> nat \<Rightarrow> eqAction"
  assumes eqt: "decides m (eqt x y) (\<lambda>R. R x y)"
begin

lemma decides_flat: "decides m (eqFlat eqt m x y g h) (\<lambda>R. flat_match m R g h x y)"
proof (cases "v_flatTypeIdxInRecGroup m x g = None \<or> v_flatTypeIdxInRecGroup m y h = None \<or> ti_Rec x \<noteq> ti_Rec y")
  case True
  then have "eqFlat eqt m x y g h = retE False" by (auto simp: eqFlat_def split: option.splits)
  then show ?thesis using True decides_ret [of m False] by (auto simp: flat_match_def)
next
  case False
  then obtain xi yi where "v_flatTypeIdxInRecGroup m x g = Some xi" "v_flatTypeIdxInRecGroup m y h = Some yi" by auto
  then show ?thesis using False eqt [of xi yi] by (simp add: eqFlat_def flat_match_def)
qed

lemma decides_heap: "decides m (eqHeap eqt m x y g h) (\<lambda>R. heap_match m R g h x y)"
proof (cases "HeapType_Kind x = HeapType_Kind y \<and> HeapType_Kind x = HeapTypeIndex")
  case True
  then have "HeapType_Kind x = HeapTypeIndex" "HeapType_Kind y = HeapTypeIndex" by auto
  then show ?thesis using decides_flat by (simp add: eqHeap_def heap_match_def)
next
  case False
  then have "\<exists>b. eqHeap eqt m x y g h = retE b \<and> (\<forall>R. heap_match m R g h x y = b)"
    by (cases "HeapType_Kind x") (auto simp: eqHeap_def heap_match_def split: prod.splits)
  then show ?thesis by (rule decides_const)
qed

lemma decides_val: "decides m (eqVal eqt m g h x y) (\<lambda>R. val_match m R g h x y)"
proof (cases "ValType_Kind x = ValRef \<and> ValType_Kind y = ValRef \<and> ValType_Num x = ValType_Num y \<and>
    Nullable (ValType_Ref x) = Nullable (ValType_Ref y) \<and> Exact (ValType_Ref x) = Exact (ValType_Ref y)")
  case True
  then show ?thesis using decides_heap by (simp add: eqVal_def val_match_def)
next
  case False
  then have "\<exists>b. eqVal eqt m g h x y = retE b \<and> (\<forall>R. val_match m R g h x y = b)"
    by (auto simp: eqVal_def val_match_def)
  then show ?thesis by (rule decides_const)
qed

lemma decides_field: "decides m (eqField eqt m g h x y) (\<lambda>R. field_match m R g h x y)"
proof (cases "Field_Mut x = Field_Mut y \<and> \<not> Storage_Packed (Field_Storage x) \<and> \<not> Storage_Packed (Field_Storage y) \<and>
    Storage_Pack (Field_Storage x) = Storage_Pack (Field_Storage y)")
  case True
  then show ?thesis using decides_val by (simp add: eqField_def eqStorage_def field_match_def)
next
  case False
  then have "\<exists>b. eqField eqt m g h x y = retE b \<and> (\<forall>R. field_match m R g h x y = b)"
    by (auto simp: eqField_def eqStorage_def field_match_def)
  then show ?thesis by (rule decides_const)
qed

lemma decides_optional: "decides m (eqOptionalType eqt m g h x y) (\<lambda>R. optional_match m R g h x y)"
proof (cases "snd (OptionalTypeIdx_Get x) \<and> snd (OptionalTypeIdx_Get y)")
  case True
  then show ?thesis using decides_flat by (simp add: eqOptionalType_def optional_match_def split_beta)
next
  case False
  then have "\<exists>b. eqOptionalType eqt m g h x y = retE b \<and> (\<forall>R. optional_match m R g h x y = b)"
    by (auto simp: eqOptionalType_def optional_match_def split_beta)
  then show ?thesis by (rule decides_const)
qed

lemma decides_supers:
  "length xs = length ys \<Longrightarrow>
     decides m (allE (map2 (\<lambda>a b. eqFlat eqt m a b g h) xs ys)) (\<lambda>R. list_all2 (flat_match m R g h) xs ys)"
  by (rule decides_map2 [THEN conjunct1]) (auto intro: decides_flat decide_rules)

lemma decides_comp:
  assumes "ct_Kind x = ct_Kind y"
  shows "decides m (eqComp eqt m g h x y) (\<lambda>R. comp_match m R g h x y)"
proof (cases "ct_Kind x")
  case CompArray
  then show ?thesis using decides_field by (simp add: eqComp_def comp_match_def)
next
  case CompStruct
  have "decides m (allE (map2 (eqField eqt m g h) (ct_Fields x) (ct_Fields y))) (\<lambda>R. list_all2 (field_match m R g h) (ct_Fields x) (ct_Fields y))"
    if "length (ct_Fields x) = length (ct_Fields y)"
    using that by (rule decides_map2 [THEN conjunct1]) (auto intro: decides_field decide_rules)
  moreover have "decides m (retE False) (\<lambda>R. list_all2 (field_match m R g h) (ct_Fields x) (ct_Fields y))"
    if "length (ct_Fields x) \<noteq> length (ct_Fields y)"
    using that by (intro decides_const) (auto dest: list_all2_lengthD)
  ultimately show ?thesis using CompStruct by (simp add: eqComp_def comp_match_def)
next
  case CompFunc
  have v: "decides m (allE (map2 (eqVal eqt m g h) xs ys)) (\<lambda>R. list_all2 (val_match m R g h) xs ys) \<and>
      mono_rel (\<lambda>R. list_all2 (val_match m R g h) xs ys)" if "length xs = length ys" for xs ys
    using that by (rule decides_map2) (auto intro: decides_val decide_rules)
  show ?thesis
  proof (cases "length (ct_Params x) = length (ct_Params y) \<and> length (ct_Results x) = length (ct_Results y)")
    case True
    then have "decides m (eqComp eqt m g h x y) (\<lambda>R. list_all2 (val_match m R g h) (ct_Params x) (ct_Params y) \<and>
        list_all2 (val_match m R g h) (ct_Results x) (ct_Results y))"
      using CompFunc v by (auto simp: eqComp_def intro: decides_and)
    then show ?thesis using CompFunc by (simp add: comp_match_def)
  next
    case False
    then have "eqComp eqt m g h x y = retE False" "comp_match m R g h x y = False" for R
      using CompFunc by (auto simp: eqComp_def comp_match_def dest: list_all2_lengthD)
    then show ?thesis using decides_ret [of m False] by simp
  qed
qed

lemma decides_declarations:
  assumes "length (st_Supers xs) = length (st_Supers ys)" "ct_Kind (st_Comp xs) = ct_Kind (st_Comp ys)" "st_Final xs = st_Final ys"
  shows "decides m (eqDeclarations eqt m scan n a b g h xs ys)
    (\<lambda>R. (scan \<longrightarrow> (\<forall>i < n. R (a + i) (b + i))) \<and> sub_match m R g h xs ys)"
proof -
  have all: "decides m (allE (map (\<lambda>i. eqt (a + i) (b + i)) [0..<n])) (\<lambda>R. \<forall>i < n. R (a + i) (b + i)) \<and>
      mono_rel (\<lambda>R. \<forall>i < n. R (a + i) (b + i))"
    using decides_all [of "map (\<lambda>i. eqt (a + i) (b + i)) [0..<n]" m "\<lambda>i R. R (a + i) (b + i)"] eqt
    by (simp add: decide_rules)
  have "decides m (if scan then allE (map (\<lambda>i. eqt (a + i) (b + i)) [0..<n]) else retE True)
      (\<lambda>R. scan \<longrightarrow> (\<forall>i < n. R (a + i) (b + i)))" "mono_rel (\<lambda>R. scan \<longrightarrow> (\<forall>i < n. R (a + i) (b + i)))"
    using all decides_ret [of m True] by (cases scan; simp add: mono_rel_def)+
  moreover have "mono_rel (\<lambda>R. list_all2 (flat_match m R g h) (st_Supers xs) (st_Supers ys))"
    unfolding mono_rel_def by (blast intro: match_mono list_all2_mono)
  ultimately have "decides m (eqDeclarations eqt m scan n a b g h xs ys)
    (\<lambda>R. (scan \<longrightarrow> (\<forall>i < n. R (a + i) (b + i))) \<and>
       optional_match m R g h (tm_Describes (st_Metadata xs)) (tm_Describes (st_Metadata ys)) \<and>
       optional_match m R g h (tm_Descriptor (st_Metadata xs)) (tm_Descriptor (st_Metadata ys)) \<and>
       list_all2 (flat_match m R g h) (st_Supers xs) (st_Supers ys) \<and> comp_match m R g h (st_Comp xs) (st_Comp ys))"
    unfolding eqDeclarations_def
    by (intro decides_and decides_optional decides_supers decides_comp decide_rules assms(1,2)) assumption+
  then show ?thesis using assms(2,3) by (simp add: sub_match_def)
qed

end

section \<open>The comparison decides the reference relation\<close>

lemma type_match_at:
  assumes "groupLocation m x = Some (g, l, b)" "groupLocation m y = Some (h, k, c)"
  shows "type_match m R x y \<longleftrightarrow> l = k \<and> length (SubTypes (m_Types m ! g)) = length (SubTypes (m_Types m ! h)) \<and>
    (\<forall>i < length (SubTypes (m_Types m ! g)). R (b + i) (c + i)) \<and>
    sub_match m R (int g) (int h) (SubTypes (m_Types m ! g) ! l) (SubTypes (m_Types m ! h) ! k)"
proof -
  note X = groupLocation_cases [OF assms(1)] and Y = groupLocation_cases [OF assms(2)]
  have ux: "g' = g \<and> l' = l" if "g' < length (m_Types m)" "l' < length (SubTypes (m_Types m ! g'))" "x = group_base (m_Types m) g' + l'" for g' l'
    using groupLocation_at(1) [OF that(1,2)] assms(1) that(3) by simp
  have uy: "h' = h \<and> l' = k" if "h' < length (m_Types m)" "l' < length (SubTypes (m_Types m ! h'))" "y = group_base (m_Types m) h' + l'" for h' l'
    using groupLocation_at(1) [OF that(1,2)] assms(2) that(3) by simp
  show ?thesis
  proof
    assume "type_match m R x y"
    then obtain g' h' l' where *: "g' < length (m_Types m)" "h' < length (m_Types m)" "x = group_base (m_Types m) g' + l'"
      "y = group_base (m_Types m) h' + l'" "l' < length (SubTypes (m_Types m ! g'))"
      "length (SubTypes (m_Types m ! g')) = length (SubTypes (m_Types m ! h'))"
      "\<forall>i < length (SubTypes (m_Types m ! g')). R (group_base (m_Types m) g' + i) (group_base (m_Types m) h' + i)"
      "sub_match m R (int g') (int h') (SubTypes (m_Types m ! g') ! l') (SubTypes (m_Types m ! h') ! l')"
      unfolding type_match_def by blast
    have "g' = g \<and> l' = l" "h' = h \<and> l' = k" using ux [of g' l'] uy [of h' l'] * by simp_all
    then show "l = k \<and> length (SubTypes (m_Types m ! g)) = length (SubTypes (m_Types m ! h)) \<and>
      (\<forall>i < length (SubTypes (m_Types m ! g)). R (b + i) (c + i)) \<and>
      sub_match m R (int g) (int h) (SubTypes (m_Types m ! g) ! l) (SubTypes (m_Types m ! h) ! k)"
      using * X Y by simp
  next
    assume *: "l = k \<and> length (SubTypes (m_Types m ! g)) = length (SubTypes (m_Types m ! h)) \<and>
      (\<forall>i < length (SubTypes (m_Types m ! g)). R (b + i) (c + i)) \<and>
      sub_match m R (int g) (int h) (SubTypes (m_Types m ! g) ! l) (SubTypes (m_Types m ! h) ! k)"
    show "type_match m R x y"
      unfolding type_match_def by (rule exI [of _ g], rule exI [of _ h], rule exI [of _ l]) (use * X Y in auto)
  qed
qed

lemma type_match_located:
  "type_match m R x y \<Longrightarrow> \<exists>g l b h k c. groupLocation m x = Some (g, l, b) \<and> groupLocation m y = Some (h, k, c)"
  unfolding type_match_def using groupLocation_at(1) by metis

lemma type_equiv_iff: "type_equiv m x y \<longleftrightarrow> x = y \<or> type_match m (type_equiv m) x y"
  using type_equiv.cases type_equiv.intros by metis

lemma type_equivI:
  assumes "R x y" and step: "\<And>x y. R x y \<Longrightarrow> x = y \<or> type_match m R x y"
  shows "type_equiv m x y"
  using assms(1)
proof (coinduct rule: type_equiv.coinduct)
  case (type_equiv a b)
  have "R \<le> (\<lambda>a b. R a b \<or> type_equiv m a b)" by (simp add: le_fun_def)
  then show ?case using step [OF type_equiv] type_match_mono [of R "\<lambda>a b. R a b \<or> type_equiv m a b" m a b] by blast
qed

lemma assumed_set_done:
  assumes "es_state s (x, y) = 1"
  shows "assumed (setPair (x, y) 2 s) = assumed s"
  using assms by (auto simp: assumed_def setPair_def fun_eq_iff)

text \<open>The step that opens a pair: running the declarations and recording the outcome.\<close>

lemma decides_open:
  assumes body: "decides m body (\<lambda>R. (scan \<longrightarrow> (\<forall>i < n. R (b + i) (c + i))) \<and> sub_match m R (int g) (int h) xs ys)"
    and loc: "groupLocation m x = Some (g, l, b)" "groupLocation m y = Some (h, l, c)"
    and sizes: "n = length (SubTypes (m_Types m ! g))" "n = length (SubTypes (m_Types m ! h))"
    and decl: "xs = SubTypes (m_Types m ! g) ! l" "ys = SubTypes (m_Types m ! h) ! l"
    and s: "no_failure s" "es_state s (x, y) = 0" and scan: "scan \<longleftrightarrow> n > 1 \<and> es_state s (b, c) = 0"
    and run: "body (introduce (x, y) s) = Some (ok, s2)"
  defines "s' \<equiv> setPair (x, y) (if ok then 2 else 3) s2"
  shows "keeps s s'" "ok \<Longrightarrow> no_failure s' \<and> settles m s s' \<and> assumed s' x y"
    "type_match m (type_equiv m) x y \<Longrightarrow> ok"
proof -
  let ?s1 = "introduce (x, y) s"
  note X = groupLocation_cases [OF loc(1)] and Y = groupLocation_cases [OF loc(2)]
  have s1: "es_state ?s1 q = (if q = (x, y) then 1 else es_state s q)" for q by (simp add: introduce_def setPair_def)
  then have "no_failure ?s1" using s(1) by (simp add: no_failure_def)
  note B = body [unfolded decides_def, rule_format, OF conjI [OF this run]]
  have s2: "es_state s2 (x, y) = 1" "\<And>q. es_state s q \<noteq> 0 \<Longrightarrow> es_state s2 q = es_state s q"
    using B s1 s(2) unfolding keeps_def by (metis one_neq_zero, metis)
  have s': "es_state s' q = (if q = (x, y) then if ok then 2 else 3 else es_state s2 q)" for q by (simp add: s'_def setPair_def)
  show "keeps s s'" using s2(2) s' s(2) unfolding keeps_def by metis
  show "type_match m (type_equiv m) x y \<Longrightarrow> ok"
    using B type_match_at [OF loc, of "type_equiv m"] sizes decl by auto
  assume ok: ok
  have as: "assumed s' = assumed s2" using assumed_set_done [OF s2(1)] ok by (simp add: s'_def)
  have xy: "assumed s' x y" using s2(1) by (simp add: as assumed_def)
  have lead: "assumed s' b c"
  proof (cases scan)
    case True
    then have "\<forall>i < n. assumed s2 (b + i) (c + i)" using B ok by simp
    from this [rule_format, of 0] show ?thesis using X(2) sizes(1) by (cases "SubTypes (m_Types m ! g)") (simp_all add: as)
  next
    case False
    then have "l = 0 \<or> es_state s (b, c) \<noteq> 0" using scan X(2) sizes(1) by auto
    moreover have "es_state s (b, c) \<in> {1, 2}" if "es_state s (b, c) \<noteq> 0"
      using that s(1) unfolding no_failure_def
      by (metis One_nat_def Suc_1 insertI1 insertI2 le_Suc_eq le_zero_eq numeral_3_eq_3)
    ultimately show ?thesis using xy X(4) Y(4) s2(2) [of "(b, c)"] by (auto simp: as assumed_def)
  qed
  have members: "\<forall>i < n. assumed s' (b + i) (c + i)" if "l = 0"
  proof (cases "n > 1")
    case True
    then have scan using that scan s(2) X(4) Y(4) by simp
    then show ?thesis using B ok by (simp add: as)
  next
    case False
    show ?thesis
    proof (intro allI impI)
      fix i
      assume "i < n"
      then have "i = 0" using False by simp
      then show "assumed s' (b + i) (c + i)" using lead by simp
    qed
  qed
  have "obliged m (assumed s') (x, y)"
    unfolding obliged_def
    by (rule exI [of _ g], rule exI [of _ h], rule exI [of _ l]) (use B ok X Y sizes decl lead members in \<open>simp add: as\<close>)
  moreover have "no_failure s'" using B ok s' unfolding no_failure_def by simp
  moreover have "es_state s' q = 2 \<and> obliged m (assumed s') q" if "es_state s q = 0" "es_state s' q \<noteq> 0" "q \<noteq> (x, y)" for q
  proof -
    have "settles m ?s1 s2" using B ok by blast
    moreover have "es_state ?s1 q = 0" "es_state s' q = es_state s2 q" using that s1 [of q] s' [of q] by simp_all
    ultimately show ?thesis using that(2) unfolding as settles_def by metis
  qed
  ultimately show "no_failure s' \<and> settles m s s' \<and> assumed s' x y" using xy s' ok unfolding settles_def by metis
qed

lemma decides_eqType: "decides m (eqType fuel m x y) (\<lambda>R. R x y)"
proof (induction fuel arbitrary: x y)
  case (Suc fuel)
  have cmp: "comparer m (eqType fuel m)" by unfold_locales (rule Suc.IH)
  show ?case
    unfolding decides_def
  proof (intro allI impI, elim conjE)
    fix s ok s'
    assume s: "no_failure s" and run: "eqType (Suc fuel) m x y s = Some (ok, s')"
    let ?goal = "keeps s s' \<and> (ok \<longrightarrow> no_failure s' \<and> settles m s s' \<and> assumed s' x y) \<and> (type_equiv m x y \<longrightarrow> ok)"
    have accept: ?goal if "s' = s" "ok" "assumed s x y" using that s by (simp add: keeps_refl settles_refl)
    have reject: ?goal if "s' = s" "\<not> ok" "x \<noteq> y" "\<not> type_match m (type_equiv m) x y"
      using that type_equiv_iff [of m x y] by (simp add: keeps_refl)
    show ?goal
    proof (cases "x = y \<or> groupLocation m x = None \<or> groupLocation m y = None")
      case True
      show ?thesis
      proof (cases "x = y")
        case False
        then have "eqType (Suc fuel) m x y s = Some (False, s)" using True by (auto simp: eqType.simps split: option.splits)
        then have "\<not> ok \<and> s' = s" using run by simp
        moreover have "\<not> type_match m (type_equiv m) x y" using True False type_match_located [of m "type_equiv m" x y] by auto
        ultimately show ?thesis using reject False by blast
      qed (use run accept in \<open>simp add: assumed_def eqType.simps\<close>)
    next
      case False
      then obtain g l b h k c where loc: "groupLocation m x = Some (g, l, b)" "groupLocation m y = Some (h, k, c)" by auto
      let ?n = "length (SubTypes (m_Types m ! g))" and ?xs = "SubTypes (m_Types m ! g) ! l" and ?ys = "SubTypes (m_Types m ! h) ! k"
      have sub: "subtypeByFlatTypeIdx m x = Some (?xs, g)" "subtypeByFlatTypeIdx m y = Some (?ys, h)"
        using groupLocation_at(2) groupLocation_cases [OF loc(1)] groupLocation_cases [OF loc(2)] by auto
      note at = type_match_at [OF loc, of "type_equiv m"]
      consider "l \<noteq> k \<or> ?n \<noteq> length (SubTypes (m_Types m ! h))"
        | "l = k" "?n = length (SubTypes (m_Types m ! h))" "es_state s (x, y) \<in> {1, 2}"
        | "l = k" "?n = length (SubTypes (m_Types m ! h))" "es_state s (x, y) = 0"
          "st_Final ?xs \<noteq> st_Final ?ys \<or> length (st_Supers ?xs) \<noteq> length (st_Supers ?ys) \<or> ct_Kind (st_Comp ?xs) \<noteq> ct_Kind (st_Comp ?ys)"
        | "l = k" "?n = length (SubTypes (m_Types m ! h))" "es_state s (x, y) = 0"
          "st_Final ?xs = st_Final ?ys" "length (st_Supers ?xs) = length (st_Supers ?ys)" "ct_Kind (st_Comp ?xs) = ct_Kind (st_Comp ?ys)"
        using s unfolding no_failure_def
        by (metis One_nat_def Suc_1 insertI1 insertI2 le_Suc_eq le_zero_eq numeral_3_eq_3)
      then show ?thesis
      proof cases
        case 1
        then have "eqType (Suc fuel) m x y s = Some (False, s)" using loc False by (auto simp: eqType.simps)
        then have "\<not> ok \<and> s' = s" using run by simp
        then show ?thesis using 1 False at reject by blast
      next
        case 2
        then have "eqType (Suc fuel) m x y s = Some (True, s)" using loc False by (auto simp: eqType.simps)
        then have "ok \<and> s' = s" using run by simp
        then show ?thesis using 2 accept by (simp add: assumed_def)
      next
        case 3
        then have "eqType (Suc fuel) m x y s = Some (False, s)" using loc sub False by (auto simp: eqType.simps)
        then have "\<not> ok \<and> s' = s" using run by simp
        moreover have "\<not> type_match m (type_equiv m) x y" using at 3(4) by (auto simp: sub_match_def dest: list_all2_lengthD)
        ultimately show ?thesis using False reject by blast
      next
        case 4
        let ?scan = "?n > 1 \<and> es_state s (b, c) = 0"
        let ?body = "eqDeclarations (eqType fuel m) m ?scan ?n b c (int g) (int h) ?xs ?ys"
        obtain s2 where b: "?body (introduce (x, y) s) = Some (ok, s2)" "s' = setPair (x, y) (if ok then 2 else 3) s2"
          using run loc sub False 4 by (auto simp: eqType.simps Let_def split: option.splits)
        note opened = decides_open [OF comparer.decides_declarations [OF cmp 4(5,6,4)] loc(1) loc(2) [folded 4(1)] refl 4(2) refl]
        show ?thesis using opened [OF _ s 4(3) refl b(1)] b(2) 4(1) type_equiv_iff [of m x y] False by auto
      qed
    qed
  qed
qed (simp add: decides_def)

section \<open>Termination\<close>

text \<open>
  A run only turns unknown entries into known ones and lists every entry it turns. Each opened pair
  leaves the finite set of unknown pairs for good, which bounds the depth of the recursion.
\<close>

definition unknown_pairs :: "Module \<Rightarrow> eqState \<Rightarrow> (nat \<times> nat) set" where
  "unknown_pairs m s = {p \<in> {..<type_count m} \<times> {..<type_count m}. es_state s p = 0}"

definition in_range :: "eqState \<Rightarrow> bool" where
  "in_range s \<longleftrightarrow> (\<forall>p. es_state s p \<le> 3)"

definition newly :: "eqState \<Rightarrow> eqState \<Rightarrow> (nat \<times> nat) set" where
  "newly s s' = {p. es_state s p = 0 \<and> es_state s' p \<noteq> 0}"

definition extends :: "eqState \<Rightarrow> eqState \<Rightarrow> bool" where
  "extends s s' \<longleftrightarrow> keeps s s' \<and> in_range s' \<and>
     (\<exists>ps. es_introduced s' = es_introduced s @ ps \<and> set ps = newly s s')"

definition runs :: "Module \<Rightarrow> nat \<Rightarrow> eqAction \<Rightarrow> bool" where
  "runs m n act \<longleftrightarrow> (\<forall>s. in_range s \<and> card (unknown_pairs m s) < n \<longrightarrow> (\<exists>b s'. act s = Some (b, s') \<and> extends s s'))"

named_theorems run_rules

lemma finite_unknown: "finite (unknown_pairs m s)"
  by (simp add: unknown_pairs_def)

lemma keepsD: "keeps s s' \<Longrightarrow> es_state s p \<noteq> 0 \<Longrightarrow> es_state s' p = es_state s p"
  unfolding keeps_def by blast

lemma newly_trans:
  assumes "keeps s s'" "keeps s' s''"
  shows "newly s s'' = newly s s' \<union> newly s' s''"
proof (rule set_eqI)
  fix p
  show "p \<in> newly s s'' \<longleftrightarrow> p \<in> newly s s' \<union> newly s' s''"
    using keepsD [OF assms(1), of p] keepsD [OF assms(2), of p] by (cases "es_state s p = 0"; cases "es_state s' p = 0") (simp_all add: newly_def)
qed

lemma extends_refl: "in_range s \<Longrightarrow> extends s s"
  unfolding extends_def by (intro conjI exI [of _ "[]"] keeps_refl) (auto simp: newly_def)

lemma extends_trans:
  assumes "extends s s'" "extends s' s''"
  shows "extends s s''"
proof -
  obtain ps qs where ps: "es_introduced s' = es_introduced s @ ps" "set ps = newly s s'"
    and qs: "es_introduced s'' = es_introduced s' @ qs" "set qs = newly s' s''"
    using assms unfolding extends_def by blast
  have k: "keeps s s'" "keeps s' s''" using assms unfolding extends_def by blast+
  have "set (ps @ qs) = newly s s''" using ps(2) qs(2) newly_trans [OF k] by simp
  then show ?thesis using assms(2) ps(1) qs(1) keeps_trans [OF k] unfolding extends_def by (metis append_assoc)
qed

lemma extends_unknown: "extends s s' \<Longrightarrow> card (unknown_pairs m s') \<le> card (unknown_pairs m s)"
  by (rule card_mono [OF finite_unknown]) (auto simp: unknown_pairs_def extends_def dest: keepsD)

lemma runs_ret [run_rules]: "runs m n (retE b)"
  by (simp add: runs_def retE_def extends_refl)

lemma runs_and [run_rules]:
  assumes "runs m n a" "runs m n b"
  shows "runs m n (andE a b)"
  unfolding runs_def
proof (intro allI impI)
  fix s
  assume s: "in_range s \<and> card (unknown_pairs m s) < n"
  then obtain oka s1 where a: "a s = Some (oka, s1)" "extends s s1" using assms(1) unfolding runs_def by blast
  then have "in_range s1 \<and> card (unknown_pairs m s1) < n" using extends_unknown [of s s1 m] s by (simp add: extends_def)
  then obtain okb s2 where "b s1 = Some (okb, s2)" "extends s1 s2" using assms(2) unfolding runs_def by blast
  then show "\<exists>ok s'. andE a b s = Some (ok, s') \<and> extends s s'" using a extends_trans [of s s1 s2] by (cases oka) (auto simp: andE_def)
qed

lemma runs_all [run_rules]: "(\<And>a. a \<in> set as \<Longrightarrow> runs m n a) \<Longrightarrow> runs m n (allE as)"
  by (induction as) (auto intro: run_rules)

lemma runs_if [run_rules]: "(c \<Longrightarrow> runs m n a) \<Longrightarrow> (\<not> c \<Longrightarrow> runs m n b) \<Longrightarrow> runs m n (if c then a else b)"
  by auto

locale terminating_comparer =
  fixes m :: Module and n :: nat and eqt :: "nat \<Rightarrow> nat \<Rightarrow> eqAction"
  assumes eqt_runs: "runs m n (eqt x y)"
begin

lemma runs_flat: "runs m n (eqFlat eqt m x y g h)"
  by (auto simp: eqFlat_def intro: run_rules eqt_runs split: option.splits)

lemma runs_val: "runs m n (eqVal eqt m g h x y)"
  by (cases "HeapType_Kind (RefType_Heap (ValType_Ref x))")
    (auto simp: eqVal_def eqHeap_def intro!: run_rules runs_flat split: prod.splits)

lemma runs_field: "runs m n (eqField eqt m g h x y)"
  by (auto simp: eqField_def eqStorage_def intro!: run_rules runs_val)

lemma runs_declarations: "runs m n (eqDeclarations eqt m scan k a b g h xs ys)"
  unfolding eqDeclarations_def eqOptionalType_def eqComp_def split_beta
  by (cases "ct_Kind (st_Comp xs)") (auto intro!: run_rules runs_flat runs_val runs_field eqt_runs)

end

lemma eqType_opened:
  assumes "\<nexists>b. eqType (Suc fuel) m x y s = Some (b, s)" "es_state s (x, y) \<le> 3"
  obtains scan n b c g h xs ys where "x < type_count m" "y < type_count m" "es_state s (x, y) = 0"
    "eqType (Suc fuel) m x y s =
       (case eqDeclarations (eqType fuel m) m scan n b c g h xs ys (introduce (x, y) s) of
          None \<Rightarrow> None
        | Some (ok, s') \<Rightarrow> Some (ok, setPair (x, y) (if ok then 2 else 3) s'))"
proof -
  obtain g l b h k c where loc: "groupLocation m x = Some (g, l, b)" "groupLocation m y = Some (h, k, c)"
    using assms(1) by (cases "groupLocation m x"; cases "groupLocation m y") (auto simp: eqType.simps split: if_splits)
  note X = groupLocation_cases [OF loc(1)] and Y = groupLocation_cases [OF loc(2)]
  have sub: "subtypeByFlatTypeIdx m x = Some (SubTypes (m_Types m ! g) ! l, g)" "subtypeByFlatTypeIdx m y = Some (SubTypes (m_Types m ! h) ! k, h)"
    using groupLocation_at(2) X Y by auto
  have "es_state s (x, y) = 0" using assms loc by (auto simp: eqType.simps Let_def sub split: if_splits)
  moreover note run = assms(1) [unfolded eqType.simps loc sub Let_def option.case prod.case]
  ultimately show ?thesis using X(5) Y(5)
    by (intro that [of "length (SubTypes (m_Types m ! g)) > 1 \<and> es_state s (b, c) = 0" "length (SubTypes (m_Types m ! g))" b c
        "int g" "int h" "SubTypes (m_Types m ! g) ! l" "SubTypes (m_Types m ! h) ! k"])
      (use assms(1) in \<open>auto simp: eqType.simps loc sub Let_def split: if_splits\<close>)
qed

lemma extends_open:
  assumes "es_state s p = 0" "extends (introduce p s) s2" "c \<in> {2, 3}"
  shows "extends s (setPair p c s2)"
proof -
  have i: "es_state (introduce p s) q = (if q = p then 1 else es_state s q)" for q by (simp add: introduce_def setPair_def)
  have f: "es_state (setPair p c s2) q = (if q = p then c else es_state s2 q)" for q by (simp add: setPair_def)
  obtain ps where ps: "es_introduced s2 = es_introduced (introduce p s) @ ps" "set ps = newly (introduce p s) s2"
    using assms(2) unfolding extends_def by blast
  have k: "keeps (introduce p s) s2" "in_range s2" using assms(2) unfolding extends_def by blast+
  have "q \<in> set (p # ps) \<longleftrightarrow> q \<in> newly s (setPair p c s2)" for q
    using ps(2) i [of q] f [of q] assms(1,3) by (cases "q = p") (auto simp: newly_def)
  then have "set (p # ps) = newly s (setPair p c s2)" by blast
  moreover have "es_state (setPair p c s2) q = es_state s q" if "es_state s q \<noteq> 0" for q
    using keepsD [OF k(1), of q] that i [of q] f [of q] assms(1) by (cases "q = p") auto
  then have "keeps s (setPair p c s2)" unfolding keeps_def by blast
  moreover have "es_introduced (setPair p c s2) = es_introduced s @ p # ps" using ps(1) by (simp add: setPair_def introduce_def)
  moreover have "es_state (setPair p c s2) q \<le> 3" for q using k(2) [unfolded in_range_def, rule_format, of q] assms(3) f [of q] by auto
  then have "in_range (setPair p c s2)" unfolding in_range_def by blast
  ultimately show ?thesis unfolding extends_def by blast
qed

lemma runs_eqType: "runs m fuel (eqType fuel m x y)"
proof (induction fuel arbitrary: x y)
  case (Suc fuel)
  have cmp: "terminating_comparer m fuel (eqType fuel m)" by unfold_locales (rule Suc.IH)
  have "\<exists>b s'. eqType (Suc fuel) m x y s = Some (b, s') \<and> extends s s'"
    if s: "in_range s" "card (unknown_pairs m s) < Suc fuel" for s
  proof (cases "\<exists>b. eqType (Suc fuel) m x y s = Some (b, s)")
    case False
    obtain scan n b c g h xs ys where open_pair: "x < type_count m" "y < type_count m" "es_state s (x, y) = 0"
      and run: "eqType (Suc fuel) m x y s =
       (case eqDeclarations (eqType fuel m) m scan n b c g h xs ys (introduce (x, y) s) of
          None \<Rightarrow> None
        | Some (ok, s') \<Rightarrow> Some (ok, setPair (x, y) (if ok then 2 else 3) s'))"
      by (rule eqType_opened [OF False]) (use s(1) in \<open>simp_all add: in_range_def\<close>)
    have "unknown_pairs m (introduce (x, y) s) = unknown_pairs m s - {(x, y)}"
      by (auto simp: unknown_pairs_def introduce_def setPair_def)
    moreover have "(x, y) \<in> unknown_pairs m s" using open_pair by (simp add: unknown_pairs_def)
    ultimately have "card (unknown_pairs m (introduce (x, y) s)) < fuel"
      using s(2) card_Diff1_less [OF finite_unknown, of "(x, y)" m s] by simp
    moreover have "in_range (introduce (x, y) s)" using s(1) by (simp add: in_range_def introduce_def setPair_def)
    ultimately obtain ok s2 where "eqDeclarations (eqType fuel m) m scan n b c g h xs ys (introduce (x, y) s) = Some (ok, s2)"
        "extends (introduce (x, y) s) s2"
      using terminating_comparer.runs_declarations [OF cmp] unfolding runs_def by blast
    then show ?thesis using run extends_open [OF open_pair(3)] by auto
  qed (use s extends_refl in blast)
  then show ?case unfolding runs_def by blast
qed (simp add: runs_def)

interpretation fueled: comparer m "eqType fuel m" for m fuel
  by unfold_locales (rule decides_eqType)

interpretation bounded: terminating_comparer m fuel "eqType fuel m" for m fuel
  by unfold_locales (rule runs_eqType)

section \<open>The outermost comparison\<close>

text \<open>Between two outermost calls the cache holds only pairs that are equivalent.\<close>

definition cache_valid :: "Module \<Rightarrow> (nat \<times> nat \<Rightarrow> nat) \<Rightarrow> bool" where
  "cache_valid m state \<longleftrightarrow> (\<forall>x y. state (x, y) = 0 \<or> state (x, y) = 2 \<and> type_equiv m x y)"

lemma obliged_at:
  assumes "obliged m R (x, y)" "groupLocation m x = Some (g, l, b)" "groupLocation m y = Some (h, k, c)"
  shows "l = k" "length (SubTypes (m_Types m ! g)) = length (SubTypes (m_Types m ! h))" "R b c"
    "l = 0 \<Longrightarrow> \<forall>i < length (SubTypes (m_Types m ! g)). R (b + i) (c + i)"
    "sub_match m R (int g) (int h) (SubTypes (m_Types m ! g) ! l) (SubTypes (m_Types m ! h) ! k)"
proof -
  obtain g' h' l' where *: "g' < length (m_Types m)" "h' < length (m_Types m)" "x = group_base (m_Types m) g' + l'"
    "y = group_base (m_Types m) h' + l'" "l' < length (SubTypes (m_Types m ! g'))"
    "length (SubTypes (m_Types m ! g')) = length (SubTypes (m_Types m ! h'))" "R (group_base (m_Types m) g') (group_base (m_Types m) h')"
    "l' = 0 \<longrightarrow> (\<forall>i < length (SubTypes (m_Types m ! g')). R (group_base (m_Types m) g' + i) (group_base (m_Types m) h' + i))"
    "sub_match m R (int g') (int h') (SubTypes (m_Types m ! g') ! l') (SubTypes (m_Types m ! h') ! l')"
    using assms(1) unfolding obliged_def fst_conv snd_conv by blast
  have "l' < length (SubTypes (m_Types m ! h'))" using *(5,6) by simp
  then have "g' = g \<and> l' = l \<and> b = group_base (m_Types m) g'" "h' = h \<and> l' = k \<and> c = group_base (m_Types m) h'"
    using groupLocation_at(1) [OF *(1,5)] groupLocation_at(1) [OF *(2), of l'] *(3,4) assms(2,3) by auto
  then show "l = k" "length (SubTypes (m_Types m ! g)) = length (SubTypes (m_Types m ! h))" "R b c"
    "l = 0 \<Longrightarrow> \<forall>i < length (SubTypes (m_Types m ! g)). R (b + i) (c + i)"
    "sub_match m R (int g) (int h) (SubTypes (m_Types m ! g) ! l) (SubTypes (m_Types m ! h) ! k)"
    using * by simp_all
qed

lemma obliged_located:
  "obliged m R (x, y) \<Longrightarrow> \<exists>g l b h k c. groupLocation m x = Some (g, l, b) \<and> groupLocation m y = Some (h, k, c)"
  unfolding obliged_def using groupLocation_at(1) by (metis fst_conv snd_conv)

lemma group_leader:
  assumes "groupLocation m x = Some (g, l, b)"
  shows "groupLocation m b = Some (g, 0, b)"
  using groupLocation_cases [OF assms] groupLocation_at(1) [of g m 0] by (cases "SubTypes (m_Types m ! g)") auto

lemma closed_match:
  assumes closed: "\<And>x y. R x y \<Longrightarrow> x = y \<or> obliged m R (x, y) \<or> type_match m R x y"
    and xy: "R x y" and refl_R: "\<And>x. R x x"
  shows "x = y \<or> type_match m R x y"
proof (cases "x = y \<or> type_match m R x y")
  case False
  then have ob: "obliged m R (x, y)" using closed [OF xy] by blast
  obtain g l b h k c where loc: "groupLocation m x = Some (g, l, b)" "groupLocation m y = Some (h, k, c)"
    using obliged_located [OF ob] by blast
  note O = obliged_at [OF ob loc] and lead = group_leader [OF loc(1)] group_leader [OF loc(2)]
  have "R (b + i) (c + i)" if "i < length (SubTypes (m_Types m ! g))" for i
    using closed [OF O(3)]
  proof (elim disjE)
    assume "obliged m R (b, c)"
    from obliged_at(4) [OF this lead] show ?thesis using that by blast
  next
    assume "type_match m R b c"
    then show ?thesis using type_match_at [OF lead] that by blast
  qed (simp add: refl_R)
  then show ?thesis using type_match_at [OF loc, of R] O by blast
qed

lemma assumed_sound:
  assumes valid: "cache_valid m (es_state s)" and run: "keeps s s'" "settles m s s'" and xy: "assumed s' x y"
  shows "type_equiv m x y"
proof -
  define R where "R x y = (assumed s' x y \<or> type_equiv m x y)" for x y
  have "x = y \<or> obliged m R (x, y) \<or> type_match m R x y" if "R x y" for x y
  proof (cases "x = y \<or> type_equiv m x y")
    case True
    have "type_equiv m \<le> R" by (simp add: R_def le_fun_def)
    then show ?thesis using True type_equiv_iff [of m x y] type_match_mono [of "type_equiv m" R m x y] by blast
  next
    case False
    then have "assumed s' x y" "es_state s (x, y) = 0" using that valid by (auto simp: R_def cache_valid_def)
    then have "es_state s' (x, y) \<noteq> 0" using False by (auto simp: assumed_def)
    then have "obliged m (assumed s') (x, y)" using run(2) \<open>es_state s (x, y) = 0\<close> unfolding settles_def by blast
    then have "obliged m R (x, y)" by (rule obliged_mono) (simp add: R_def)
    then show ?thesis by blast
  qed
  then have step: "x = y \<or> type_match m R x y" if "R x y" for x y
    by (rule closed_match [of R]) (use that in \<open>auto simp: R_def assumed_def\<close>)
  show ?thesis by (rule type_equivI [of R]) (use xy step in \<open>auto simp: R_def\<close>)
qed

lemma rollback:
  assumes "keeps s s'" "set ps = newly s s'"
  shows "fold (\<lambda>p st. st(p := 0)) ps (es_state s') = es_state s"
proof (rule ext)
  fix q
  have "fold (\<lambda>p st. st(p := 0)) ps st q = (if q \<in> set ps then 0 else st q)" for st :: "nat \<times> nat \<Rightarrow> nat"
    by (induction ps arbitrary: st) auto
  then show "fold (\<lambda>p st. st(p := 0)) ps (es_state s') q = es_state s q"
    using assms keepsD [OF assms(1), of q] by (auto simp: newly_def)
qed

lemma eqFuel_enough: "card (unknown_pairs m s) < eqFuel m"
proof -
  have "card (unknown_pairs m s) \<le> card ({..<type_count m} \<times> {..<type_count m})"
    by (rule card_mono) (auto simp: unknown_pairs_def)
  then show ?thesis by (simp add: eqFuel_def flat_count)
qed

lemma eqType_root:
  assumes valid: "cache_valid m state"
  defines "s \<equiv> \<lparr>es_state = state, es_introduced = []\<rparr>"
  shows "\<exists>ok s'. eqType (eqFuel m) m x y s = Some (ok, s') \<and> (ok \<longleftrightarrow> type_equiv m x y) \<and>
    (ok \<longrightarrow> cache_valid m (es_state s')) \<and> (\<not> ok \<longrightarrow> fold (\<lambda>p st. st(p := 0)) (es_introduced s') (es_state s') = state)"
proof -
  have range: "state p = 0 \<or> state p = 2" for p using valid unfolding cache_valid_def by (metis surj_pair)
  have "es_state s p \<le> 3 \<and> es_state s p \<noteq> 3" for p using range [of p] by (auto simp: s_def)
  then have st: "in_range s" "no_failure s" unfolding in_range_def no_failure_def by blast+
  obtain ok s' where run: "eqType (eqFuel m) m x y s = Some (ok, s')" "extends s s'"
    using runs_eqType [of m "eqFuel m" x y] st(1) eqFuel_enough [of m s] unfolding runs_def by blast
  note D = decides_eqType [of m "eqFuel m" x y, unfolded decides_def, rule_format, OF conjI [OF st(2) run(1)]]
  have cv: "cache_valid m (es_state s)" using valid by (simp add: s_def)
  show ?thesis
  proof (cases ok)
    case True
    have sound: "type_equiv m a b" if "assumed s' a b" for a b using assumed_sound [OF cv] D True that by blast
    have "es_state s' (a, b) = 0 \<or> es_state s' (a, b) = 2" for a b
      using D True range [of "(a, b)"] unfolding settles_def keeps_def s_def by (metis eqState.select_convs(1))
    then have "cache_valid m (es_state s')" using sound unfolding cache_valid_def assumed_def by (metis insertI1 insertI2)
    then show ?thesis using run(1) True D sound by auto
  next
    case False
    obtain ps where "es_introduced s' = ps" "set ps = newly s s'" using run(2) by (auto simp: extends_def s_def)
    then have "fold (\<lambda>p st. st(p := 0)) (es_introduced s') (es_state s') = state" using rollback [of s s' ps] D by (simp add: s_def)
    then show ?thesis using run(1) False D valid by auto
  qed
qed

lemma typeIdxEquivalentWithState_root:
  assumes "cache_valid m state"
  shows "\<exists>ok state'. typeIdxEquivalentWithState m a b state = Some (ok, state') \<and> cache_valid m state' \<and> (\<not> ok \<longrightarrow> state' = state) \<and>
    (ok \<longleftrightarrow> (\<exists>x y. v_flatTypeIdxInRecGroup m a (-1) = Some x \<and> v_flatTypeIdxInRecGroup m b (-1) = Some y \<and> type_equiv m x y))"
proof (cases "v_flatTypeIdxInRecGroup m a (-1) = None \<or> v_flatTypeIdxInRecGroup m b (-1) = None")
  case True
  then show ?thesis using assms by (auto simp: typeIdxEquivalentWithState_def split: option.splits)
next
  case False
  then obtain x y where f: "v_flatTypeIdxInRecGroup m a (-1) = Some x" "v_flatTypeIdxInRecGroup m b (-1) = Some y" by auto
  obtain ok s' where run: "eqType (eqFuel m) m x y \<lparr>es_state = state, es_introduced = []\<rparr> = Some (ok, s')" "ok \<longleftrightarrow> type_equiv m x y"
    "ok \<longrightarrow> cache_valid m (es_state s')" "\<not> ok \<longrightarrow> fold (\<lambda>p st. st(p := 0)) (es_introduced s') (es_state s') = state"
    using eqType_root [OF assms] by blast
  show ?thesis unfolding typeIdxEquivalentWithState_def f option.case prod.case run(1) using run(2-4) assms by simp
qed

lemma typeIdxEquivalent_iff:
  "typeIdxEquivalent m a b = Some
    (\<exists>x y. v_flatTypeIdxInRecGroup m a (-1) = Some x \<and> v_flatTypeIdxInRecGroup m b (-1) = Some y \<and> type_equiv m x y)"
proof -
  have "cache_valid m (\<lambda>_. 0)" by (simp add: cache_valid_def)
  from typeIdxEquivalentWithState_root [OF this, of a b] show ?thesis by (auto simp: typeIdxEquivalent_def)
qed

section \<open>The reference relation is an equivalence\<close>

lemma flat_match_flip: "flat_match m R g h x y \<Longrightarrow> flat_match m R\<inverse>\<inverse> h g y x"
  by (auto simp: flat_match_def)

lemma heap_match_flip: "heap_match m R g h x y \<Longrightarrow> heap_match m R\<inverse>\<inverse> h g y x"
  by (auto simp: heap_match_def intro: flat_match_flip)

lemma val_match_flip: "val_match m R g h x y \<Longrightarrow> val_match m R\<inverse>\<inverse> h g y x"
  by (auto simp: val_match_def intro: heap_match_flip)

lemma field_match_flip: "field_match m R g h x y \<Longrightarrow> field_match m R\<inverse>\<inverse> h g y x"
  by (auto simp: field_match_def intro: val_match_flip)

lemma optional_match_flip: "optional_match m R g h x y \<Longrightarrow> optional_match m R\<inverse>\<inverse> h g y x"
  by (auto simp: optional_match_def intro: flat_match_flip)

lemma list_match_flip: "list_all2 P xs ys \<Longrightarrow> (\<And>x y. P x y \<Longrightarrow> Q y x) \<Longrightarrow> list_all2 Q ys xs"
  by (auto simp: list_all2_conv_all_nth)

lemma lists_match_flip:
  "list_all2 (flat_match m R g h) as bs \<Longrightarrow> list_all2 (flat_match m R\<inverse>\<inverse> h g) bs as"
  "list_all2 (val_match m R g h) vs ws \<Longrightarrow> list_all2 (val_match m R\<inverse>\<inverse> h g) ws vs"
  "list_all2 (field_match m R g h) fs ks \<Longrightarrow> list_all2 (field_match m R\<inverse>\<inverse> h g) ks fs"
  by (erule list_match_flip, erule flat_match_flip val_match_flip field_match_flip)+

lemma comp_match_flip: "ct_Kind x = ct_Kind y \<Longrightarrow> comp_match m R g h x y \<Longrightarrow> comp_match m R\<inverse>\<inverse> h g y x"
  by (simp add: comp_match_def lists_match_flip field_match_flip)

lemma sub_match_flip: "sub_match m R g h x y \<Longrightarrow> sub_match m R\<inverse>\<inverse> h g y x"
  by (simp add: sub_match_def lists_match_flip optional_match_flip comp_match_flip)

lemma type_match_flip:
  assumes "type_match m R x y"
  shows "type_match m R\<inverse>\<inverse> y x"
proof -
  obtain g l b h k c where xy: "groupLocation m x = Some (g, l, b)" "groupLocation m y = Some (h, k, c)"
    using type_match_located [OF assms] by blast
  show ?thesis using assms sub_match_flip [of m R "int g" "int h" "SubTypes (m_Types m ! g) ! l"]
    unfolding type_match_at [OF xy] type_match_at [OF xy(2,1)] conversep_iff by metis
qed

lemma flat_match_comp: "flat_match m R g h x y \<Longrightarrow> flat_match m S h k y z \<Longrightarrow> flat_match m (R OO S) g k x z"
  by (auto simp: flat_match_def)

lemma heap_match_comp: "heap_match m R g h x y \<Longrightarrow> heap_match m S h k y z \<Longrightarrow> heap_match m (R OO S) g k x z"
  by (cases "HeapType_Kind y") (auto simp: heap_match_def intro: flat_match_comp split: prod.splits)

lemma val_match_comp: "val_match m R g h x y \<Longrightarrow> val_match m S h k y z \<Longrightarrow> val_match m (R OO S) g k x z"
  by (auto simp: val_match_def intro: heap_match_comp)

lemma field_match_comp: "field_match m R g h x y \<Longrightarrow> field_match m S h k y z \<Longrightarrow> field_match m (R OO S) g k x z"
  by (auto simp: field_match_def intro: val_match_comp)

lemma optional_match_comp: "optional_match m R g h x y \<Longrightarrow> optional_match m S h k y z \<Longrightarrow> optional_match m (R OO S) g k x z"
  by (auto simp: optional_match_def intro: flat_match_comp)

lemma lists_match_comp:
  "list_all2 (flat_match m R g h) as bs \<Longrightarrow> list_all2 (flat_match m S h k) bs cs \<Longrightarrow> list_all2 (flat_match m (R OO S) g k) as cs"
  "list_all2 (val_match m R g h) us vs \<Longrightarrow> list_all2 (val_match m S h k) vs ws \<Longrightarrow> list_all2 (val_match m (R OO S) g k) us ws"
  "list_all2 (field_match m R g h) fs ks \<Longrightarrow> list_all2 (field_match m S h k) ks ls \<Longrightarrow> list_all2 (field_match m (R OO S) g k) fs ls"
  by (erule list_all2_trans [rotated], assumption, erule (1) flat_match_comp val_match_comp field_match_comp)+

lemma comp_match_comp:
  "ct_Kind x = ct_Kind y \<Longrightarrow> comp_match m R g h x y \<Longrightarrow> comp_match m S h k y z \<Longrightarrow> comp_match m (R OO S) g k x z"
  by (cases "ct_Kind y")
    (auto simp: comp_match_def intro: field_match_comp lists_match_comp)

lemma sub_match_comp: "sub_match m R g h x y \<Longrightarrow> sub_match m S h k y z \<Longrightarrow> sub_match m (R OO S) g k x z"
  unfolding sub_match_def
  by (elim conjE, intro conjI; (rule optional_match_comp lists_match_comp comp_match_comp)?; (assumption | simp))

lemma type_match_comp:
  assumes "type_match m R x y" "type_match m S y z"
  shows "type_match m (R OO S) x z"
proof -
  obtain g l b h k c where xy: "groupLocation m x = Some (g, l, b)" "groupLocation m y = Some (h, k, c)"
    using type_match_located [OF assms(1)] by blast
  obtain i j d where z: "groupLocation m z = Some (i, j, d)" using type_match_located [OF assms(2)] by blast
  note A = assms(1) [unfolded type_match_at [OF xy]] and B = assms(2) [unfolded type_match_at [OF xy(2) z]]
  have "sub_match m (R OO S) (int g) (int i) (SubTypes (m_Types m ! g) ! l) (SubTypes (m_Types m ! i) ! j)"
    using A B sub_match_comp by blast
  moreover have "(R OO S) (b + n) (d + n)" if "n < length (SubTypes (m_Types m ! g))" for n
    using A B that by (intro relcomppI [of R _ "c + n"]) auto
  moreover have "l = j" "length (SubTypes (m_Types m ! g)) = length (SubTypes (m_Types m ! i))" using A B by metis+
  ultimately show ?thesis unfolding type_match_at [OF xy(1) z] by blast
qed

lemma type_equiv_refl: "type_equiv m x x"
  by (rule type_equiv.equiv) simp

lemma type_equiv_sym:
  assumes "type_equiv m x y"
  shows "type_equiv m y x"
proof (rule type_equivI [of "(type_equiv m)\<inverse>\<inverse>"])
  fix a b
  assume "(type_equiv m)\<inverse>\<inverse> a b"
  then have "type_equiv m b a" by simp
  then show "a = b \<or> type_match m (type_equiv m)\<inverse>\<inverse> a b"
    using type_equiv_iff [of m b a] type_match_flip [of m "type_equiv m" b a] by blast
qed (simp add: assms)

lemma type_equiv_trans:
  assumes "type_equiv m x y" "type_equiv m y z"
  shows "type_equiv m x z"
proof (rule type_equivI [of "type_equiv m OO type_equiv m"])
  fix a c
  assume "(type_equiv m OO type_equiv m) a c"
  then obtain b where b: "type_equiv m a b" "type_equiv m b c" by blast
  have le: "type_equiv m \<le> type_equiv m OO type_equiv m" using type_equiv_refl by blast
  show "a = c \<or> type_match m (type_equiv m OO type_equiv m) a c"
    using b type_equiv_iff [of m a b] type_equiv_iff [of m b c] type_match_comp [of m "type_equiv m" a b "type_equiv m" c]
      type_match_mono [OF le, of m a c] by blast
qed (use assms in blast)

section \<open>Properties\<close>

text \<open>
  C1. Comparing two defined types always ends, whatever pairs a batch has already settled. The answer is
  yes exactly when both indexes resolve and their recursive groups are related by the greatest relation
  closed under matching declarations, so a shared state never changes an answer. A failed comparison
  leaves the shared state as it was, and every state left behind holds only equivalent pairs.
\<close>

theorem typeIdxEquivalentWithState_decides:
  assumes "cache_valid m state"
  shows "\<exists>ok state'. typeIdxEquivalentWithState m a b state = Some (ok, state') \<and> typeIdxEquivalent m a b = Some ok \<and>
    (ok \<longleftrightarrow> (\<exists>x y. v_flatTypeIdxInRecGroup m a (-1) = Some x \<and> v_flatTypeIdxInRecGroup m b (-1) = Some y \<and> type_equiv m x y)) \<and>
    (\<not> ok \<longrightarrow> state' = state) \<and> cache_valid m state'"
  using typeIdxEquivalentWithState_root [OF assms, of a b] unfolding typeIdxEquivalent_iff by blast

text \<open>Two groups of one function type that takes a reference to itself are equivalent; a group that takes an integer is not.\<close>

definition twins :: Module where
  "twins =
     (let fn = \<lambda>p. \<lparr>SubTypes = [\<lparr>st_Final = True, st_Supers = [], st_Metadata = noTypeMetadata,
            st_Comp = (zeroCompType CompFunc)\<lparr>ct_Params := [p]\<rparr>, st_HasPrefix = False\<rparr>]\<rparr>;
          self = RefVal (Ref True (IndexedHeap \<lparr>ti_Index = 0, ti_Rec = True\<rparr>) False)
      in emptyModule\<lparr>m_Types := [fn self, fn self, fn I32]\<rparr>)"

theorem typeIdxEquivalentWithState_decides_witness:
  "cache_valid twins (\<lambda>_. 0) \<and> type_equiv twins 0 1 \<and> \<not> type_equiv twins 1 2"
proof -
  let ?t = "\<lambda>i. \<lparr>ti_Index = i, ti_Rec = False\<rparr>"
  have c: "cache_valid twins (\<lambda>_. 0)" by (simp add: cache_valid_def)
  have "typeIdxEquivalent twins (?t 0) (?t 1) = Some True" "typeIdxEquivalent twins (?t 1) (?t 2) = Some False"
      "v_flatTypeIdxInRecGroup twins (?t 0) (-1) = Some 0" "v_flatTypeIdxInRecGroup twins (?t 1) (-1) = Some 1"
      "v_flatTypeIdxInRecGroup twins (?t 2) (-1) = Some 2"
    by code_simp+
  then show ?thesis
    using c typeIdxEquivalentWithState_decides [OF c, of "?t 0" "?t 1"] typeIdxEquivalentWithState_decides [OF c, of "?t 1" "?t 2"] by auto
qed

text \<open>
  C34. The answers of the comparison form an equivalence on the type indexes that resolve: every such index
  is equivalent to itself, the order of the arguments does not matter, and two positive answers that
  share an index give a third.
\<close>

theorem typeIdxEquivalent_equivalence:
  "(validTypeIdx m a \<longrightarrow> typeIdxEquivalent m a a = Some True) \<and> typeIdxEquivalent m a b = typeIdxEquivalent m b a \<and>
   (typeIdxEquivalent m a b = Some True \<and> typeIdxEquivalent m b c = Some True \<longrightarrow> typeIdxEquivalent m a c = Some True)"
proof (intro conjI impI)
  assume "validTypeIdx m a"
  then have "v_flatTypeIdxInRecGroup m a (-1) = Some (unat (ti_Index a))"
    by (cases "ti_Rec a") (simp_all add: v_flatTypeIdxInRecGroup_def validTypeIdx_def v_subtypeByTypeIdxWithRecGroup_def)
  then show "typeIdxEquivalent m a a = Some True" by (simp add: typeIdxEquivalent_iff type_equiv_refl)
next
  show "typeIdxEquivalent m a b = typeIdxEquivalent m b a"
    unfolding typeIdxEquivalent_iff using type_equiv_sym by blast
next
  assume "typeIdxEquivalent m a b = Some True \<and> typeIdxEquivalent m b c = Some True"
  then show "typeIdxEquivalent m a c = Some True"
    unfolding typeIdxEquivalent_iff using type_equiv_trans by fastforce
qed

theorem typeIdxEquivalent_equivalence_witness:
  "typeIdxEquivalent twins \<lparr>ti_Index = 0, ti_Rec = False\<rparr> \<lparr>ti_Index = 0, ti_Rec = False\<rparr> = Some True \<and>
   typeIdxEquivalent twins \<lparr>ti_Index = 1, ti_Rec = False\<rparr> \<lparr>ti_Index = 0, ti_Rec = False\<rparr> = Some True"
proof -
  let ?t = "\<lambda>i. \<lparr>ti_Index = i, ti_Rec = False\<rparr>"
  have "validTypeIdx twins (?t 0)" "typeIdxEquivalent twins (?t 0) (?t 1) = Some True" by code_simp+
  then show ?thesis using typeIdxEquivalent_equivalence [of twins "?t 0" "?t 1" "?t 0"] by simp
qed

end
