(* ===== verification/Subtyping.thy ===== *)
theory Subtyping
  imports TypeEquiv
begin

text \<open>
  Subtyping of reference types (\<^verbatim>\<open>validate_gc_helpers.go\<close>, \<^verbatim>\<open>validate.go\<close>): resolution of indices,
  the search along declared supertypes and the relations on heap, reference and value types. The reference
  relation walks declared supertypes and ends in a structurally equivalent type. The lemmas show that
  the search ends and decides it, and that subtyping is a preorder when declared supertypes keep their kind.
\<close>

section \<open>Errors\<close>

datatype ValidationErrorCode =
    ErrTypeMismatch | ErrUnknownType | ErrUnknownFunc | ErrUnknownTable | ErrUnknownMemory | ErrUnknownGlobal
  | ErrUnknownTag | ErrUnknownLabel | ErrUnknownLocal | ErrUninitializedLocal | ErrImmutableGlobal | ErrInvalidAlignment
  | ErrInvalidSharedMemory | ErrInvalidLimitRange | ErrInvalidDataCount | ErrConstExprRequired | ErrDuplicateExport
  | ErrUnsupportedValidationOpcode | ErrUnsupportedFeature | ErrResourceLimitExceeded

type_synonym 'a validated = "ValidationErrorCode + 'a"

section \<open>Lookups of the validator\<close>

definition v_resolveTypeIdxRecIndex :: "Module \<Rightarrow> TypeIdx \<Rightarrow> int \<Rightarrow> TypeIdx" where
  "v_resolveTypeIdxRecIndex m idx recGroup =
     (case v_flatTypeIdxInRecGroup m idx recGroup of
        None \<Rightarrow> idx
      | Some flat \<Rightarrow> \<lparr>ti_Index = of_nat flat, ti_Rec = False\<rparr>)"

definition v_resolveRefTypeRecIndexes :: "Module \<Rightarrow> RefType \<Rightarrow> int \<Rightarrow> RefType" where
  "v_resolveRefTypeRecIndexes m rt recGroup =
     (let heap = RefType_Heap rt
      in if HeapType_Kind heap \<noteq> HeapTypeIndex then rt
         else WithHeap (IndexedHeap (v_resolveTypeIdxRecIndex m (HeapType_Type heap) recGroup)) rt)"

definition v_resolveValTypeRecIndexes :: "Module \<Rightarrow> ValType \<Rightarrow> int \<Rightarrow> ValType" where
  "v_resolveValTypeRecIndexes m t recGroup =
     (if ValType_Kind t \<noteq> ValRef then t else RefVal (v_resolveRefTypeRecIndexes m (ValType_Ref t) recGroup))"

definition v_resolveFieldTypeRecIndexes :: "Module \<Rightarrow> FieldType \<Rightarrow> int \<Rightarrow> FieldType" where
  "v_resolveFieldTypeRecIndexes m ft recGroup =
     (let storage = Field_Storage ft
      in if Storage_Packed storage then ft
         else NewFieldType (StorageVal (v_resolveValTypeRecIndexes m (Storage_Val storage) recGroup)) (Field_Mut ft))"

definition v_resolveCompTypeRecIndexes :: "Module \<Rightarrow> CompType \<Rightarrow> int \<Rightarrow> CompType" where
  "v_resolveCompTypeRecIndexes m ct recGroup =
     (case ct_Kind ct of
        CompFunc \<Rightarrow> ct\<lparr>ct_Params := map (\<lambda>t. v_resolveValTypeRecIndexes m t recGroup) (ct_Params ct),
                      ct_Results := map (\<lambda>t. v_resolveValTypeRecIndexes m t recGroup) (ct_Results ct)\<rparr>
      | CompStruct \<Rightarrow> ct\<lparr>ct_Fields := map (\<lambda>f. v_resolveFieldTypeRecIndexes m f recGroup) (ct_Fields ct)\<rparr>
      | CompArray \<Rightarrow> ct\<lparr>ct_Array := v_resolveFieldTypeRecIndexes m (ct_Array ct) recGroup\<rparr>)"

definition resolvedCompType :: "Module \<Rightarrow> TypeIdx \<Rightarrow> CompType option" where
  "resolvedCompType m idx =
     (if ti_Rec idx then None
      else map_option (\<lambda>(st, recGroup). v_resolveCompTypeRecIndexes m (st_Comp st) (int recGroup)) (v_subtypeByTypeIdxWithRecGroup m idx))"

definition funcTypeFromTypeIdx :: "Module \<Rightarrow> TypeIdx \<Rightarrow> CompType option" where
  "funcTypeFromTypeIdx m idx =
     (case resolvedCompType m idx of
        None \<Rightarrow> None
      | Some ct \<Rightarrow> if ct_Kind ct \<noteq> CompFunc then None else Some ct)"

definition structFields :: "Module \<Rightarrow> TypeIdx \<Rightarrow> (FieldType list \<times> SubType \<times> nat) option" where
  "structFields m idx =
     (case v_subtypeByTypeIdxWithRecGroup m idx of
        None \<Rightarrow> None
      | Some (st, recGroup) \<Rightarrow>
          if ct_Kind (st_Comp st) \<noteq> CompStruct then None
          else Some (map (\<lambda>f. v_resolveFieldTypeRecIndexes m f (int recGroup)) (ct_Fields (st_Comp st)), st, recGroup))"

definition arrayField :: "Module \<Rightarrow> TypeIdx \<Rightarrow> (FieldType \<times> SubType) option" where
  "arrayField m idx =
     (case v_subtypeByTypeIdxWithRecGroup m idx of
        None \<Rightarrow> None
      | Some (st, recGroup) \<Rightarrow>
          if ct_Kind (st_Comp st) \<noteq> CompArray then None
          else Some (v_resolveFieldTypeRecIndexes m (ct_Array (st_Comp st)) (int recGroup), st))"

section \<open>Subtyping of heap and reference types\<close>

definition absHeapSubtype :: "AbsHeapType \<Rightarrow> AbsHeapType \<Rightarrow> bool" where
  "absHeapSubtype a b =
     (if a = b then True
      else if a = HeapNoFunc then b = HeapFunc
      else if a = HeapNoExtern then b = HeapExtern
      else if a = HeapNoExn then b = HeapExn
      else if a = HeapNone then b = HeapAny \<or> b = HeapEq \<or> b = HeapStruct \<or> b = HeapArray \<or> b = HeapI31
      else if a = HeapI31 \<or> a = HeapStruct \<or> a = HeapArray then b = HeapEq \<or> b = HeapAny
      else if a = HeapEq then b = HeapAny
      else False)"

definition heapTypeEquivalent :: "Module \<Rightarrow> HeapType \<Rightarrow> HeapType \<Rightarrow> bool" where
  "heapTypeEquivalent m a b =
     (if equalHeapType a b then True
      else HeapType_Kind a = HeapTypeIndex \<and> HeapType_Kind b = HeapTypeIndex \<and>
           typeIdxEquivalent m (HeapType_Type a) (HeapType_Type b) = Some True)"

text \<open>
  The search keeps the visited types; \<open>None\<close> stands for running out of fuel. The pair \<open>anc\<close> is the
  validator's \<open>superEnter\<close> and \<open>superExit\<close>, both empty unless the ancestry has been numbered.
\<close>

type_synonym ancestry = "u32 list \<times> u32 list"

fun visitSupers :: "(nat \<Rightarrow> nat list \<Rightarrow> (bool \<times> nat list) option) \<Rightarrow> Module \<Rightarrow> nat \<Rightarrow> TypeIdx list \<Rightarrow> nat list \<Rightarrow> (bool \<times> nat list) option" where
  "visitSupers visit m recGroup [] seen = Some (False, seen)"
| "visitSupers visit m recGroup (idx # sups) seen =
     (case v_flatTypeIdxInRecGroup m idx (int recGroup) of
        None \<Rightarrow> visitSupers visit m recGroup sups seen
      | Some supFlat \<Rightarrow>
          (case visit supFlat seen of
             None \<Rightarrow> None
           | Some (True, seen') \<Rightarrow> Some (True, seen')
           | Some (False, seen') \<Rightarrow> visitSupers visit m recGroup sups seen'))"

primrec visitType :: "nat \<Rightarrow> Module \<Rightarrow> nat \<Rightarrow> nat \<Rightarrow> nat list \<Rightarrow> (bool \<times> nat list) option" where
  "visitType 0 m bFlat cur seen = None"
| "visitType (Suc fuel) m bFlat cur seen =
     (if cur = bFlat \<or> typeIdxEquivalent m \<lparr>ti_Index = of_nat cur, ti_Rec = False\<rparr> \<lparr>ti_Index = of_nat bFlat, ti_Rec = False\<rparr> = Some True
      then Some (True, seen)
      else if cur \<in> set seen then Some (False, seen)
      else case subtypeByFlatTypeIdx m cur of
        None \<Rightarrow> Some (False, cur # seen)
      | Some (st, recGroup) \<Rightarrow> visitSupers (visitType fuel m bFlat) m recGroup (st_Supers st) (cur # seen))"

declare visitType.simps(2) [simp del]

text \<open>Every call but the last adds a type to the visited ones.\<close>

definition visitFuel :: "Module \<Rightarrow> nat" where
  "visitFuel m = length (dir_flat (ensureTypeIndex m)) + 2"

definition typeIdxSuperSubtype :: "Module \<Rightarrow> ancestry \<Rightarrow> TypeIdx \<Rightarrow> TypeIdx \<Rightarrow> bool option" where
  "typeIdxSuperSubtype m anc a b =
     (case (v_flatTypeIdxInRecGroup m a (-1), v_flatTypeIdxInRecGroup m b (-1)) of
        (Some aFlat, Some bFlat) \<Rightarrow>
          if fst anc \<noteq> [] \<and> fst anc ! bFlat \<le> fst anc ! aFlat \<and> snd anc ! aFlat \<le> snd anc ! bFlat then Some True
          else map_option fst (visitType (visitFuel m) m bFlat aFlat [])
      | _ \<Rightarrow> Some False)"

definition refSubtype :: "Module \<Rightarrow> ancestry \<Rightarrow> RefType \<Rightarrow> RefType \<Rightarrow> bool" where
  "refSubtype m anc a b =
     (let ah = RefType_Heap a; bh = RefType_Heap b
      in if \<not> Nullable b \<and> Nullable a then False
      else if HeapType_Kind ah = heapBottom then True
      else if heapTypeEquivalent m ah bh then (if Exact b \<and> \<not> Exact a then False else True)
      else case (HeapType_Kind ah, HeapType_Kind bh) of
        (HeapTypeIndex, HeapTypeIndex) \<Rightarrow> \<not> Exact b \<and> typeIdxSuperSubtype m anc (HeapType_Type ah) (HeapType_Type bh) = Some True
      | (HeapAbs, HeapTypeIndex) \<Rightarrow>
          (case resolvedCompType m (HeapType_Type bh) of
             None \<Rightarrow> False
           | Some ct \<Rightarrow> (case ct_Kind ct of CompFunc \<Rightarrow> HeapType_Abs ah = HeapNoFunc | _ \<Rightarrow> HeapType_Abs ah = HeapNone))
      | (HeapTypeIndex, HeapAbs) \<Rightarrow>
          (case resolvedCompType m (HeapType_Type ah) of
             None \<Rightarrow> False
           | Some ct \<Rightarrow> (case ct_Kind ct of
                 CompStruct \<Rightarrow> absHeapSubtype HeapStruct (HeapType_Abs bh)
               | CompArray \<Rightarrow> absHeapSubtype HeapArray (HeapType_Abs bh)
               | CompFunc \<Rightarrow> absHeapSubtype HeapFunc (HeapType_Abs bh)))
      | (HeapAbs, HeapAbs) \<Rightarrow> absHeapSubtype (HeapType_Abs ah) (HeapType_Abs bh)
      | _ \<Rightarrow> False)"

definition heapSubtype :: "Module \<Rightarrow> ancestry \<Rightarrow> HeapType \<Rightarrow> HeapType \<Rightarrow> bool" where
  "heapSubtype m anc a b = (if heapTypeEquivalent m a b then True else refSubtype m anc (Ref False a False) (Ref False b False))"

definition v_subtype :: "Module \<Rightarrow> ancestry \<Rightarrow> ValType \<Rightarrow> ValType \<Rightarrow> bool" where
  "v_subtype m anc a b =
     (if ValType_Kind b = ValBot \<or> ValType_Kind a = ValBot then True
      else if equalValType a b then True
      else if ValType_Kind a = ValRef \<and> ValType_Kind b = ValRef then refSubtype m anc (ValType_Ref a) (ValType_Ref b)
      else False)"

datatype refTestFamily = refTestFamilyData | refTestFamilyFunc | refTestFamilyExtern | refTestFamilyExn | refTestFamilyString

definition familyOfKind :: "u64 \<Rightarrow> refTestFamily option" where
  "familyOfKind k =
     (if k = comp_kind_code CompStruct \<or> k = comp_kind_code CompArray then Some refTestFamilyData
      else if k = comp_kind_code CompFunc then Some refTestFamilyFunc
      else None)"

definition refTestHeapFamily :: "Module \<Rightarrow> HeapType \<Rightarrow> refTestFamily option" where
  "refTestHeapFamily m h =
     (case HeapType_Kind h of
        HeapAbs \<Rightarrow>
          (let a = HeapType_Abs h
           in if a = HeapNone \<or> a = HeapI31 \<or> a = HeapStruct \<or> a = HeapArray \<or> a = HeapEq \<or> a = HeapAny then Some refTestFamilyData
              else if a = HeapNoFunc \<or> a = HeapFunc then Some refTestFamilyFunc
              else if a = HeapNoExtern \<or> a = HeapExtern then Some refTestFamilyExtern
              else if a = HeapNoExn \<or> a = HeapExn then Some refTestFamilyExn
              else if a = HeapString then Some refTestFamilyString
              else None)
      | HeapTypeIndex \<Rightarrow> Option.bind (resolvedCompType m (HeapType_Type h)) (\<lambda>ct. familyOfKind (comp_kind_code (ct_Kind ct)))
      | HeapDefType \<Rightarrow> (case DefCompKind h of (kind, valid) \<Rightarrow> if \<not> valid then None else familyOfKind kind)
      | heapBottom \<Rightarrow> None)"

definition refTestCompatible :: "Module \<Rightarrow> RefType \<Rightarrow> RefType \<Rightarrow> bool" where
  "refTestCompatible m a b =
     (if HeapType_Kind (RefType_Heap a) = heapBottom \<or> HeapType_Kind (RefType_Heap b) = heapBottom then True
      else case (refTestHeapFamily m (RefType_Heap a), refTestHeapFamily m (RefType_Heap b)) of
        (Some af, Some bf) \<Rightarrow> af = bf
      | _ \<Rightarrow> False)"

definition descriptorCompatible :: "Module \<Rightarrow> ancestry \<Rightarrow> RefType \<Rightarrow> RefType \<Rightarrow> bool" where
  "descriptorCompatible m anc a b =
     (let ah = RefType_Heap a; bh = RefType_Heap b
      in if HeapType_Kind ah = HeapAbs \<and> HeapType_Kind bh = HeapAbs
         then absHeapSubtype (HeapType_Abs ah) (HeapType_Abs bh) \<or> absHeapSubtype (HeapType_Abs bh) (HeapType_Abs ah)
         else if Exact a \<and> Exact b \<and> HeapType_Kind ah = HeapTypeIndex \<and> HeapType_Kind bh = HeapTypeIndex
         then typeIdxEquivalent m (HeapType_Type ah) (HeapType_Type bh) = Some True
         else refSubtype m anc a b \<or> refSubtype m anc b a)"

section \<open>The reference relation\<close>

definition super_edge :: "Module \<Rightarrow> nat \<Rightarrow> nat \<Rightarrow> bool" where
  "super_edge m x y \<longleftrightarrow>
     (\<exists>st g idx. subtypeByFlatTypeIdx m x = Some (st, g) \<and> idx \<in> set (st_Supers st) \<and> v_flatTypeIdxInRecGroup m idx (int g) = Some y)"

definition subtype_of :: "Module \<Rightarrow> nat \<Rightarrow> nat \<Rightarrow> bool" where
  "subtype_of m x y \<longleftrightarrow> (\<exists>z. (super_edge m)\<^sup>*\<^sup>* x z \<and> type_equiv m z y)"

text \<open>
  What a visit with target \<open>b\<close> promises: a positive answer has found a supertype that is the target,
  a negative one has left the visited types closed under supertypes except for those it started with.
\<close>

definition hits :: "Module \<Rightarrow> nat \<Rightarrow> nat \<Rightarrow> bool" where
  "hits m b z \<longleftrightarrow> z = b \<or> typeIdxEquivalent m \<lparr>ti_Index = of_nat z, ti_Rec = False\<rparr> \<lparr>ti_Index = of_nat b, ti_Rec = False\<rparr> = Some True"

definition explored :: "Module \<Rightarrow> nat \<Rightarrow> nat set \<Rightarrow> nat set \<Rightarrow> bool" where
  "explored m b S S' \<longleftrightarrow> S \<subseteq> S' \<and> (\<forall>x \<in> S' - S. \<not> hits m b x \<and> (\<forall>y. super_edge m x y \<longrightarrow> y \<in> S'))"

definition searches :: "Module \<Rightarrow> nat \<Rightarrow> (nat \<Rightarrow> nat list \<Rightarrow> (bool \<times> nat list) option) \<Rightarrow> bool" where
  "searches m b visit \<longleftrightarrow>
     (\<forall>cur seen ok seen'. visit cur seen = Some (ok, seen') \<longrightarrow>
        (ok \<longrightarrow> (\<exists>z. (super_edge m)\<^sup>*\<^sup>* cur z \<and> hits m b z)) \<and>
        (\<not> ok \<longrightarrow> cur \<in> set seen' \<and> \<not> hits m b cur \<and> explored m b (set seen) (set seen')))"

lemma explored_trans: "explored m b S T \<Longrightarrow> explored m b T U \<Longrightarrow> explored m b S U"
  unfolding explored_def by blast

lemma explored_subset: "explored m b S T \<Longrightarrow> S \<subseteq> T"
  by (simp add: explored_def)

lemma explored_insert:
  assumes "explored m b (insert x S) T" "\<not> hits m b x" "\<And>y. super_edge m x y \<Longrightarrow> y \<in> T"
  shows "explored m b S T" "x \<in> T"
  using assms unfolding explored_def by blast+

lemma explored_refl: "explored m b S S"
  by (simp add: explored_def)

locale supertype_search =
  fixes m :: Module and b :: nat and visit :: "nat \<Rightarrow> nat list \<Rightarrow> (bool \<times> nat list) option"
  assumes visit: "searches m b visit"
begin

lemma visitSupers_found:
  "visitSupers visit m g sups seen = Some (True, seen') \<Longrightarrow>
     \<exists>idx \<in> set sups. \<exists>y z. v_flatTypeIdxInRecGroup m idx (int g) = Some y \<and> (super_edge m)\<^sup>*\<^sup>* y z \<and> hits m b z"
proof (induction sups arbitrary: seen)
  case (Cons idx sups)
  show ?case
  proof (cases "v_flatTypeIdxInRecGroup m idx (int g)")
    case (Some y)
    with Cons.prems obtain ok s1 where v: "visit y seen = Some (ok, s1)" by (auto split: option.splits)
    show ?thesis
    proof (cases ok)
      case True
      then show ?thesis using visit v Some unfolding searches_def by (metis list.set_intros(1))
    next
      case False
      then show ?thesis using Cons v Some by auto
    qed
  qed (use Cons in auto)
qed simp

lemma visitSupers_missed:
  "visitSupers visit m g sups seen = Some (False, seen') \<Longrightarrow>
     explored m b (set seen) (set seen') \<and>
     (\<forall>idx \<in> set sups. \<forall>y. v_flatTypeIdxInRecGroup m idx (int g) = Some y \<longrightarrow> y \<in> set seen')"
proof (induction sups arbitrary: seen)
  case (Cons idx sups)
  show ?case
  proof (cases "v_flatTypeIdxInRecGroup m idx (int g)")
    case (Some y)
    with Cons.prems obtain s1 where v: "visit y seen = Some (False, s1)" and rest: "visitSupers visit m g sups s1 = Some (False, seen')"
      by (auto split: option.splits bool.splits)
    have y: "y \<in> set s1" "explored m b (set seen) (set s1)" using visit v unfolding searches_def by blast+
    note IH = Cons.IH [OF rest]
    have "explored m b (set seen) (set seen')" "y \<in> set seen'"
      using explored_trans [OF y(2)] explored_subset [of m b "set s1" "set seen'"] IH y(1) by blast+
    then show ?thesis using IH Some by simp
  qed (use Cons in auto)
qed (simp add: explored_refl)

end

lemma visitType_cases:
  assumes "visitType (Suc fuel) m b cur seen = r"
  obtains "hits m b cur" "r = Some (True, seen)"
    | "\<not> hits m b cur" "cur \<in> set seen" "r = Some (False, seen)"
    | "\<not> hits m b cur" "cur \<notin> set seen" "subtypeByFlatTypeIdx m cur = None" "r = Some (False, cur # seen)"
    | st g where "\<not> hits m b cur" "cur \<notin> set seen" "subtypeByFlatTypeIdx m cur = Some (st, g)"
        "r = visitSupers (visitType fuel m b) m g (st_Supers st) (cur # seen)"
proof (cases "hits m b cur \<or> cur \<in> set seen")
  case True
  then show ?thesis using assms that(1,2) unfolding visitType.simps(2) hits_def by (metis (no_types, lifting))
next
  case False
  then show ?thesis using assms that(3,4) unfolding visitType.simps(2) hits_def by (cases "subtypeByFlatTypeIdx m cur") auto
qed

lemma searches_visitType: "searches m b (visitType fuel m b)"
proof (induction fuel)
  case (Suc fuel)
  have s: "supertype_search m b (visitType fuel m b)" by unfold_locales (rule Suc.IH)
  show ?case
    unfolding searches_def
  proof (intro allI impI)
    fix cur seen ok seen'
    assume run: "visitType (Suc fuel) m b cur seen = Some (ok, seen')"
    from run show "(ok \<longrightarrow> (\<exists>z. (super_edge m)\<^sup>*\<^sup>* cur z \<and> hits m b z)) \<and>
        (\<not> ok \<longrightarrow> cur \<in> set seen' \<and> \<not> hits m b cur \<and> explored m b (set seen) (set seen'))"
    proof (cases rule: visitType_cases)
      case 3
      have "explored m b (insert cur (set seen)) (set seen')" "\<not> super_edge m cur y" for y using 3 by (simp_all add: explored_refl super_edge_def)
      then show ?thesis using explored_insert [of m b cur "set seen" "set seen'"] 3 by simp
    next
      case (4 st g)
      have found: "super_edge m cur y" if "idx \<in> set (st_Supers st)" "v_flatTypeIdxInRecGroup m idx (int g) = Some y" for idx y
        using that 4(3) by (auto simp: super_edge_def)
      show ?thesis
      proof (cases ok)
        case True
        then have "visitSupers (visitType fuel m b) m g (st_Supers st) (cur # seen) = Some (True, seen')" using 4(4) by simp
        from supertype_search.visitSupers_found [OF s this] obtain idx y z where "idx \<in> set (st_Supers st)" "v_flatTypeIdxInRecGroup m idx (int g) = Some y" "(super_edge m)\<^sup>*\<^sup>* y z" "hits m b z"
          by blast
        then show ?thesis using True found converse_rtranclp_into_rtranclp [of "super_edge m" cur y z] by blast
      next
        case False
        then have "visitSupers (visitType fuel m b) m g (st_Supers st) (cur # seen) = Some (False, seen')" using 4(4) by simp
        note r = supertype_search.visitSupers_missed [OF s this]
        have "y \<in> set seen'" if "super_edge m cur y" for y using r 4(3) that by (auto simp: super_edge_def)
        then show ?thesis using explored_insert [of m b cur "set seen" "set seen'"] r 4(1) False by simp
      qed
    next
      case 1
      then show ?thesis by (metis Pair_inject option.inject rtranclp.rtrancl_refl)
    next
      case 2
      then show ?thesis by (simp add: explored_refl)
    qed
  qed
qed (simp add: searches_def)

interpretation search: supertype_search m b "visitType fuel m b" for m b fuel
  by unfold_locales (rule searches_visitType)

section \<open>The search terminates and decides the relation\<close>

abbreviation unseen :: "Module \<Rightarrow> nat list \<Rightarrow> nat set" where
  "unseen m seen \<equiv> {..<type_count m} - set seen"

definition returns :: "Module \<Rightarrow> nat \<Rightarrow> (nat \<Rightarrow> nat list \<Rightarrow> (bool \<times> nat list) option) \<Rightarrow> bool" where
  "returns m n visit \<longleftrightarrow>
     (\<forall>cur seen. card (unseen m seen) < n \<longrightarrow> (\<exists>ok seen'. visit cur seen = Some (ok, seen') \<and> set seen \<subseteq> set seen'))"

lemma visitSupers_returns:
  assumes "returns m n visit" "card (unseen m seen) < n"
  shows "\<exists>ok seen'. visitSupers visit m g sups seen = Some (ok, seen') \<and> set seen \<subseteq> set seen'"
  using assms(2)
proof (induction sups arbitrary: seen)
  case (Cons idx sups)
  show ?case
  proof (cases "v_flatTypeIdxInRecGroup m idx (int g)")
    case (Some y)
    obtain ok s1 where v: "visit y seen = Some (ok, s1)" "set seen \<subseteq> set s1"
      using assms(1) Cons.prems unfolding returns_def by blast
    have "card (unseen m s1) \<le> card (unseen m seen)" using v(2) by (intro card_mono) auto
    then have "\<exists>ok seen'. visitSupers visit m g sups s1 = Some (ok, seen') \<and> set s1 \<subseteq> set seen'"
      using Cons.IH [of s1] Cons.prems by simp
    then show ?thesis using v Some by (cases ok) auto
  qed (use Cons in simp)
qed (intro exI [of _ False], simp)

lemma flat_lookup: "subtypeByFlatTypeIdx m x \<noteq> None \<longleftrightarrow> x < type_count m"
  by (auto simp: subtypeByFlatTypeIdx_def flat_count)

lemma returns_visitType: "returns m fuel (visitType fuel m b)"
proof (induction fuel)
  case (Suc fuel)
  have "\<exists>ok seen'. visitType (Suc fuel) m b cur seen = Some (ok, seen') \<and> set seen \<subseteq> set seen'"
    if n: "card (unseen m seen) < Suc fuel" for cur seen
  proof (rule visitType_cases [of fuel m b cur seen, OF refl])
    fix st g
    assume 4: "\<not> hits m b cur" "cur \<notin> set seen" "subtypeByFlatTypeIdx m cur = Some (st, g)"
      "visitType (Suc fuel) m b cur seen = visitSupers (visitType fuel m b) m g (st_Supers st) (cur # seen)"
    have "cur < type_count m" using 4(3) flat_lookup [of m cur] by simp
    then have "card (unseen m (cur # seen)) < card (unseen m seen)" using 4(2) by (intro psubset_card_mono) auto
    then show ?thesis using visitSupers_returns [OF Suc.IH, of "cur # seen" g "st_Supers st"] n 4(4) by auto
  qed auto
  then show ?case by (simp add: returns_def)
qed (simp add: returns_def)

lemma v_flat_bounded:
  assumes "v_flatTypeIdxInRecGroup m idx g = Some y" "type_count m < 2 ^ 32"
  shows "y < type_count m"
proof (cases "ti_Rec idx")
  case False
  then show ?thesis using assms(1) flat_lookup [of m "unat (ti_Index idx)"]
    by (auto simp: v_flatTypeIdxInRecGroup_def validTypeIdx_def v_subtypeByTypeIdxWithRecGroup_def split: if_splits)
next
  case True
  let ?k = "nat g"
  have k: "?k < length (m_Types m)" and lt: "ti_Index idx < of_nat (length (SubTypes (m_Types m ! ?k)))"
    and y: "y = dir_bases (ensureTypeIndex m) ! ?k + unat (ti_Index idx)"
    using assms(1) True by (auto simp: v_flatTypeIdxInRecGroup_def split: if_splits)
  have base: "dir_bases (ensureTypeIndex m) ! ?k = group_base (m_Types m) ?k"
    using bases_nth [of ?k "m_Types m" 0 0] k by (simp add: ensureTypeIndex_eq typeIndex_def)
  have "length (SubTypes (m_Types m ! ?k)) < 2 ^ 32" using group_base_le [OF k] assms(2) by simp
  then have "unat (ti_Index idx) < length (SubTypes (m_Types m ! ?k))"
    using lt unat_of_nat_small [of "length (SubTypes (m_Types m ! ?k))", where 'a = 32] by (simp add: word_less_nat_alt)
  then show ?thesis using group_base_le [OF k] base y by simp
qed

lemma super_edge_bounded: "super_edge m x y \<Longrightarrow> type_count m < 2 ^ 32 \<Longrightarrow> x < type_count m \<and> y < type_count m"
  using flat_lookup [of m x] v_flat_bounded by (auto simp: super_edge_def)

lemma supers_bounded:
  assumes "(super_edge m)\<^sup>*\<^sup>* x z" "x < type_count m" "type_count m < 2 ^ 32"
  shows "z < type_count m"
  using assms(1) by (induction rule: rtranclp_induct) (use assms super_edge_bounded in auto)

abbreviation absolute :: "nat \<Rightarrow> TypeIdx" where
  "absolute x \<equiv> \<lparr>ti_Index = of_nat x, ti_Rec = False\<rparr>"

lemma v_flat_absolute:
  assumes "x < type_count m" "type_count m < 2 ^ 32"
  shows "v_flatTypeIdxInRecGroup m (absolute x) g = Some x"
proof -
  have "unat (of_nat x :: u32) = x" using assms by (intro unat_of_nat_small) simp
  then show ?thesis using assms(1) flat_lookup [of m x]
    by (simp add: v_flatTypeIdxInRecGroup_def validTypeIdx_def v_subtypeByTypeIdxWithRecGroup_def)
qed

lemma typeIdxEquivalent_absolute:
  "x < type_count m \<Longrightarrow> y < type_count m \<Longrightarrow> type_count m < 2 ^ 32 \<Longrightarrow> typeIdxEquivalent m (absolute x) (absolute y) = Some (type_equiv m x y)"
  by (simp add: typeIdxEquivalent_iff v_flat_absolute)

lemma hits_iff: "z < type_count m \<Longrightarrow> b < type_count m \<Longrightarrow> type_count m < 2 ^ 32 \<Longrightarrow> hits m b z \<longleftrightarrow> type_equiv m z b"
  using type_equiv_refl by (auto simp: hits_def typeIdxEquivalent_absolute)

lemma visitType_decides:
  assumes "x < type_count m" "y < type_count m" "type_count m < 2 ^ 32"
  shows "map_option fst (visitType (visitFuel m) m y x []) = Some (subtype_of m x y)"
proof -
  have "card (unseen m []) < visitFuel m" by (simp add: visitFuel_def flat_count)
  then obtain ok S where run: "visitType (visitFuel m) m y x [] = Some (ok, S)"
    using returns_visitType [of m "visitFuel m" y] unfolding returns_def by blast
  note post = searches_visitType [of m y "visitFuel m", unfolded searches_def, rule_format, OF run]
  have "ok \<longleftrightarrow> subtype_of m x y"
  proof
    assume ok
    then obtain z where "(super_edge m)\<^sup>*\<^sup>* x z" "hits m y z" using post by blast
    then show "subtype_of m x y" using hits_iff assms supers_bounded unfolding subtype_of_def by blast
  next
    assume "subtype_of m x y"
    then obtain z where z: "(super_edge m)\<^sup>*\<^sup>* x z" "type_equiv m z y" by (auto simp: subtype_of_def)
    have "hits m y z" using z hits_iff assms supers_bounded by blast
    show ok
    proof (rule ccontr)
      assume no: "\<not> ok"
      then have S: "x \<in> set S" "explored m y {} (set S)" using post by auto
      have "z \<in> set S" using z(1) by (induction rule: rtranclp_induct) (use S in \<open>auto simp: explored_def\<close>)
      then show False using S(2) \<open>hits m y z\<close> by (auto simp: explored_def)
    qed
  qed
  then show ?thesis using run by simp
qed

section \<open>Declared supertypes and equivalence\<close>

definition kind_of :: "Module \<Rightarrow> nat \<Rightarrow> CompTypeKind option" where
  "kind_of m x = map_option (\<lambda>(st, _). ct_Kind (st_Comp st)) (subtypeByFlatTypeIdx m x)"

definition kinds_kept :: "Module \<Rightarrow> bool" where
  "kinds_kept m \<longleftrightarrow> (\<forall>x y. super_edge m x y \<longrightarrow> kind_of m x = kind_of m y)"

lemma type_equiv_members:
  assumes "type_equiv m x y" "x \<noteq> y"
  obtains g h xs ys where "subtypeByFlatTypeIdx m x = Some (xs, g)" "subtypeByFlatTypeIdx m y = Some (ys, h)"
    "sub_match m (type_equiv m) (int g) (int h) xs ys"
proof -
  have tm: "type_match m (type_equiv m) x y" using assms type_equiv_iff [of m x y] by blast
  obtain g l b h k c where loc: "groupLocation m x = Some (g, l, b)" "groupLocation m y = Some (h, k, c)"
    using type_match_located [OF tm] by blast
  have "subtypeByFlatTypeIdx m x = Some (SubTypes (m_Types m ! g) ! l, g)" "subtypeByFlatTypeIdx m y = Some (SubTypes (m_Types m ! h) ! k, h)"
    using groupLocation_at(2) groupLocation_cases [OF loc(1)] groupLocation_cases [OF loc(2)] by auto
  then show ?thesis using that tm type_match_at [OF loc] by blast
qed

lemma type_equiv_kind: "type_equiv m x y \<Longrightarrow> kind_of m x = kind_of m y"
  by (cases "x = y") (auto simp: kind_of_def sub_match_def elim!: type_equiv_members)

lemma super_edge_simulates:
  assumes "type_equiv m x y" "super_edge m y w"
  shows "\<exists>w'. super_edge m x w' \<and> type_equiv m w' w"
proof (cases "x = y")
  case True
  then show ?thesis using assms(2) type_equiv_refl by blast
next
  case False
  with assms(1) obtain g h xs ys where st: "subtypeByFlatTypeIdx m x = Some (xs, g)" "subtypeByFlatTypeIdx m y = Some (ys, h)"
    and sm: "sub_match m (type_equiv m) (int g) (int h) xs ys" by (rule type_equiv_members)
  obtain idx where idx: "idx \<in> set (st_Supers ys)" "v_flatTypeIdxInRecGroup m idx (int h) = Some w"
    using assms(2) st(2) by (auto simp: super_edge_def)
  then obtain j where "j < length (st_Supers xs)" "st_Supers ys ! j = idx" "flat_match m (type_equiv m) (int g) (int h) (st_Supers xs ! j) idx"
    using sm by (auto simp: sub_match_def list_all2_conv_all_nth in_set_conv_nth)
  then show ?thesis using st(1) idx(2) nth_mem [of j "st_Supers xs"] unfolding flat_match_def super_edge_def by fastforce
qed

lemma supers_simulate:
  assumes "(super_edge m)\<^sup>*\<^sup>* y w" "type_equiv m x y"
  shows "\<exists>w'. (super_edge m)\<^sup>*\<^sup>* x w' \<and> type_equiv m w' w"
  using assms(1)
proof (induction rule: rtranclp_induct)
  case base
  then show ?case using assms(2) by blast
next
  case (step v w)
  then obtain v' where "(super_edge m)\<^sup>*\<^sup>* x v'" "type_equiv m v' v" by blast
  then show ?case using super_edge_simulates step.hyps(2) by (meson rtranclp.rtrancl_into_rtrancl)
qed

lemma subtype_of_refl: "subtype_of m x x"
  using type_equiv_refl by (auto simp: subtype_of_def)

lemma subtype_of_trans:
  assumes "subtype_of m x y" "subtype_of m y z"
  shows "subtype_of m x z"
proof -
  obtain u v where "(super_edge m)\<^sup>*\<^sup>* x u" "type_equiv m u y" "(super_edge m)\<^sup>*\<^sup>* y v" "type_equiv m v z"
    using assms by (auto simp: subtype_of_def)
  moreover from this obtain v' where "(super_edge m)\<^sup>*\<^sup>* u v'" "type_equiv m v' v" using supers_simulate by blast
  ultimately show ?thesis unfolding subtype_of_def by (meson rtranclp_trans type_equiv_trans)
qed

lemma subtype_of_equiv: "type_equiv m x y \<Longrightarrow> subtype_of m x y"
  by (auto simp: subtype_of_def)

lemma subtype_of_kind:
  assumes "kinds_kept m" "subtype_of m x y"
  shows "kind_of m x = kind_of m y"
proof -
  obtain z where "(super_edge m)\<^sup>*\<^sup>* x z" "type_equiv m z y" using assms(2) by (auto simp: subtype_of_def)
  moreover from this(1) have "kind_of m x = kind_of m z" by (induction rule: rtranclp_induct) (use assms(1) in \<open>auto simp: kinds_kept_def\<close>)
  ultimately show ?thesis using type_equiv_kind by metis
qed

section \<open>Subtyping of references\<close>

definition denotes :: "Module \<Rightarrow> HeapType \<Rightarrow> nat \<Rightarrow> bool" where
  "denotes m h x \<longleftrightarrow> HeapType_Kind h = HeapTypeIndex \<and> v_flatTypeIdxInRecGroup m (HeapType_Type h) (-1) = Some x"

definition bottom_of :: "CompTypeKind \<Rightarrow> AbsHeapType" where
  "bottom_of k = (case k of CompFunc \<Rightarrow> HeapNoFunc | _ \<Rightarrow> HeapNone)"

definition top_of :: "CompTypeKind \<Rightarrow> AbsHeapType" where
  "top_of k = (case k of CompFunc \<Rightarrow> HeapFunc | CompStruct \<Rightarrow> HeapStruct | CompArray \<Rightarrow> HeapArray)"

text \<open>Subtyping of two heap types that are not equivalent.\<close>

inductive heap_below :: "Module \<Rightarrow> HeapType \<Rightarrow> HeapType \<Rightarrow> bool" for m where
  abs: "HeapType_Kind a = HeapAbs \<Longrightarrow> HeapType_Kind b = HeapAbs \<Longrightarrow> absHeapSubtype (HeapType_Abs a) (HeapType_Abs b) \<Longrightarrow> heap_below m a b"
| bottom: "HeapType_Kind a = HeapAbs \<Longrightarrow> denotes m b y \<Longrightarrow> kind_of m y = Some k \<Longrightarrow> HeapType_Abs a = bottom_of k \<Longrightarrow> heap_below m a b"
| top: "denotes m a x \<Longrightarrow> kind_of m x = Some k \<Longrightarrow> HeapType_Kind b = HeapAbs \<Longrightarrow> absHeapSubtype (top_of k) (HeapType_Abs b) \<Longrightarrow> heap_below m a b"
| declared: "denotes m a x \<Longrightarrow> denotes m b y \<Longrightarrow> subtype_of m x y \<Longrightarrow> heap_below m a b"

inductive_cases heap_belowE: "heap_below m a b"

lemma resolvedCompType_kind:
  "map_option ct_Kind (resolvedCompType m idx) = Option.bind (v_flatTypeIdxInRecGroup m idx (-1)) (kind_of m)"
proof (cases "ti_Rec idx")
  case False
  have "ct_Kind (v_resolveCompTypeRecIndexes m ct g) = ct_Kind ct" for ct g
    by (cases "ct_Kind ct") (simp_all add: v_resolveCompTypeRecIndexes_def)
  then show ?thesis using False
    by (cases "subtypeByFlatTypeIdx m (unat (ti_Index idx))")
      (auto simp: resolvedCompType_def v_flatTypeIdxInRecGroup_def validTypeIdx_def v_subtypeByTypeIdxWithRecGroup_def kind_of_def)
qed (simp add: resolvedCompType_def v_flatTypeIdxInRecGroup_def)

lemma heapTypeEquivalent_iff:
  "heapTypeEquivalent m a b \<longleftrightarrow> equalHeapType a b \<or> (\<exists>x y. denotes m a x \<and> denotes m b y \<and> type_equiv m x y)"
  by (auto simp: heapTypeEquivalent_def typeIdxEquivalent_iff denotes_def)

lemma typeIdxSuperSubtype_iff:
  assumes "type_count m < 2 ^ 32"
  shows "typeIdxSuperSubtype m ([], []) a b = Some
    (\<exists>x y. v_flatTypeIdxInRecGroup m a (-1) = Some x \<and> v_flatTypeIdxInRecGroup m b (-1) = Some y \<and> subtype_of m x y)"
  using visitType_decides v_flat_bounded assms by (auto simp: typeIdxSuperSubtype_def split: option.splits)

lemma resolved_denotes:
  assumes "HeapType_Kind h = HeapTypeIndex" "resolvedCompType m (HeapType_Type h) = Some ct"
  shows "\<exists>x. denotes m h x \<and> kind_of m x = Some (ct_Kind ct)"
  using resolvedCompType_kind [of m "HeapType_Type h"] assms
  by (cases "v_flatTypeIdxInRecGroup m (HeapType_Type h) (-1)") (auto simp: denotes_def)

lemma resolved_bottom:
  assumes "HeapType_Kind h = HeapTypeIndex"
  shows "(case resolvedCompType m (HeapType_Type h) of None \<Rightarrow> False
      | Some ct \<Rightarrow> (case ct_Kind ct of CompFunc \<Rightarrow> a = HeapNoFunc | _ \<Rightarrow> a = HeapNone))
    \<longleftrightarrow> (\<exists>y k. denotes m h y \<and> kind_of m y = Some k \<and> a = bottom_of k)"
proof (cases "resolvedCompType m (HeapType_Type h)")
  case None
  then show ?thesis using resolvedCompType_kind [of m "HeapType_Type h"] by (auto simp: denotes_def split: bind_splits)
next
  case (Some ct)
  then obtain y where "denotes m h y" "kind_of m y = Some (ct_Kind ct)" using resolved_denotes assms by blast
  then show ?thesis using Some by (cases "ct_Kind ct") (auto simp: bottom_of_def denotes_def)
qed

lemma resolved_top:
  assumes "HeapType_Kind h = HeapTypeIndex"
  shows "(case resolvedCompType m (HeapType_Type h) of None \<Rightarrow> False
      | Some ct \<Rightarrow> (case ct_Kind ct of CompStruct \<Rightarrow> absHeapSubtype HeapStruct b | CompArray \<Rightarrow> absHeapSubtype HeapArray b
          | CompFunc \<Rightarrow> absHeapSubtype HeapFunc b))
    \<longleftrightarrow> (\<exists>x k. denotes m h x \<and> kind_of m x = Some k \<and> absHeapSubtype (top_of k) b)"
proof (cases "resolvedCompType m (HeapType_Type h)")
  case None
  then show ?thesis using resolvedCompType_kind [of m "HeapType_Type h"] by (auto simp: denotes_def split: bind_splits)
next
  case (Some ct)
  then obtain x where "denotes m h x" "kind_of m x = Some (ct_Kind ct)" using resolved_denotes assms by blast
  then show ?thesis using Some by (cases "ct_Kind ct") (auto simp: top_of_def denotes_def)
qed

lemma heap_below_kinds:
  "HeapType_Kind a = HeapAbs \<Longrightarrow> HeapType_Kind b = HeapAbs \<Longrightarrow> heap_below m a b \<longleftrightarrow> absHeapSubtype (HeapType_Abs a) (HeapType_Abs b)"
  "HeapType_Kind a = HeapAbs \<Longrightarrow> HeapType_Kind b = HeapTypeIndex \<Longrightarrow>
     heap_below m a b \<longleftrightarrow> (\<exists>y k. denotes m b y \<and> kind_of m y = Some k \<and> HeapType_Abs a = bottom_of k)"
  "HeapType_Kind a = HeapTypeIndex \<Longrightarrow> HeapType_Kind b = HeapAbs \<Longrightarrow>
     heap_below m a b \<longleftrightarrow> (\<exists>x k. denotes m a x \<and> kind_of m x = Some k \<and> absHeapSubtype (top_of k) (HeapType_Abs b))"
  "HeapType_Kind a = HeapTypeIndex \<Longrightarrow> HeapType_Kind b = HeapTypeIndex \<Longrightarrow>
     heap_below m a b \<longleftrightarrow> (\<exists>x y. denotes m a x \<and> denotes m b y \<and> subtype_of m x y)"
  "HeapType_Kind a \<in> {HeapDefType, heapBottom} \<or> HeapType_Kind b \<in> {HeapDefType, heapBottom} \<Longrightarrow> \<not> heap_below m a b"
  by (auto simp: denotes_def intro: heap_below.intros elim!: heap_belowE)

lemma refSubtype_iff:
  assumes "type_count m < 2 ^ 32"
  shows "refSubtype m ([], []) a b \<longleftrightarrow>
    (Nullable a \<longrightarrow> Nullable b) \<and>
    (HeapType_Kind (RefType_Heap a) = heapBottom \<or>
     (if heapTypeEquivalent m (RefType_Heap a) (RefType_Heap b) then Exact b \<longrightarrow> Exact a
      else heap_below m (RefType_Heap a) (RefType_Heap b) \<and>
        (HeapType_Kind (RefType_Heap a) = HeapTypeIndex \<and> HeapType_Kind (RefType_Heap b) = HeapTypeIndex \<longrightarrow> \<not> Exact b)))"
proof (cases "(Nullable a \<longrightarrow> Nullable b) \<and> HeapType_Kind (RefType_Heap a) \<noteq> heapBottom \<and> \<not> heapTypeEquivalent m (RefType_Heap a) (RefType_Heap b)")
  case True
  then show ?thesis
    by (cases "HeapType_Kind (RefType_Heap a)"; cases "HeapType_Kind (RefType_Heap b)")
      (auto simp: refSubtype_def Let_def heap_below_kinds typeIdxSuperSubtype_iff [OF assms] resolved_bottom resolved_top denotes_def)
qed (auto simp: refSubtype_def Let_def)

lemma absHeapSubtype_iff:
  "absHeapSubtype a b \<longleftrightarrow> a = b \<or> (a, b) \<in> {(HeapNoFunc, HeapFunc), (HeapNoExtern, HeapExtern), (HeapNoExn, HeapExn),
     (HeapNone, HeapAny), (HeapNone, HeapEq), (HeapNone, HeapStruct), (HeapNone, HeapArray), (HeapNone, HeapI31),
     (HeapI31, HeapEq), (HeapI31, HeapAny), (HeapStruct, HeapEq), (HeapStruct, HeapAny), (HeapArray, HeapEq), (HeapArray, HeapAny),
     (HeapEq, HeapAny)}"
proof (cases "a = b")
  case False
  then show ?thesis unfolding absHeapSubtype_def
    by (simp only: if_False) (cases "a = HeapNoFunc"; cases "a = HeapNoExtern"; cases "a = HeapNoExn"; cases "a = HeapNone"; simp; fail | auto)
qed (simp add: absHeapSubtype_def)

lemma absHeapSubtype_trans:
  assumes "absHeapSubtype a b" "absHeapSubtype b c"
  shows "absHeapSubtype a c"
proof (cases "a = b \<or> b = c")
  case False
  then show ?thesis using assms unfolding absHeapSubtype_iff by (elim disjE insertE) simp_all
qed (use assms in auto)

lemma absHeapSubtype_antisym: "absHeapSubtype a b \<Longrightarrow> absHeapSubtype b a \<Longrightarrow> a = b"
  unfolding absHeapSubtype_iff by (elim disjE insertE) simp_all

lemma bottom_below_top: "absHeapSubtype (top_of k) b \<Longrightarrow> absHeapSubtype (bottom_of k) b"
  by (cases k) (auto simp: absHeapSubtype_iff top_of_def bottom_of_def)

lemma bottom_minimal: "absHeapSubtype a (bottom_of k) \<Longrightarrow> a = bottom_of k"
  by (cases k) (auto simp: absHeapSubtype_iff bottom_of_def)

lemma top_not_bottom: "\<not> absHeapSubtype (top_of k) (bottom_of l)"
  by (cases k; cases l) (auto simp: absHeapSubtype_iff top_of_def bottom_of_def)

lemma denotes_kind: "denotes m h x \<Longrightarrow> HeapType_Kind h = HeapTypeIndex"
  by (simp add: denotes_def)

lemma denotes_fun: "denotes m h x \<Longrightarrow> denotes m h y \<Longrightarrow> x = y"
  by (simp add: denotes_def)

lemma heap_below_trans:
  assumes "kinds_kept m" "heap_below m a b" "heap_below m b c"
  shows "heap_below m a c"
  using assms(2)
proof cases
  case abs
  from assms(3) show ?thesis
  proof cases
    case abs': abs
    then show ?thesis using abs absHeapSubtype_trans by (blast intro: heap_below.abs)
  next
    case (bottom y k)
    then show ?thesis using abs bottom_minimal [of "HeapType_Abs a" k] by (auto intro: heap_below.bottom)
  qed (use abs in \<open>auto dest: denotes_kind\<close>)
next
  case (bottom y k)
  from assms(3) show ?thesis
  proof cases
    case (top x l)
    then have "l = k" using bottom denotes_fun by fastforce
    then show ?thesis using bottom top bottom_below_top by (auto intro: heap_below.abs)
  next
    case (declared x z)
    then have "kind_of m z = Some k" using bottom denotes_fun subtype_of_kind [OF assms(1), of x z] by fastforce
    then show ?thesis using bottom declared by (blast intro: heap_below.bottom)
  qed (use bottom in \<open>auto dest: denotes_kind\<close>)
next
  case (top x k)
  from assms(3) show ?thesis
  proof cases
    case abs
    then show ?thesis using top absHeapSubtype_trans by (blast intro: heap_below.top)
  next
    case (bottom y l)
    then show ?thesis using top top_not_bottom [of k l] by simp
  qed (use top in \<open>auto dest: denotes_kind\<close>)
next
  case (declared x y)
  from assms(3) show ?thesis
  proof cases
    case (top z k)
    then have "kind_of m x = Some k" using declared denotes_fun subtype_of_kind [OF assms(1), of x y] by fastforce
    then show ?thesis using declared top by (blast intro: heap_below.top)
  next
    case (declared z w)
    then show ?thesis using \<open>denotes m a x\<close> \<open>denotes m b y\<close> \<open>subtype_of m x y\<close> denotes_fun subtype_of_trans by (blast intro: heap_below.declared)
  qed (use declared in \<open>auto dest: denotes_kind\<close>)
qed

lemma equalHeapType_same:
  "equalHeapType a b \<Longrightarrow> HeapType_Kind a = HeapType_Kind b \<and> HeapType_Abs a = HeapType_Abs b \<and> HeapType_Type a = HeapType_Type b"
  by (auto simp: equalHeapType_def split: if_splits)

lemma equalHeapType_denotes: "equalHeapType a b \<Longrightarrow> denotes m a x \<longleftrightarrow> denotes m b x"
  using equalHeapType_same by (auto simp: denotes_def)

lemma equalHeapType_equiv:
  "equalHeapType a a" "equalHeapType a b \<Longrightarrow> equalHeapType b a" "equalHeapType a b \<Longrightarrow> equalHeapType b c \<Longrightarrow> equalHeapType a c"
  by (auto simp: equalHeapType_def split: if_splits prod.splits)

lemma heapTypeEquivalent_kind: "heapTypeEquivalent m a b \<Longrightarrow> HeapType_Kind a = HeapType_Kind b"
  by (auto simp: heapTypeEquivalent_iff denotes_def dest: equalHeapType_same)

lemma heapTypeEquivalent_sym: "heapTypeEquivalent m a b \<Longrightarrow> heapTypeEquivalent m b a"
  unfolding heapTypeEquivalent_iff using equalHeapType_equiv(2) type_equiv_sym by blast

lemma heapTypeEquivalent_trans: "heapTypeEquivalent m a b \<Longrightarrow> heapTypeEquivalent m b c \<Longrightarrow> heapTypeEquivalent m a c"
  unfolding heapTypeEquivalent_iff
  using equalHeapType_equiv(3) equalHeapType_denotes denotes_fun type_equiv_trans by metis

lemma heap_below_equal:
  assumes "equalHeapType a b"
  shows "heap_below m a c \<longleftrightarrow> heap_below m b c" "heap_below m c a \<longleftrightarrow> heap_below m c b"
  using equalHeapType_same [OF assms] equalHeapType_denotes [OF assms, of m] unfolding heap_below.simps by auto

lemma heap_below_equiv:
  assumes "kinds_kept m" "heapTypeEquivalent m a b"
  shows "heap_below m b c \<Longrightarrow> heap_below m a c" "heap_below m c a \<Longrightarrow> heap_below m c b"
proof -
  have below: "equalHeapType a b \<or> heap_below m a b"
    using assms(2) unfolding heapTypeEquivalent_iff by (blast intro: heap_below.declared subtype_of_equiv)
  show "heap_below m b c \<Longrightarrow> heap_below m a c" "heap_below m c a \<Longrightarrow> heap_below m c b"
    using below heap_below_trans [OF assms(1)] heap_below_equal by blast+
qed

lemma heap_below_cycle:
  assumes "heap_below m a b" "heap_below m b c" "heapTypeEquivalent m a c" "heap_canon a" "heap_canon b"
  shows "equalHeapType a b \<or> HeapType_Kind b = HeapTypeIndex \<and> HeapType_Kind c = HeapTypeIndex"
proof -
  have k: "HeapType_Kind a = HeapType_Kind c" using heapTypeEquivalent_kind [OF assms(3)] .
  show ?thesis
  proof (cases "HeapType_Kind c = HeapAbs")
    case True
    then have eq: "HeapType_Abs a = HeapType_Abs c" using assms(3) equalHeapType_same denotes_kind by (fastforce simp: heapTypeEquivalent_iff)
    have "HeapType_Kind b = HeapAbs"
    proof (rule ccontr)
      assume "HeapType_Kind b \<noteq> HeapAbs"
      then have "HeapType_Kind b = HeapTypeIndex" using assms(1) True k heap_below_kinds(5) [of a b m] by (cases "HeapType_Kind b") auto
      then obtain x k' y l where "absHeapSubtype (top_of k') (HeapType_Abs c)" "HeapType_Abs a = bottom_of l"
        using assms(1,2) True k by (auto simp: heap_below_kinds)
      then show False using eq top_not_bottom by simp
    qed
    then have "heap_view a = heap_view b"
      using assms(1,2) True k eq absHeapSubtype_antisym by (auto simp: heap_below_kinds heap_view_def)
    then show ?thesis using equalHeapType_view assms(4,5) by blast
  next
    case False
    then have c: "HeapType_Kind c = HeapTypeIndex" using assms(2) heap_below_kinds(5) [of b c m] by (cases "HeapType_Kind c") auto
    have "HeapType_Kind b \<noteq> HeapAbs"
    proof
      assume "HeapType_Kind b = HeapAbs"
      then obtain k' l where "absHeapSubtype (top_of k') (HeapType_Abs b)" "HeapType_Abs b = bottom_of l"
        using assms(1,2) c k by (auto simp: heap_below_kinds)
      then show False using top_not_bottom by simp
    qed
    then show ?thesis using c assms(2) heap_below_kinds(5) [of b c m] by (cases "HeapType_Kind b") auto
  qed
qed

lemma refSubtype_refl: "refSubtype m anc a a"
  using equalHeapType_equiv(1) by (simp add: refSubtype_def heapTypeEquivalent_def Let_def)

lemma refSubtype_transitive:
  assumes n: "type_count m < 2 ^ 32" and kept: "kinds_kept m"
    and canon: "heap_canon (RefType_Heap a)" "heap_canon (RefType_Heap b)"
    and ab: "refSubtype m ([], []) a b" and bc: "refSubtype m ([], []) b c"
  shows "refSubtype m ([], []) a c"
proof -
  let ?A = "RefType_Heap a" and ?B = "RefType_Heap b" and ?C = "RefType_Heap c"
  note R = refSubtype_iff [OF n]
  have null: "Nullable a \<longrightarrow> Nullable c" using ab bc unfolding R by blast
  show ?thesis
  proof (cases "HeapType_Kind ?A = heapBottom")
    case True
    then show ?thesis using null unfolding R by blast
  next
    case A: False
    have "HeapType_Kind ?B \<noteq> heapBottom"
      using ab A heapTypeEquivalent_kind heap_below_kinds(5) [of ?A ?B m] unfolding R by (metis insertCI)
    then have AB: "if heapTypeEquivalent m ?A ?B then Exact b \<longrightarrow> Exact a
        else heap_below m ?A ?B \<and> (HeapType_Kind ?A = HeapTypeIndex \<and> HeapType_Kind ?B = HeapTypeIndex \<longrightarrow> \<not> Exact b)"
      and BC: "if heapTypeEquivalent m ?B ?C then Exact c \<longrightarrow> Exact b
        else heap_below m ?B ?C \<and> (HeapType_Kind ?B = HeapTypeIndex \<and> HeapType_Kind ?C = HeapTypeIndex \<longrightarrow> \<not> Exact c)"
      using ab bc A unfolding R by blast+
    note tools = heapTypeEquivalent_trans heapTypeEquivalent_sym heapTypeEquivalent_kind heap_below_equiv [OF kept]
    have "if heapTypeEquivalent m ?A ?C then Exact c \<longrightarrow> Exact a
        else heap_below m ?A ?C \<and> (HeapType_Kind ?A = HeapTypeIndex \<and> HeapType_Kind ?C = HeapTypeIndex \<longrightarrow> \<not> Exact c)"
    proof (cases "heapTypeEquivalent m ?A ?B"; cases "heapTypeEquivalent m ?B ?C")
      assume e: "heapTypeEquivalent m ?A ?B" "heapTypeEquivalent m ?B ?C"
      then show ?thesis using AB BC tools(1) by simp
    next
      assume e: "heapTypeEquivalent m ?A ?B" "\<not> heapTypeEquivalent m ?B ?C"
      then have "\<not> heapTypeEquivalent m ?A ?C" using tools(1,2) by blast
      then show ?thesis using AB BC e tools(3,4) by simp
    next
      assume e: "\<not> heapTypeEquivalent m ?A ?B" "heapTypeEquivalent m ?B ?C"
      then have "\<not> heapTypeEquivalent m ?A ?C" using tools(1,2) by blast
      then show ?thesis using AB BC e tools(3,5) by auto
    next
      assume e: "\<not> heapTypeEquivalent m ?A ?B" "\<not> heapTypeEquivalent m ?B ?C"
      then have b: "heap_below m ?A ?B" "heap_below m ?B ?C" using AB BC by auto
      have "equalHeapType ?A ?B \<Longrightarrow> False" using e(1) by (simp add: heapTypeEquivalent_def)
      moreover have "HeapType_Kind ?A = HeapTypeIndex \<and> HeapType_Kind ?C = HeapTypeIndex \<longrightarrow> HeapType_Kind ?B = HeapTypeIndex"
        using b top_not_bottom by (cases "HeapType_Kind ?B") (auto simp: heap_below_kinds)
      ultimately show ?thesis using heap_below_cycle [OF b _ canon] heap_below_trans [OF kept b] BC e(2) by auto
    qed
    then show ?thesis using null unfolding R by blast
  qed
qed

end
