(* ===== verification/TypeSection.thy ===== *)
theory TypeSection
  imports Subtyping
begin

text \<open>
  The validation of the declarations of a type section (\<^verbatim>\<open>validate_gc_helpers.go\<close>): every declared
  supertype must exist, be open, have the same kind and be structurally matched, descriptors must
  form complete squares, and the supertype graph must have no cycle. Deep graphs get an interval
  numbering that answers ancestor tests without a search. The lemmas show that the cycle check
  accepts exactly the acyclic graphs, that the numbering only relates types to their ancestors, and
  that subtyping on an accepted section is the reference relation and a preorder.
\<close>

section \<open>Structural subtyping of declarations\<close>

definition subVal :: "Module \<Rightarrow> ancestry \<Rightarrow> ValType \<Rightarrow> nat \<Rightarrow> ValType \<Rightarrow> nat \<Rightarrow> bool" where
  "subVal m anc a0 aGroup b0 bGroup =
     (let a = v_resolveValTypeRecIndexes m a0 (int aGroup); b = v_resolveValTypeRecIndexes m b0 (int bGroup)
      in if ValType_Kind a = ValBot then True
         else if ValType_Kind a \<noteq> ValType_Kind b \<or> ValType_Num a \<noteq> ValType_Num b then False
         else ValType_Kind a \<noteq> ValRef \<or> refSubtype m anc (ValType_Ref a) (ValType_Ref b))"

definition storageSubtype :: "Module \<Rightarrow> ancestry \<Rightarrow> StorageType \<Rightarrow> nat \<Rightarrow> StorageType \<Rightarrow> nat \<Rightarrow> bool" where
  "storageSubtype m anc a aGroup b bGroup =
     (if Storage_Packed a \<or> Storage_Packed b then Storage_Packed a = Storage_Packed b \<and> Storage_Pack a = Storage_Pack b
      else subVal m anc (Storage_Val a) aGroup (Storage_Val b) bGroup)"

definition fieldSubtype :: "Module \<Rightarrow> ancestry \<Rightarrow> FieldType \<Rightarrow> nat \<Rightarrow> FieldType \<Rightarrow> nat \<Rightarrow> bool" where
  "fieldSubtype m anc a aGroup b bGroup =
     (if Field_Mut a \<noteq> Field_Mut b then False
      else if \<not> storageSubtype m anc (Field_Storage a) aGroup (Field_Storage b) bGroup then False
      else Field_Mut a = Const \<or> storageSubtype m anc (Field_Storage b) bGroup (Field_Storage a) aGroup)"

definition compTypeSubtype :: "Module \<Rightarrow> ancestry \<Rightarrow> CompType \<Rightarrow> nat \<Rightarrow> CompType \<Rightarrow> nat \<Rightarrow> bool" where
  "compTypeSubtype m anc lower lowerGroup upper upperGroup =
     (if ct_Kind lower \<noteq> ct_Kind upper then False
      else case ct_Kind lower of
        CompFunc \<Rightarrow>
          if length (ct_Params lower) \<noteq> length (ct_Params upper) \<or> length (ct_Results lower) \<noteq> length (ct_Results upper) then False
          else list_all2 (\<lambda>p q. subVal m anc q upperGroup p lowerGroup) (ct_Params lower) (ct_Params upper) \<and>
               list_all2 (\<lambda>p q. subVal m anc p lowerGroup q upperGroup) (ct_Results lower) (ct_Results upper)
      | CompStruct \<Rightarrow>
          if length (ct_Fields lower) < length (ct_Fields upper) then False
          else list_all2 (\<lambda>p q. fieldSubtype m anc p lowerGroup q upperGroup) (take (length (ct_Fields upper)) (ct_Fields lower)) (ct_Fields upper)
      | CompArray \<Rightarrow> fieldSubtype m anc (ct_Array lower) lowerGroup (ct_Array upper) upperGroup)"

section \<open>Descriptors\<close>

definition checkLink :: "Module \<Rightarrow> SubType \<Rightarrow> nat \<Rightarrow> nat \<Rightarrow> TypeIdx \<Rightarrow> bool \<Rightarrow> unit validated" where
  "checkLink m st recGroup member idx describesEdge =
     (let members = SubTypes (m_Types m ! recGroup)
      in if \<not> ti_Rec idx \<or> ti_Index idx \<ge> of_nat (length members) then Inl ErrTypeMismatch
         else if describesEdge \<and> ti_Index idx \<ge> of_nat member then Inl ErrTypeMismatch
         else let other = members ! unat (ti_Index idx)
              in if ct_Kind (st_Comp other) \<noteq> CompStruct then Inl ErrTypeMismatch
                 else if st_Final st \<noteq> st_Final other then Inl ErrTypeMismatch
                 else case OptionalTypeIdx_Get (if describesEdge then tm_Descriptor (st_Metadata other) else tm_Describes (st_Metadata other)) of
                   (ret, present) \<Rightarrow>
                     if \<not> present \<or> ret \<noteq> \<lparr>ti_Index = of_nat member, ti_Rec = True\<rparr> then Inl ErrTypeMismatch else Inr ())"

definition validateDescriptorMetadata :: "Module \<Rightarrow> SubType \<Rightarrow> nat \<Rightarrow> nat \<Rightarrow> unit validated" where
  "validateDescriptorMetadata m st recGroup member =
     (case (OptionalTypeIdx_Get (tm_Describes (st_Metadata st)), OptionalTypeIdx_Get (tm_Descriptor (st_Metadata st))) of
        ((describes, hasDescribes), (descriptor, hasDescriptor)) \<Rightarrow>
          if \<not> hasDescribes \<and> \<not> hasDescriptor then Inr ()
          else if ct_Kind (st_Comp st) \<noteq> CompStruct then Inl ErrTypeMismatch
          else case (if hasDescribes then checkLink m st recGroup member describes True else Inr ()) of
            Inl e \<Rightarrow> Inl e
          | Inr _ \<Rightarrow> if hasDescriptor then checkLink m st recGroup member descriptor False else Inr ())"

definition validateDescriptorSubtypeEdge :: "Module \<Rightarrow> OptionalTypeIdx \<Rightarrow> nat \<Rightarrow> OptionalTypeIdx \<Rightarrow> nat \<Rightarrow> unit validated" where
  "validateDescriptorSubtypeEdge m lower lowerGroup upper upperGroup =
     (case (OptionalTypeIdx_Get lower, OptionalTypeIdx_Get upper) of ((lowerIdx, lowerPresent), (upperIdx, upperPresent)) \<Rightarrow>
        if lowerPresent \<noteq> upperPresent then Inl ErrTypeMismatch
        else if \<not> lowerPresent then Inr ()
        else case (v_flatTypeIdxInRecGroup m lowerIdx (int lowerGroup), v_flatTypeIdxInRecGroup m upperIdx (int upperGroup)) of
          (Some lowerFlat, Some upperFlat) \<Rightarrow>
            (case subtypeByFlatTypeIdx m lowerFlat of
               None \<Rightarrow> Inl ErrTypeMismatch
             | Some (descriptor, descriptorGroup) \<Rightarrow>
                 if length (st_Supers descriptor) \<noteq> 1 then Inl ErrTypeMismatch
                 else case v_flatTypeIdxInRecGroup m (st_Supers descriptor ! 0) (int descriptorGroup) of
                   None \<Rightarrow> Inl ErrUnknownType
                 | Some descriptorSuper \<Rightarrow> if descriptorSuper \<noteq> upperFlat then Inl ErrTypeMismatch else Inr ())
        | _ \<Rightarrow> Inl ErrUnknownType)"

definition validateDescriptorSubtypeMetadata :: "Module \<Rightarrow> SubType \<Rightarrow> nat \<Rightarrow> SubType \<Rightarrow> nat \<Rightarrow> unit validated" where
  "validateDescriptorSubtypeMetadata m lower lowerGroup upper upperGroup =
     (case validateDescriptorSubtypeEdge m (tm_Descriptor (st_Metadata lower)) lowerGroup (tm_Descriptor (st_Metadata upper)) upperGroup of
        Inl e \<Rightarrow> Inl e
      | Inr _ \<Rightarrow> validateDescriptorSubtypeEdge m (tm_Describes (st_Metadata lower)) lowerGroup (tm_Describes (st_Metadata upper)) upperGroup)"

section \<open>Declared supertypes\<close>

text \<open>A sequence of checks that stops at the first error.\<close>

fun firstError :: "unit validated list \<Rightarrow> unit validated" where
  "firstError [] = Inr ()"
| "firstError (c # cs) = (case c of Inl e \<Rightarrow> Inl e | Inr _ \<Rightarrow> firstError cs)"

definition checkSuper :: "Module \<Rightarrow> SubType \<Rightarrow> nat \<Rightarrow> TypeIdx \<Rightarrow> unit validated" where
  "checkSuper m cur recGroup supIdx =
     (case v_flatTypeIdxInRecGroup m supIdx (int recGroup) of
        None \<Rightarrow> Inl ErrUnknownType
      | Some supFlat \<Rightarrow>
          (case subtypeByFlatTypeIdx m supFlat of
             None \<Rightarrow> Inl ErrUnknownType
           | Some (upper, upperGroup) \<Rightarrow>
               if st_Final upper then Inl ErrTypeMismatch
               else if ct_Kind (st_Comp cur) \<noteq> ct_Kind (st_Comp upper) then Inl ErrTypeMismatch
               else case validateDescriptorSubtypeMetadata m cur recGroup upper upperGroup of
                 Inl e \<Rightarrow> Inl e
               | Inr _ \<Rightarrow>
                   if \<not> compTypeSubtype m ([], []) (st_Comp cur) recGroup (st_Comp upper) upperGroup then Inl ErrTypeMismatch
                   else Inr ()))"

definition checkDeclaration :: "Module \<Rightarrow> nat \<Rightarrow> unit validated" where
  "checkDeclaration m flatIdx =
     (let d = ensureTypeIndex m; (cur, recGroup) = dir_flat d ! flatIdx; member = flatIdx - dir_bases d ! recGroup
      in firstError
           ((if OptionalTypeIdx_Present (tm_Describes (st_Metadata cur)) \<or> OptionalTypeIdx_Present (tm_Descriptor (st_Metadata cur))
             then validateDescriptorMetadata m cur recGroup member else Inr ())
            # map (checkSuper m cur recGroup) (st_Supers cur)))"

text \<open>
  The cycle check. A state of 0 is unvisited, 1 active, and \<open>depth + 2\<close> finished; the flag records a
  chain of the capped depth. The outer \<open>None\<close> stands for running out of fuel.
\<close>

type_synonym cycleState = "byte list \<times> bool"

fun visitParents :: "(nat \<Rightarrow> cycleState \<Rightarrow> cycleState validated option) \<Rightarrow> Module \<Rightarrow> nat \<Rightarrow> TypeIdx list \<Rightarrow> byte \<Rightarrow> cycleState \<Rightarrow> (byte \<times> cycleState) validated option" where
  "visitParents visit m recGroup [] depth s = Some (Inr (depth, s))"
| "visitParents visit m recGroup (supIdx # sups) depth s =
     (case v_flatTypeIdxInRecGroup m supIdx (int recGroup) of
        None \<Rightarrow> Some (Inl ErrUnknownType)
      | Some p \<Rightarrow>
          (case visit p s of
             None \<Rightarrow> None
           | Some (Inl e) \<Rightarrow> Some (Inl e)
           | Some (Inr s') \<Rightarrow>
               (let parentDepth = fst s' ! p - 2;
                    parentDepth' = (if parentDepth < 32 then parentDepth + 1 else parentDepth)
                in visitParents visit m recGroup sups (if parentDepth' > depth then parentDepth' else depth) s')))"

primrec visitCycle :: "nat \<Rightarrow> Module \<Rightarrow> nat \<Rightarrow> cycleState \<Rightarrow> cycleState validated option" where
  "visitCycle 0 m i s = None"
| "visitCycle (Suc fuel) m i s =
     (if fst s ! i = 1 then Some (Inl ErrTypeMismatch)
      else if fst s ! i \<ge> 2 then Some (Inr s)
      else let (st, recGroup) = dir_flat (ensureTypeIndex m) ! i
           in case visitParents (visitCycle fuel m) m recGroup (st_Supers st) 0 ((fst s)[i := 1], snd s) of
                None \<Rightarrow> None
              | Some (Inl e) \<Rightarrow> Some (Inl e)
              | Some (Inr (depth, s')) \<Rightarrow> Some (Inr ((fst s')[i := depth + 2], snd s' \<or> depth = 32)))"

declare visitCycle.simps(2) [simp del]

fun visitAll :: "nat \<Rightarrow> Module \<Rightarrow> nat list \<Rightarrow> cycleState \<Rightarrow> cycleState validated option" where
  "visitAll fuel m [] s = Some (Inr s)"
| "visitAll fuel m (i # is) s =
     (case visitCycle fuel m i s of
        None \<Rightarrow> None
      | Some (Inl e) \<Rightarrow> Some (Inl e)
      | Some (Inr s') \<Rightarrow> visitAll fuel m is s')"

section \<open>The interval numbering\<close>

definition noLink :: u32 where "noLink = - 1"

record links =
  lk_parent :: "u32 list"
  lk_firstChild :: "u32 list"
  lk_nextSibling :: "u32 list"

definition linkChild :: "Module \<Rightarrow> nat \<Rightarrow> links \<Rightarrow> links" where
  "linkChild m i l =
     (let (st, recGroup) = dir_flat (ensureTypeIndex m) ! i
      in if st_Supers st = [] then l
         else let p = (case v_flatTypeIdxInRecGroup m (st_Supers st ! 0) (int recGroup) of None \<Rightarrow> 0 | Some f \<Rightarrow> f)
              in l\<lparr>lk_parent := (lk_parent l)[i := of_nat p],
                   lk_nextSibling := (lk_nextSibling l)[i := lk_firstChild l ! p],
                   lk_firstChild := (lk_firstChild l)[p := of_nat i]\<rparr>)"

record walk =
  w_firstChild :: "u32 list"
  w_tick :: u32
  w_enter :: "u32 list"
  w_exit :: "u32 list"

definition enterNode :: "u32 \<Rightarrow> walk \<Rightarrow> walk" where
  "enterNode cur w = w\<lparr>w_tick := w_tick w + 1, w_enter := (w_enter w)[unat cur := w_tick w + 1]\<rparr>"

text \<open>The inner loop from a root; \<open>None\<close> stands for running out of fuel.\<close>

primrec walkTree :: "nat \<Rightarrow> links \<Rightarrow> u32 \<Rightarrow> u32 \<Rightarrow> walk \<Rightarrow> walk option" where
  "walkTree 0 l root cur w = None"
| "walkTree (Suc fuel) l root cur w =
     (let child = w_firstChild w ! unat cur
      in if child \<noteq> noLink then
           walkTree fuel l root child
             (enterNode child (w\<lparr>w_firstChild := (w_firstChild w)[unat cur := lk_nextSibling l ! unat child]\<rparr>))
         else let w' = w\<lparr>w_exit := (w_exit w)[unat cur := w_tick w]\<rparr>
              in if cur = root then Some w' else walkTree fuel l root (lk_parent l ! unat cur) w')"

declare walkTree.simps(2) [simp del]

fun walkRoots :: "nat \<Rightarrow> links \<Rightarrow> nat list \<Rightarrow> walk \<Rightarrow> walk option" where
  "walkRoots fuel l [] w = Some w"
| "walkRoots fuel l (root # roots) w =
     (if lk_parent l ! root \<noteq> noLink then walkRoots fuel l roots w
      else case walkTree fuel l (of_nat root) (of_nat root) (enterNode (of_nat root) w) of
        None \<Rightarrow> None
      | Some w' \<Rightarrow> walkRoots fuel l roots w')"

text \<open>Every step of the walk enters or leaves a type.\<close>

definition buildSupertypeAncestry :: "Module \<Rightarrow> ancestry option" where
  "buildSupertypeAncestry m =
     (let n = length (dir_flat (ensureTypeIndex m));
          l = fold (linkChild m) [0..<n]
                \<lparr>lk_parent = replicate n noLink, lk_firstChild = replicate n noLink, lk_nextSibling = replicate n 0\<rparr>
      in map_option (\<lambda>w. (w_enter w, w_exit w))
           (walkRoots (2 * n + 1) l [0..<n]
              \<lparr>w_firstChild = lk_firstChild l, w_tick = 0, w_enter = replicate n 0, w_exit = replicate n 0\<rparr>))"

text \<open>The result is the error, or the pair of \<open>superEnter\<close> and \<open>superExit\<close>.\<close>

definition validateSubtypeMetadata :: "Module \<Rightarrow> ancestry validated option" where
  "validateSubtypeMetadata m =
     (let flat = dir_flat (ensureTypeIndex m); n = length flat
      in case firstError (map (checkDeclaration m) [0..<n]) of
           Inl e \<Rightarrow> Some (Inl e)
         | Inr _ \<Rightarrow>
             if list_all (\<lambda>(st, _). st_Supers st = []) flat then Some (Inr ([], []))
             else case visitAll (n + 1) m [0..<n] (replicate n 0, False) of
               None \<Rightarrow> None
             | Some (Inl e) \<Rightarrow> Some (Inl e)
             | Some (Inr (_, hasDeepSuper)) \<Rightarrow>
                 if hasDeepSuper \<and> n \<ge> 64 \<and> n \<le> 2 ^ 32 - 1 \<and> n \<le> (2 ^ 63 - 1) div 3
                 then map_option Inr (buildSupertypeAncestry m)
                 else Some (Inr ([], [])))"

section \<open>The cycle check\<close>

definition active :: "byte list \<Rightarrow> nat set" where
  "active st = {i. i < length st \<and> st ! i = 1}"

definition finished :: "byte list \<Rightarrow> nat set" where
  "finished st = {i. i < length st \<and> st ! i \<ge> 2}"

definition fresh :: "byte list \<Rightarrow> nat set" where
  "fresh st = {i. i < length st \<and> st ! i = 0}"

definition settled_types :: "Module \<Rightarrow> nat set \<Rightarrow> bool" where
  "settled_types m B \<longleftrightarrow> (\<forall>x \<in> B. (\<forall>y. super_edge m x y \<longrightarrow> y \<in> B) \<and> \<not> (super_edge m)\<^sup>+\<^sup>+ x x)"

definition depths_ok :: "Module \<Rightarrow> cycleState \<Rightarrow> bool" where
  "depths_ok m s \<longleftrightarrow> length (fst s) = type_count m \<and> (\<forall>i < type_count m. fst s ! i \<le> 34) \<and> settled_types m (finished (fst s))"

definition edges_resolve :: "Module \<Rightarrow> bool" where
  "edges_resolve m \<longleftrightarrow>
     (\<forall>x st g. subtypeByFlatTypeIdx m x = Some (st, g) \<longrightarrow> (\<forall>idx \<in> set (st_Supers st). v_flatTypeIdxInRecGroup m idx (int g) \<noteq> None))"

text \<open>What a visit of \<open>i\<close> promises in a section whose supertypes all resolve, when every active type is a proper subtype of \<open>i\<close>.\<close>

definition visit_ok :: "Module \<Rightarrow> nat \<Rightarrow> (nat \<Rightarrow> cycleState \<Rightarrow> cycleState validated option) \<Rightarrow> bool" where
  "visit_ok m n visit \<longleftrightarrow>
     (\<forall>i s. type_count m < 2 ^ 32 \<and> edges_resolve m \<and> i < type_count m \<and> depths_ok m s \<and> (\<forall>g \<in> active (fst s). (super_edge m)\<^sup>+\<^sup>+ g i) \<longrightarrow>
        (case visit i s of
           None \<Rightarrow> n \<le> card (fresh (fst s))
         | Some (Inl e) \<Rightarrow> e = ErrTypeMismatch \<and> (\<exists>x. (super_edge m)\<^sup>+\<^sup>+ x x)
         | Some (Inr s') \<Rightarrow> depths_ok m s' \<and> active (fst s') = active (fst s) \<and> finished (fst s) \<subseteq> finished (fst s') \<and> i \<in> finished (fst s')))"

lemma settled_insert:
  assumes B: "settled_types m B" and succ: "\<And>y. super_edge m i y \<Longrightarrow> y \<in> B" and i: "i \<notin> B"
  shows "settled_types m (insert i B)"
proof -
  have stay: "y \<in> B" if "(super_edge m)\<^sup>*\<^sup>* x y" "x \<in> B" for x y
    using that by (induction rule: rtranclp_induct) (use B in \<open>auto simp: settled_types_def\<close>)
  have "\<not> (super_edge m)\<^sup>+\<^sup>+ i i"
  proof
    assume "(super_edge m)\<^sup>+\<^sup>+ i i"
    then obtain y where "super_edge m i y" "(super_edge m)\<^sup>*\<^sup>* y i" by (metis tranclpD)
    then show False using stay succ i by blast
  qed
  then show ?thesis using B succ by (auto simp: settled_types_def)
qed

lemma depth_bounds:
  fixes d :: byte
  shows "2 \<le> d \<Longrightarrow> d \<le> 34 \<Longrightarrow> d - 2 \<le> 32" "d < 32 \<Longrightarrow> d + 1 \<le> 32" "d \<le> 32 \<Longrightarrow> 2 \<le> d + 2" "d \<le> 32 \<Longrightarrow> d + 2 \<le> 34"
  by (simp_all add: word_le_nat_alt word_less_nat_alt unat_sub unat_word_ariths)

lemma byte_states: "(b :: byte) = 0 \<or> b = 1 \<or> 2 \<le> b"
proof -
  have "unat b = 0 \<or> unat b = 1 \<or> 2 \<le> unat b" by arith
  then show ?thesis by (auto simp: word_unat_eq_iff word_le_nat_alt)
qed

lemma fresh_eq: "fresh st = {..<length st} - active st - finished st"
proof -
  have "fresh st = {i. i < length st \<and> \<not> st ! i = 1 \<and> \<not> 2 \<le> st ! i}" using byte_states by (force simp: fresh_def)
  then show ?thesis by (auto simp: active_def finished_def)
qed

lemma fresh_shrinks:
  assumes "depths_ok m s" "depths_ok m s'" "active (fst s') = active (fst s)" "finished (fst s) \<subseteq> finished (fst s')"
  shows "card (fresh (fst s')) \<le> card (fresh (fst s))"
proof -
  have "fresh (fst s') \<subseteq> fresh (fst s)" using assms unfolding fresh_eq depths_ok_def by auto
  moreover have "finite (fresh (fst s))" by (simp add: fresh_def)
  ultimately show ?thesis using card_mono by blast
qed

locale cycle_visitor =
  fixes m :: Module and n :: nat and visit :: "nat \<Rightarrow> cycleState \<Rightarrow> cycleState validated option"
  assumes visit: "visit_ok m n visit"
begin

lemma visitParents_ok:
  assumes count: "type_count m < 2 ^ 32" and res: "edges_resolve m"
    and "depths_ok m s" "\<And>g. g \<in> active (fst s) \<Longrightarrow> (super_edge m)\<^sup>*\<^sup>* g i" "depth \<le> 32"
    "\<And>idx. idx \<in> set sups \<Longrightarrow> \<exists>p. v_flatTypeIdxInRecGroup m idx (int g) = Some p \<and> super_edge m i p"
  shows "case visitParents visit m g sups depth s of
       None \<Rightarrow> n \<le> card (fresh (fst s))
     | Some (Inl e) \<Rightarrow> e = ErrTypeMismatch \<and> (\<exists>x. (super_edge m)\<^sup>+\<^sup>+ x x)
     | Some (Inr (d, s')) \<Rightarrow> d \<le> 32 \<and> depths_ok m s' \<and> active (fst s') = active (fst s) \<and> finished (fst s) \<subseteq> finished (fst s') \<and>
         (\<forall>idx \<in> set sups. \<forall>p. v_flatTypeIdxInRecGroup m idx (int g) = Some p \<longrightarrow> p \<in> finished (fst s'))"
  using assms(3-)
proof (induction sups arbitrary: depth s)
  case (Cons idx sups)
  obtain p where p: "v_flatTypeIdxInRecGroup m idx (int g) = Some p" "super_edge m i p" using Cons.prems(4) by auto
  have pre: "type_count m < 2 ^ 32 \<and> edges_resolve m \<and> p < type_count m \<and> depths_ok m s \<and> (\<forall>g \<in> active (fst s). (super_edge m)\<^sup>+\<^sup>+ g p)"
    using Cons.prems(1,2) p(2) super_edge_bounded [OF p(2) count] count res rtranclp_into_tranclp1 by metis
  note V = visit [unfolded visit_ok_def, rule_format, OF pre]
  show ?case
  proof (cases "visit p s")
    case None
    then show ?thesis using V p(1) by simp
  next
    case (Some r)
    show ?thesis
    proof (cases r)
      case (Inl e)
      then show ?thesis using V p(1) Some by simp
    next
      case (Inr s')
      let ?d = "let pd = fst s' ! p - 2; pd' = (if pd < 32 then pd + 1 else pd) in if pd' > depth then pd' else depth"
      have s': "depths_ok m s'" "active (fst s') = active (fst s)" "finished (fst s) \<subseteq> finished (fst s')" "p \<in> finished (fst s')"
        using V Some Inr by auto
      have "fst s' ! p - 2 \<le> 32" using s'(1,4) depth_bounds(1) by (auto simp: depths_ok_def finished_def)
      then have d: "?d \<le> 32" using Cons.prems(3) depth_bounds(2) [of "fst s' ! p - 2"] by (simp add: Let_def)
      have run: "visitParents visit m g (idx # sups) depth s = visitParents visit m g sups ?d s'"
        using p(1) Some Inr by (simp add: Let_def)
      have IH: "case visitParents visit m g sups ?d s' of
           None \<Rightarrow> n \<le> card (fresh (fst s'))
         | Some (Inl e) \<Rightarrow> e = ErrTypeMismatch \<and> (\<exists>x. (super_edge m)\<^sup>+\<^sup>+ x x)
         | Some (Inr (d, s'')) \<Rightarrow> d \<le> 32 \<and> depths_ok m s'' \<and> active (fst s'') = active (fst s') \<and> finished (fst s') \<subseteq> finished (fst s'') \<and>
             (\<forall>idx \<in> set sups. \<forall>p. v_flatTypeIdxInRecGroup m idx (int g) = Some p \<longrightarrow> p \<in> finished (fst s''))"
        by (rule Cons.IH [OF s'(1) _ d]) (use s'(2) Cons.prems(2,4) in auto)
      show ?thesis
      proof (cases "visitParents visit m g sups ?d s'")
        case None
        then show ?thesis using IH fresh_shrinks [OF Cons.prems(1) s'(1-3)] unfolding run by simp
      next
        case (Some r2)
        then show ?thesis using IH s'(2-4) p(1) unfolding run by (cases r2) auto
      qed
    qed
  qed
qed simp

end

lemma flat_entry: "x < type_count m \<Longrightarrow> subtypeByFlatTypeIdx m x = Some (dir_flat (ensureTypeIndex m) ! x)"
  by (simp add: subtypeByFlatTypeIdx_def flat_count)

lemma byte_consts: "\<not> (2 :: byte) \<le> 1" "(1 :: byte) \<le> 34"
  by (simp_all add: word_le_nat_alt)

lemma status_update:
  assumes "i < length st"
  shows "active (st[i := 1]) = insert i (active st)" "2 \<le> b \<Longrightarrow> finished (st[i := b]) = insert i (finished st)"
    "2 \<le> b \<Longrightarrow> active (st[i := b]) = active st - {i}" "\<not> 2 \<le> st ! i \<Longrightarrow> finished (st[i := 1]) = finished st"
    "st ! i = 0 \<Longrightarrow> fresh (st[i := 1]) = fresh st - {i}"
  using assms byte_consts(1) by (auto simp: active_def finished_def fresh_def nth_list_update split: if_splits)

lemma visitCycle_fresh:
  assumes IH: "visit_ok m fuel (visitCycle fuel m)" and count: "type_count m < 2 ^ 32" and res: "edges_resolve m"
    and i: "i < type_count m" and s: "depths_ok m s" "\<And>g. g \<in> active (fst s) \<Longrightarrow> (super_edge m)\<^sup>+\<^sup>+ g i" and zero: "fst s ! i = 0"
  shows "case visitCycle (Suc fuel) m i s of
       None \<Rightarrow> Suc fuel \<le> card (fresh (fst s))
     | Some (Inl e) \<Rightarrow> e = ErrTypeMismatch \<and> (\<exists>x. (super_edge m)\<^sup>+\<^sup>+ x x)
     | Some (Inr s') \<Rightarrow> depths_ok m s' \<and> active (fst s') = active (fst s) \<and> finished (fst s) \<subseteq> finished (fst s') \<and> i \<in> finished (fst s')"
proof -
  obtain st g where f: "dir_flat (ensureTypeIndex m) ! i = (st, g)" by (cases "dir_flat (ensureTypeIndex m) ! i")
  have entry: "subtypeByFlatTypeIdx m i = Some (st, g)" using flat_entry [OF i] f by simp
  have len: "i < length (fst s)" using i s(1) by (simp add: depths_ok_def)
  let ?s1 = "((fst s)[i := 1], snd s)"
  let ?r = "visitParents (visitCycle fuel m) m g (st_Supers st) 0 ?s1"
  have run: "visitCycle (Suc fuel) m i s = (case ?r of None \<Rightarrow> None | Some (Inl e) \<Rightarrow> Some (Inl e)
      | Some (Inr (depth, s')) \<Rightarrow> Some (Inr ((fst s')[i := depth + 2], snd s' \<or> depth = 32)))"
    using zero by (simp add: visitCycle.simps(2) f)
  have s1: "depths_ok m ?s1" using s(1) zero status_update(4) [OF len] len byte_consts(2) by (auto simp: depths_ok_def nth_list_update)
  have vis: "cycle_visitor m fuel (visitCycle fuel m)" using IH by (rule cycle_visitor.intro)
  have P: "case ?r of
       None \<Rightarrow> fuel \<le> card (fresh (fst ?s1))
     | Some (Inl e) \<Rightarrow> e = ErrTypeMismatch \<and> (\<exists>x. (super_edge m)\<^sup>+\<^sup>+ x x)
     | Some (Inr (d, s')) \<Rightarrow> d \<le> 32 \<and> depths_ok m s' \<and> active (fst s') = active (fst ?s1) \<and> finished (fst ?s1) \<subseteq> finished (fst s') \<and>
         (\<forall>idx \<in> set (st_Supers st). \<forall>p. v_flatTypeIdxInRecGroup m idx (int g) = Some p \<longrightarrow> p \<in> finished (fst s'))"
  proof (rule cycle_visitor.visitParents_ok [OF vis count res s1, of i])
    show "(super_edge m)\<^sup>*\<^sup>* h i" if "h \<in> active (fst ?s1)" for h
    proof (cases "h = i")
      case False
      then have "h \<in> active (fst s)" using that status_update(1) [OF len] by simp
      then show ?thesis by (rule tranclp_into_rtranclp [OF s(2)])
    qed simp
    show "\<exists>p. v_flatTypeIdxInRecGroup m idx (int g) = Some p \<and> super_edge m i p" if "idx \<in> set (st_Supers st)" for idx
      using res entry that by (fastforce simp: edges_resolve_def super_edge_def)
  qed simp
  show ?thesis
  proof (cases ?r)
    case None
    have "card (fresh (fst ?s1)) < card (fresh (fst s))"
      unfolding fst_conv status_update(5) [OF len zero] using len zero by (intro card_Diff1_less) (auto simp: fresh_def)
    then show ?thesis using P None run by simp
  next
    case (Some r)
    show ?thesis
    proof (cases r)
      case (Inl e)
      then show ?thesis using P Some run by simp
    next
      case (Inr ds)
      obtain d s' where ds: "ds = (d, s')" by (cases ds)
      have Q: "d \<le> 32" "depths_ok m s'" "active (fst s') = active (fst ?s1)" "finished (fst ?s1) \<subseteq> finished (fst s')"
        "\<forall>idx \<in> set (st_Supers st). \<forall>p. v_flatTypeIdxInRecGroup m idx (int g) = Some p \<longrightarrow> p \<in> finished (fst s')"
        using P unfolding Some Inr ds by simp_all
      have l': "i < length (fst s')" using Q(2) i by (simp add: depths_ok_def)
      have d2: "2 \<le> d + 2" "d + 2 \<le> 34" using depth_bounds(3,4) [OF Q(1)] .
      have ia: "i \<in> active (fst s')" using Q(3) status_update(1) [OF len] by simp
      then have "i \<notin> finished (fst s')" using byte_consts(1) by (auto simp: active_def finished_def)
      moreover have "y \<in> finished (fst s')" if "super_edge m i y" for y using that Q(5) entry by (auto simp: super_edge_def)
      ultimately have "settled_types m (finished ((fst s')[i := d + 2]))"
        unfolding status_update(2) [OF l' d2(1)] using Q(2) by (intro settled_insert) (auto simp: depths_ok_def)
      then have "depths_ok m ((fst s')[i := d + 2], snd s' \<or> d = 32)" using Q(2) d2(2) l' by (auto simp: depths_ok_def nth_list_update)
      moreover have "active ((fst s')[i := d + 2]) = active (fst s)"
        using Q(3) status_update(1) [OF len] status_update(3) [OF l' d2(1)] zero by (auto simp: active_def)
      moreover have "finished (fst s) \<subseteq> finished ((fst s')[i := d + 2])" "i \<in> finished ((fst s')[i := d + 2])"
        using Q(4) status_update(2) [OF l' d2(1)] status_update(4) [OF len] zero by auto
      ultimately show ?thesis using Some Inr ds run by simp
    qed
  qed
qed

lemma visitCycle_ok:
  "visit_ok m fuel (visitCycle fuel m)"
proof (induction fuel)
  case (Suc fuel)
  show ?case
    unfolding visit_ok_def
  proof (intro allI impI, elim conjE)
    fix i s
    assume m: "type_count m < 2 ^ 32" "edges_resolve m" and i: "i < type_count m" and s: "depths_ok m s" and act: "\<forall>g \<in> active (fst s). (super_edge m)\<^sup>+\<^sup>+ g i"
    have len: "i < length (fst s)" using i s by (simp add: depths_ok_def)
    consider "fst s ! i = 0" | "fst s ! i = 1" | "2 \<le> fst s ! i" using byte_states by blast
    then show "case visitCycle (Suc fuel) m i s of
           None \<Rightarrow> Suc fuel \<le> card (fresh (fst s))
         | Some (Inl e) \<Rightarrow> e = ErrTypeMismatch \<and> (\<exists>x. (super_edge m)\<^sup>+\<^sup>+ x x)
         | Some (Inr s') \<Rightarrow> depths_ok m s' \<and> active (fst s') = active (fst s) \<and> finished (fst s) \<subseteq> finished (fst s') \<and> i \<in> finished (fst s')"
    proof cases
      case 1
      show ?thesis by (rule visitCycle_fresh [OF Suc.IH m i s _ 1]) (use act in blast)
    next
      case 2
      then have "i \<in> active (fst s)" using len by (simp add: active_def)
      then have "(super_edge m)\<^sup>+\<^sup>+ i i" using act by blast
      then show ?thesis using 2 by (auto simp: visitCycle.simps(2))
    next
      case 3
      then have "i \<in> finished (fst s)" "fst s ! i \<noteq> 1" using len byte_consts(1) by (auto simp: finished_def)
      then show ?thesis using 3 s by (simp add: visitCycle.simps(2))
    qed
  qed
qed (simp add: visit_ok_def)

interpretation cycles: cycle_visitor m fuel "visitCycle fuel m" for m fuel
  using visitCycle_ok by (rule cycle_visitor.intro)

lemma visitAll_ok:
  assumes "type_count m < 2 ^ 32" "edges_resolve m" "depths_ok m s" "active (fst s) = {}" "card (fresh (fst s)) < fuel"
    "\<And>i. i \<in> set is \<Longrightarrow> i < type_count m"
  shows "case visitAll fuel m is s of
       None \<Rightarrow> False
     | Some (Inl e) \<Rightarrow> e = ErrTypeMismatch \<and> (\<exists>x. (super_edge m)\<^sup>+\<^sup>+ x x)
     | Some (Inr s') \<Rightarrow> depths_ok m s' \<and> set is \<subseteq> finished (fst s') \<and> finished (fst s) \<subseteq> finished (fst s')"
  using assms(3-6)
proof (induction "is" arbitrary: s)
  case (Cons i "is")
  have "type_count m < 2 ^ 32 \<and> edges_resolve m \<and> i < type_count m \<and> depths_ok m s \<and> (\<forall>g \<in> active (fst s). (super_edge m)\<^sup>+\<^sup>+ g i)"
    using Cons.prems assms(1,2) by simp
  note V = visitCycle_ok [of m fuel, unfolded visit_ok_def, rule_format, OF this]
  show ?case
  proof (cases "visitCycle fuel m i s")
    case None
    then show ?thesis using V Cons.prems(3) by simp
  next
    case (Some r)
    show ?thesis
    proof (cases r)
      case (Inl e)
      then show ?thesis using V Some by simp
    next
      case (Inr s')
      then have s': "depths_ok m s'" "active (fst s') = active (fst s)" "finished (fst s) \<subseteq> finished (fst s')" "i \<in> finished (fst s')" using V Some by auto
      have IH: "case visitAll fuel m is s' of
           None \<Rightarrow> False
         | Some (Inl e) \<Rightarrow> e = ErrTypeMismatch \<and> (\<exists>x. (super_edge m)\<^sup>+\<^sup>+ x x)
         | Some (Inr s'') \<Rightarrow> depths_ok m s'' \<and> set is \<subseteq> finished (fst s'') \<and> finished (fst s') \<subseteq> finished (fst s'')"
        by (rule Cons.IH) (use s' Cons.prems fresh_shrinks [OF Cons.prems(1) s'(1-3)] in auto)
      have run: "visitAll fuel m (i # is) s = visitAll fuel m is s'" using Some Inr by simp
      show ?thesis
      proof (cases "visitAll fuel m is s'")
        case None
        then show ?thesis using IH by simp
      next
        case r2: (Some r2)
        then show ?thesis using IH s'(3,4) run by (cases r2) auto
      qed
    qed
  qed
qed simp

lemma visitAll_decides:
  assumes "type_count m < 2 ^ 32" "edges_resolve m"
  defines "n \<equiv> type_count m"
  shows "(\<exists>s. visitAll (n + 1) m [0..<n] (replicate n 0, False) = Some (Inr s)) \<and> (\<forall>x. \<not> (super_edge m)\<^sup>+\<^sup>+ x x) \<or>
    visitAll (n + 1) m [0..<n] (replicate n 0, False) = Some (Inl ErrTypeMismatch) \<and> (\<exists>x. (super_edge m)\<^sup>+\<^sup>+ x x)"
proof -
  let ?s = "(replicate n 0, False) :: cycleState" and ?r = "visitAll (n + 1) m [0..<n] (replicate n 0, False)"
  have "finished (fst ?s) = {}" "active (fst ?s) = {}" "fresh (fst ?s) = {..<n}" by (auto simp: finished_def active_def fresh_def word_le_nat_alt)
  then have A: "case ?r of
       None \<Rightarrow> False
     | Some (Inl e) \<Rightarrow> e = ErrTypeMismatch \<and> (\<exists>x. (super_edge m)\<^sup>+\<^sup>+ x x)
     | Some (Inr s') \<Rightarrow> depths_ok m s' \<and> set [0..<n] \<subseteq> finished (fst s') \<and> finished (fst ?s) \<subseteq> finished (fst s')"
    by (intro visitAll_ok assms(1,2)) (auto simp: depths_ok_def settled_types_def n_def)
  have "\<not> (super_edge m)\<^sup>+\<^sup>+ x x" if "depths_ok m s'" "{0..<n} \<subseteq> finished (fst s')" for x s'
  proof
    assume c: "(super_edge m)\<^sup>+\<^sup>+ x x"
    then obtain y where "super_edge m x y" by (metis tranclpD)
    then have "x \<in> finished (fst s')" using super_edge_bounded assms(1) that(2) by (auto simp: n_def)
    then show False using c that(1) by (simp add: depths_ok_def settled_types_def)
  qed
  then show ?thesis using A by (auto split: option.splits sum.splits)
qed

section \<open>The links of the supertype forest\<close>

definition first_super :: "Module \<Rightarrow> nat \<Rightarrow> nat \<Rightarrow> bool" where
  "first_super m c p \<longleftrightarrow>
     (\<exists>st g. subtypeByFlatTypeIdx m c = Some (st, g) \<and> st_Supers st \<noteq> [] \<and> v_flatTypeIdxInRecGroup m (st_Supers st ! 0) (int g) = Some p)"

text \<open>\<open>u\<close> links to the last child of \<open>p\<close> below \<open>k\<close>.\<close>

definition last_child :: "Module \<Rightarrow> nat \<Rightarrow> nat \<Rightarrow> u32 \<Rightarrow> bool" where
  "last_child m p k u \<longleftrightarrow>
     u = noLink \<and> (\<forall>c < k. \<not> first_super m c p) \<or>
     (\<exists>c < k. u = of_nat c \<and> first_super m c p \<and> (\<forall>c'. c < c' \<and> c' < k \<longrightarrow> \<not> first_super m c' p))"

definition linked :: "Module \<Rightarrow> nat \<Rightarrow> links \<Rightarrow> bool" where
  "linked m k l \<longleftrightarrow>
     length (lk_parent l) = type_count m \<and> length (lk_firstChild l) = type_count m \<and> length (lk_nextSibling l) = type_count m \<and>
     (\<forall>c < type_count m. \<forall>p. c < k \<and> first_super m c p \<longrightarrow> lk_parent l ! c = of_nat p) \<and>
     (\<forall>c < type_count m. \<not> (c < k \<and> (\<exists>p. first_super m c p)) \<longrightarrow> lk_parent l ! c = noLink) \<and>
     (\<forall>p < type_count m. last_child m p k (lk_firstChild l ! p)) \<and>
     (\<forall>c < k. \<forall>p. first_super m c p \<longrightarrow> last_child m p c (lk_nextSibling l ! c))"

lemma first_super_fun: "first_super m c p \<Longrightarrow> first_super m c q \<Longrightarrow> p = q"
  by (auto simp: first_super_def)

lemma first_super_edge: "first_super m c p \<Longrightarrow> super_edge m c p"
  using nth_mem [of 0] by (fastforce simp: first_super_def super_edge_def)

lemma noLink_fresh: "c < 2 ^ 32 - 1 \<Longrightarrow> of_nat c \<noteq> noLink"
proof
  assume c: "c < 2 ^ 32 - 1" "of_nat c = noLink"
  have "unat noLink = 2 ^ 32 - 1" by (simp add: noLink_def unsigned_minus_1_eq_mask mask_eq_exp_minus_1)
  moreover have "unat (of_nat c :: u32) = c" using c(1) by (intro unat_of_nat_small) simp
  ultimately show False using c by simp
qed

lemma last_child_skip: "last_child m p k u \<Longrightarrow> \<not> first_super m k p \<Longrightarrow> last_child m p (Suc k) u"
  unfolding last_child_def using less_Suc_eq by metis

lemma last_child_here: "first_super m k p \<Longrightarrow> last_child m p (Suc k) (of_nat k)"
  unfolding last_child_def by (intro disjI2 exI [of _ k]) auto

lemma linkChild_linked:
  assumes l: "linked m k l" and k: "k < type_count m" and n: "type_count m < 2 ^ 32" and res: "edges_resolve m"
  shows "linked m (Suc k) (linkChild m k l)"
proof -
  obtain st g where f: "dir_flat (ensureTypeIndex m) ! k = (st, g)" by (cases "dir_flat (ensureTypeIndex m) ! k")
  have entry: "subtypeByFlatTypeIdx m k = Some (st, g)" using flat_entry [OF k] f by simp
  show ?thesis
  proof (cases "st_Supers st = []")
    case True
    then have no: "\<not> first_super m k p" for p using entry by (simp add: first_super_def)
    then show ?thesis using l last_child_skip [of m _ k] less_Suc_eq True by (auto simp: linked_def linkChild_def f)
  next
    case False
    then obtain p where p: "v_flatTypeIdxInRecGroup m (st_Supers st ! 0) (int g) = Some p"
      using res entry nth_mem [of 0 "st_Supers st"] by (fastforce simp: edges_resolve_def)
    have fs: "first_super m k q \<longleftrightarrow> q = p" for q using entry False p by (auto simp: first_super_def)
    have pn: "p < type_count m" using v_flat_bounded [OF p n] .
    have run: "linkChild m k l = l\<lparr>lk_parent := (lk_parent l)[k := of_nat p], lk_nextSibling := (lk_nextSibling l)[k := lk_firstChild l ! p],
        lk_firstChild := (lk_firstChild l)[p := of_nat k]\<rparr>"
      using False p by (simp add: linkChild_def f)
    have "last_child m q (Suc k) ((lk_firstChild l)[p := of_nat k] ! q)" if "q < type_count m" for q
      using that l fs last_child_here [of m k p] last_child_skip [of m q k] pn by (cases "q = p") (auto simp: linked_def)
    moreover have "last_child m q c ((lk_nextSibling l)[k := lk_firstChild l ! p] ! c)" if "c < Suc k" "first_super m c q" for c q
      using that l fs pn k by (cases "c = k") (auto simp: linked_def)
    moreover have "c < Suc k \<and> first_super m c q \<longrightarrow> (lk_parent l)[k := of_nat p] ! c = of_nat q"
        "\<not> (c < Suc k \<and> (\<exists>p. first_super m c p)) \<longrightarrow> (lk_parent l)[k := of_nat p] ! c = noLink" if "c < type_count m" for c q
      using that l fs by (cases "c = k"; auto simp: linked_def less_Suc_eq)+
    ultimately show ?thesis using l unfolding run linked_def by simp
  qed
qed

lemma links_linked:
  assumes "type_count m < 2 ^ 32" "edges_resolve m" "k \<le> type_count m"
  shows "linked m k (fold (linkChild m) [0..<k]
    \<lparr>lk_parent = replicate (type_count m) noLink, lk_firstChild = replicate (type_count m) noLink, lk_nextSibling = replicate (type_count m) 0\<rparr>)"
  using assms(3)
proof (induction k)
  case (Suc k)
  then show ?case using linkChild_linked [of m k] assms(1,2) by simp
qed (simp add: linked_def last_child_def)

section \<open>The walk over the forest\<close>

abbreviation entered_at :: "walk \<Rightarrow> nat \<Rightarrow> nat" where
  "entered_at w i \<equiv> unat (w_enter w ! i)"

abbreviation left_at :: "walk \<Rightarrow> nat \<Rightarrow> nat" where
  "left_at w i \<equiv> unat (w_exit w ! i)"

abbreviation ticks :: "walk \<Rightarrow> nat" where
  "ticks w \<equiv> unat (w_tick w)"

definition entered :: "walk \<Rightarrow> nat set" where
  "entered w = {i. i < length (w_enter w) \<and> entered_at w i \<noteq> 0}"

definition left_types :: "walk \<Rightarrow> nat set" where
  "left_types w = {i. i < length (w_exit w) \<and> left_at w i \<noteq> 0}"

abbreviation open_types :: "walk \<Rightarrow> nat set" where
  "open_types w \<equiv> entered w - left_types w"

definition numbered :: "Module \<Rightarrow> walk \<Rightarrow> nat \<Rightarrow> bool" where
  "numbered m w x \<longleftrightarrow> x \<in> entered w \<and> entered_at w x \<le> left_at w x \<and> left_at w x \<le> ticks w \<and>
     (\<forall>y \<in> entered w. entered_at w x \<le> entered_at w y \<and> entered_at w y \<le> left_at w x \<longrightarrow> (first_super m)\<^sup>*\<^sup>* y x) \<and>
     (\<forall>c. first_super m c x \<longrightarrow> c \<in> entered w)"

text \<open>The links at \<open>p\<close> still to be followed are the children below some \<open>k\<close>.\<close>

definition links_left :: "Module \<Rightarrow> walk \<Rightarrow> nat \<Rightarrow> bool" where
  "links_left m w p \<longleftrightarrow>
     (\<exists>k \<le> type_count m. last_child m p k (w_firstChild w ! p) \<and> (\<forall>c. first_super m c p \<longrightarrow> (c \<in> entered w \<longleftrightarrow> k \<le> c)))"

definition walk_ok :: "Module \<Rightarrow> walk \<Rightarrow> bool" where
  "walk_ok m w \<longleftrightarrow>
     length (w_firstChild w) = type_count m \<and> length (w_enter w) = type_count m \<and> length (w_exit w) = type_count m \<and>
     ticks w = card (entered w) \<and> (\<forall>i \<in> entered w. entered_at w i \<le> ticks w) \<and>
     (\<forall>x \<in> left_types w. numbered m w x) \<and> (\<forall>p < type_count m. links_left m w p)"

definition on_path :: "Module \<Rightarrow> nat \<Rightarrow> nat \<Rightarrow> walk \<Rightarrow> bool" where
  "on_path m root cur w \<longleftrightarrow> cur \<in> open_types w \<and> root \<in> open_types w \<and>
     (\<forall>x \<in> open_types w. (first_super m)\<^sup>*\<^sup>* cur x \<and>
        (\<forall>y \<in> entered w. entered_at w x \<le> entered_at w y \<longrightarrow> (first_super m)\<^sup>*\<^sup>* y x) \<and>
        (x \<noteq> root \<longrightarrow> (\<exists>p \<in> open_types w. first_super m x p)))"

lemma first_super_bounded: "first_super m c p \<Longrightarrow> type_count m < 2 ^ 32 \<Longrightarrow> c < type_count m \<and> p < type_count m"
  using super_edge_bounded first_super_edge by blast

lemma entered_finite: "walk_ok m w \<Longrightarrow> entered w \<subseteq> {..<type_count m} \<and> finite (entered w)"
  by (auto simp: walk_ok_def entered_def)

definition enters :: "nat \<Rightarrow> u32 list \<Rightarrow> walk \<Rightarrow> walk \<Rightarrow> bool" where
  "enters c fc w w' \<longleftrightarrow> ticks w' = ticks w + 1 \<and> (\<forall>i. entered_at w' i = (if i = c then ticks w + 1 else entered_at w i)) \<and>
     w_exit w' = w_exit w \<and> w_firstChild w' = fc \<and> length (w_enter w') = length (w_enter w) \<and>
     entered w' = insert c (entered w) \<and> left_types w' = left_types w"

lemma enters_enterNode:
  assumes "walk_ok m w" "c < type_count m" "c \<notin> entered w" "type_count m < 2 ^ 32"
  shows "enters c fc w (enterNode (of_nat c) (w\<lparr>w_firstChild := fc\<rparr>))"
proof -
  define w' where "w' = enterNode (of_nat c) (w\<lparr>w_firstChild := fc\<rparr>)"
  have u: "unat (of_nat c :: u32) = c" using assms(2,4) by (intro unat_of_nat_small) simp
  have len: "length (w_enter w) = type_count m" using assms(1) by (simp add: walk_ok_def)
  have "card (entered w) < card {..<type_count m}"
    using entered_finite [OF assms(1)] assms(2,3) by (intro psubset_card_mono) auto
  then have T: "ticks w + 1 < 2 ^ 32" using assms(1,4) by (simp add: walk_ok_def)
  have t: "ticks w' = ticks w + 1" using T by (simp add: w'_def enterNode_def unat_word_ariths)
  then have tick: "unat (w_tick w + 1) = ticks w + 1" by (simp add: w'_def enterNode_def)
  have e: "entered_at w' i = (if i = c then ticks w + 1 else entered_at w i)" for i
    using len assms(2) tick by (simp add: w'_def enterNode_def u nth_list_update)
  have lw: "length (w_enter w') = type_count m" using len by (simp add: w'_def enterNode_def)
  have "entered w' = insert c (entered w)" using len lw assms(2) by (auto simp: entered_def e)
  moreover have "w_exit w' = w_exit w" "w_firstChild w' = fc" "left_types w' = left_types w"
    by (simp_all add: w'_def enterNode_def left_types_def)
  ultimately show ?thesis using t e lw len unfolding enters_def w'_def [symmetric] by simp
qed

lemma numbered_enters:
  assumes "enters c fc w w'" "numbered m w x" "c \<notin> entered w"
  shows "numbered m w' x"
proof -
  have "x \<noteq> c" using assms(2,3) by (auto simp: numbered_def)
  then show ?thesis using assms unfolding numbered_def enters_def by auto
qed

lemma walk_ok_enters:
  assumes "walk_ok m w" "enters c fc w w'" "c \<notin> entered w" "length fc = type_count m"
    and "\<And>p. p < type_count m \<Longrightarrow> links_left m w' p"
  shows "walk_ok m w'"
proof -
  have "\<forall>x \<in> left_types w'. numbered m w' x"
    using assms(1-3) numbered_enters [OF assms(2)] by (auto simp: walk_ok_def enters_def)
  moreover have "card (insert c (entered w)) = card (entered w) + 1" using assms(3) entered_finite [OF assms(1)] by simp
  moreover have "\<forall>i \<in> entered w'. entered_at w' i \<le> ticks w'" using assms(1,2) by (auto simp: walk_ok_def enters_def)
  ultimately show ?thesis using assms by (simp add: walk_ok_def enters_def)
qed

text \<open>Entering a child of the current type.\<close>

lemma links_left_enters:
  assumes "links_left m w p" "enters c fc w w'" "fc ! p = w_firstChild w ! p" "\<not> first_super m c p"
  shows "links_left m w' p"
proof -
  have "d \<noteq> c" if "first_super m d p" for d using that assms(4) by blast
  then show ?thesis using assms(1-3) unfolding links_left_def enters_def by auto
qed

lemma links_left_next:
  assumes "links_left m w p" "w_firstChild w ! p \<noteq> noLink"
  obtains c where "w_firstChild w ! p = of_nat c" "first_super m c p" "c \<notin> entered w"
    "\<And>d. first_super m d p \<Longrightarrow> d = c \<or> d \<in> entered w \<longleftrightarrow> c \<le> d"
proof -
  obtain k where k: "last_child m p k (w_firstChild w ! p)" "\<And>c. first_super m c p \<Longrightarrow> c \<in> entered w \<longleftrightarrow> k \<le> c"
    using assms(1) by (auto simp: links_left_def)
  then obtain c where c: "c < k" "w_firstChild w ! p = of_nat c" "first_super m c p" "\<And>d. c < d \<Longrightarrow> d < k \<Longrightarrow> \<not> first_super m d p"
    using assms(2) by (auto simp: last_child_def)
  have "d = c \<or> d \<in> entered w \<longleftrightarrow> c \<le> d" if "first_super m d p" for d
    using k(2) [OF that] c(1) c(4) [of d] that by (cases "d < k"; cases "c < d") auto
  then show ?thesis using that c k(2) [OF c(3)] by auto
qed

lemma on_path_enters:
  assumes path: "on_path m root cur w" and ok: "walk_ok m w" and e: "enters c fc w w'"
    and c: "c \<notin> entered w" "first_super m c cur"
  shows "on_path m root c w'"
proof -
  have up: "(first_super m)\<^sup>*\<^sup>* c x" if "x \<in> open_types w" for x
    using that path c(2) by (meson converse_rtranclp_into_rtranclp on_path_def)
  have nl: "c \<notin> left_types w" using ok c(1) by (auto simp: walk_ok_def numbered_def)
  have op: "open_types w' = insert c (open_types w)" using e nl by (auto simp: enters_def)
  have late: "\<not> ticks w + 1 \<le> entered_at w y" if "y \<in> entered w" for y using that ok by (auto simp: walk_ok_def)
  have new: "\<forall>y \<in> entered w'. entered_at w' c \<le> entered_at w' y \<longrightarrow> (first_super m)\<^sup>*\<^sup>* y c"
    using e late by (auto simp: enters_def)
  have old: "\<forall>y \<in> entered w'. entered_at w' x \<le> entered_at w' y \<longrightarrow> (first_super m)\<^sup>*\<^sup>* y x" if "x \<in> open_types w" for x
  proof -
    have "x \<noteq> c" using that c(1) by auto
    then show ?thesis using e up [OF that] that path by (simp add: enters_def on_path_def)
  qed
  have sup: "\<exists>p \<in> open_types w'. first_super m x p" if "x \<in> open_types w'" "x \<noteq> root" for x
    using that path c(2) unfolding op on_path_def by (cases "x = c") auto
  have "(first_super m)\<^sup>*\<^sup>* c x" if "x \<in> open_types w'" for x using that up unfolding op by auto
  then show ?thesis using path new old sup unfolding on_path_def op by blast
qed

lemma enter_child:
  assumes ok: "walk_ok m w" "on_path m root cur w" and l: "linked m (type_count m) l" and n: "type_count m < 2 ^ 32"
    and child: "w_firstChild w ! cur \<noteq> noLink"
  obtains c fc w' where "w_firstChild w ! cur = of_nat c" "fc = (w_firstChild w)[cur := lk_nextSibling l ! c]"
    "w' = enterNode (of_nat c) (w\<lparr>w_firstChild := fc\<rparr>)"
    "c < type_count m" "c \<notin> entered w" "first_super m c cur" "enters c fc w w'" "walk_ok m w'" "on_path m root c w'"
proof -
  have cur: "cur \<in> open_types w" "cur < type_count m" using ok entered_finite [OF ok(1)] by (auto simp: on_path_def)
  have "links_left m w cur" using ok(1) cur(2) by (simp add: walk_ok_def)
  then obtain c where c: "w_firstChild w ! cur = of_nat c" "first_super m c cur" "c \<notin> entered w"
    "\<And>d. first_super m d cur \<Longrightarrow> d = c \<or> d \<in> entered w \<longleftrightarrow> c \<le> d"
    using child by (rule links_left_next) blast
  have cn: "c < type_count m" using first_super_bounded [OF c(2) n] by simp
  define fc where "fc = (w_firstChild w)[cur := lk_nextSibling l ! c]"
  define w' where "w' = enterNode (of_nat c) (w\<lparr>w_firstChild := fc\<rparr>)"
  have e: "enters c fc w w'" unfolding w'_def using ok(1) cn c(3) n by (rule enters_enterNode)
  have "links_left m w' p" if p: "p < type_count m" for p
  proof (cases "p = cur")
    case True
    have "last_child m cur c (fc ! cur)" using l c(2) cn ok(1) cur(2) by (simp add: linked_def fc_def walk_ok_def)
    then show ?thesis using cn c(4) e True unfolding links_left_def enters_def by (intro exI [of _ c]) auto
  next
    case False
    then have "\<not> first_super m c p" using first_super_fun [OF c(2)] by blast
    moreover have "links_left m w p" "fc ! p = w_firstChild w ! p" using ok(1) p False by (simp_all add: walk_ok_def fc_def)
    ultimately show ?thesis using e links_left_enters by blast
  qed
  moreover have "length fc = type_count m" using ok(1) by (simp add: fc_def walk_ok_def)
  ultimately have "walk_ok m w'" using walk_ok_enters [OF ok(1) e c(3)] by blast
  moreover have "on_path m root c w'" using ok(2,1) e c(3,2) by (rule on_path_enters)
  ultimately show ?thesis by (rule that [OF c(1) fc_def w'_def cn c(3,2) e])
qed

text \<open>Leaving the current type once its children are entered.\<close>

definition leaves :: "nat \<Rightarrow> walk \<Rightarrow> walk \<Rightarrow> bool" where
  "leaves c w w' \<longleftrightarrow> w_tick w' = w_tick w \<and> w_enter w' = w_enter w \<and> w_firstChild w' = w_firstChild w \<and>
     length (w_exit w') = length (w_exit w) \<and> (\<forall>i. left_at w' i = (if i = c then ticks w else left_at w i)) \<and>
     entered w' = entered w \<and> left_types w' = insert c (left_types w)"

lemma leaves_update:
  assumes "walk_ok m w" "c \<in> entered w"
  shows "leaves c w (w\<lparr>w_exit := (w_exit w)[c := w_tick w]\<rparr>)"
proof -
  have "c < length (w_exit w)" using assms entered_finite [OF assms(1)] by (auto simp: walk_ok_def)
  moreover have "ticks w \<noteq> 0" using assms entered_finite [OF assms(1)] by (auto simp: walk_ok_def)
  ultimately show ?thesis by (auto simp: leaves_def left_types_def entered_def nth_list_update)
qed

lemma children_entered:
  assumes "links_left m w p" "w_firstChild w ! p = noLink" "first_super m c p" "type_count m \<le> 2 ^ 32 - 1"
  shows "c \<in> entered w"
proof -
  obtain k where k: "last_child m p k (w_firstChild w ! p)" "\<And>c. first_super m c p \<Longrightarrow> c \<in> entered w \<longleftrightarrow> k \<le> c"
    using assms(1) by (auto simp: links_left_def)
  have "of_nat d \<noteq> noLink" if "first_super m d p" for d
    using first_super_bounded [OF that] assms(4) by (intro noLink_fresh) simp
  then have "\<forall>d < k. \<not> first_super m d p" using k(1) assms(2) unfolding last_child_def by metis
  then show ?thesis using k(2) assms(3) by (meson not_le)
qed

lemma walk_ok_leaves:
  assumes ok: "walk_ok m w" and path: "on_path m root cur w" and l: "leaves cur w w'"
    and none: "w_firstChild w ! cur = noLink" and n: "type_count m \<le> 2 ^ 32 - 1"
  shows "walk_ok m w'"
proof -
  have cur: "cur \<in> entered w" "cur < type_count m" using ok path entered_finite [OF ok] by (auto simp: on_path_def)
  have "\<forall>c. first_super m c cur \<longrightarrow> c \<in> entered w"
    using children_entered [OF _ none _ n] ok cur(2) by (auto simp: walk_ok_def)
  moreover have "\<forall>y \<in> entered w. entered_at w cur \<le> entered_at w y \<longrightarrow> (first_super m)\<^sup>*\<^sup>* y cur"
    using path by (simp add: on_path_def)
  moreover have "entered_at w cur \<le> ticks w" using ok cur(1) unfolding walk_ok_def by blast
  ultimately have new: "numbered m w' cur" using l cur(1) by (simp add: numbered_def leaves_def)
  have old: "numbered m w' x" if "x \<in> left_types w" for x
  proof -
    have "x \<noteq> cur" using that path by (auto simp: on_path_def)
    moreover have "numbered m w x" using ok that by (simp add: walk_ok_def)
    ultimately show ?thesis using l by (simp add: numbered_def leaves_def)
  qed
  have "links_left m w' p" if "p < type_count m" for p using ok l that by (simp add: walk_ok_def links_left_def leaves_def)
  then show ?thesis using ok l new old by (auto simp: walk_ok_def leaves_def)
qed

lemma on_path_leaves:
  assumes path: "on_path m root cur w" and l: "leaves cur w w'" and acyc: "\<And>x. \<not> (first_super m)\<^sup>+\<^sup>+ x x" and ne: "cur \<noteq> root"
  obtains p where "first_super m cur p" "on_path m root p w'"
proof -
  have op: "open_types w' = open_types w - {cur}" using l by (auto simp: leaves_def)
  obtain p where p: "p \<in> open_types w" "first_super m cur p" using path ne unfolding on_path_def by blast
  have down: "q \<noteq> cur" if "x \<in> open_types w" "first_super m x q" for x q
    using path that acyc [of cur] rtranclp_into_tranclp1 [of "first_super m" cur x q] unfolding on_path_def by blast
  have up: "(first_super m)\<^sup>*\<^sup>* p x" if "x \<in> open_types w" "x \<noteq> cur" for x
  proof -
    have "(first_super m)\<^sup>*\<^sup>* cur x" using path that(1) unfolding on_path_def by blast
    then show ?thesis using that(2) p(2) first_super_fun by (metis converse_rtranclpE)
  qed
  have "p \<noteq> cur" using down path p(2) unfolding on_path_def by blast
  moreover have "\<exists>q \<in> open_types w'. first_super m x q" if "x \<in> open_types w" "x \<noteq> root" for x
    using path down [OF that(1)] that unfolding op on_path_def by blast
  moreover have "\<forall>y \<in> entered w'. entered_at w' x \<le> entered_at w' y \<longrightarrow> (first_super m)\<^sup>*\<^sup>* y x" if "x \<in> open_types w" for x
    using path that l by (simp add: on_path_def leaves_def)
  ultimately have "on_path m root p w'"
    using path p(1) up ne unfolding on_path_def op by blast
  then show ?thesis using that p(2) by blast
qed

lemma last_leaves:
  assumes "on_path m root root w" "leaves root w w'" "\<And>p. \<not> first_super m root p"
  shows "open_types w' = {}"
proof -
  have "x = root" if "x \<in> open_types w" for x
    using assms(1,3) that unfolding on_path_def by (metis converse_rtranclpE)
  then show ?thesis using assms(2) by (auto simp: leaves_def)
qed

text \<open>Two steps for each type, one on entering and one on leaving it, bound the walk.\<close>

definition walk_left :: "Module \<Rightarrow> walk \<Rightarrow> nat" where
  "walk_left m w = 2 * (type_count m - card (entered w)) + card (open_types w)"

lemma walk_left_enters:
  assumes "walk_ok m w" "walk_ok m w'" "enters c fc w w'" "c \<notin> entered w"
  shows "walk_left m w' < walk_left m w"
proof -
  have nl: "c \<notin> left_types w" using assms(1,4) by (auto simp: walk_ok_def numbered_def)
  have fin: "finite (entered w)" "finite (entered w')" using entered_finite assms(1,2) by blast+
  have "card (entered w') \<le> card {..<type_count m}" using entered_finite [OF assms(2)] by (intro card_mono) auto
  moreover have "card (entered w') = card (entered w) + 1" using assms(3,4) fin by (simp add: enters_def)
  moreover have "open_types w' = insert c (open_types w)" using assms(3) nl by (auto simp: enters_def)
  then have "card (open_types w') = card (open_types w) + 1" using assms(4) fin by simp
  ultimately show ?thesis by (simp add: walk_left_def)
qed

lemma walk_left_leaves:
  assumes "walk_ok m w" "leaves c w w'" "c \<in> open_types w"
  shows "walk_left m w' < walk_left m w"
proof -
  have "open_types w' = open_types w - {c}" using assms(2) by (auto simp: leaves_def)
  moreover have "finite (open_types w)" using entered_finite [OF assms(1)] by blast
  ultimately have "card (open_types w') < card (open_types w)" using assms(3) by (metis card_Diff1_less)
  then show ?thesis using assms(2) by (simp add: walk_left_def leaves_def)
qed

definition walked :: "Module \<Rightarrow> walk \<Rightarrow> walk \<Rightarrow> bool" where
  "walked m w w' \<longleftrightarrow> walk_ok m w' \<and> open_types w' = {} \<and> entered w \<subseteq> entered w' \<and>
     (\<forall>c \<in> entered w' - entered w. \<exists>p. first_super m c p)"

lemma walkTree_enters:
  assumes "walk_ok m w" "on_path m root cur w" "linked m (type_count m) l" "type_count m \<le> 2 ^ 32 - 1" "w_firstChild w ! cur \<noteq> noLink"
  obtains c w' where "walkTree (Suc fuel) l r (of_nat cur) w = walkTree fuel l r (of_nat c) w'"
    "walk_ok m w'" "on_path m root c w'" "walk_left m w' < walk_left m w" "\<And>v. walked m w' v \<Longrightarrow> walked m w v"
proof -
  have n: "type_count m < 2 ^ 32" using assms(4) by simp
  obtain c fc w' where c: "w_firstChild w ! cur = of_nat c" "fc = (w_firstChild w)[cur := lk_nextSibling l ! c]"
    "w' = enterNode (of_nat c) (w\<lparr>w_firstChild := fc\<rparr>)" "c < type_count m" "c \<notin> entered w" "first_super m c cur"
    "enters c fc w w'" "walk_ok m w'" "on_path m root c w'"
    using assms(1-3) n assms(5) by (rule enter_child)
  have "cur < type_count m" using assms(2) entered_finite [OF assms(1)] by (auto simp: on_path_def)
  then have u: "unat (of_nat cur :: u32) = cur" "unat (of_nat c :: u32) = c" using n c(4) by (simp_all add: unat_of_nat_small)
  have run: "walkTree (Suc fuel) l r (of_nat cur) w = walkTree fuel l r (of_nat c) w'"
    using assms(5) by (simp add: walkTree.simps(2) u c(1) c(2) c(3) Let_def)
  have "entered w' = insert c (entered w)" using c(7) by (simp add: enters_def)
  then have walked: "walked m w v" if "walked m w' v" for v using that c(6) by (auto simp: walked_def)
  have "walk_left m w' < walk_left m w" using assms(1) c(8,7,5) by (rule walk_left_enters)
  then show ?thesis using walked by (rule that [OF run c(8,9)])
qed

lemma walkTree_leaves:
  assumes "walk_ok m w" "on_path m root cur w" "type_count m \<le> 2 ^ 32 - 1" "w_firstChild w ! cur = noLink"
  obtains w' where "walkTree (Suc fuel) l (of_nat root) (of_nat cur) w =
      (if cur = root then Some w' else walkTree fuel l (of_nat root) (lk_parent l ! cur) w')"
    "leaves cur w w'" "walk_ok m w'" "walk_left m w' < walk_left m w" "\<And>v. walked m w' v \<Longrightarrow> walked m w v"
proof -
  define w' where "w' = w\<lparr>w_exit := (w_exit w)[cur := w_tick w]\<rparr>"
  have cur: "cur \<in> open_types w" using assms(2) by (simp add: on_path_def)
  have lv: "leaves cur w w'" unfolding w'_def using assms(1) cur by (intro leaves_update) auto
  have "cur < type_count m" "root < type_count m" using assms(2) entered_finite [OF assms(1)] by (auto simp: on_path_def)
  then have u: "unat (of_nat cur :: u32) = cur" "unat (of_nat root :: u32) = root" using assms(3) by (simp_all add: unat_of_nat_small)
  then have "of_nat cur = (of_nat root :: u32) \<longleftrightarrow> cur = root" by metis
  then have "walkTree (Suc fuel) l (of_nat root) (of_nat cur) w =
      (if cur = root then Some w' else walkTree fuel l (of_nat root) (lk_parent l ! cur) w')"
    using assms(4) by (simp add: walkTree.simps(2) u w'_def)
  moreover have "walk_ok m w'" using assms(1,2) lv assms(4,3) by (rule walk_ok_leaves)
  moreover have "walked m w v" if "walked m w' v" for v using that lv by (simp add: walked_def leaves_def)
  moreover have "walk_left m w' < walk_left m w" using assms(1) lv cur by (rule walk_left_leaves)
  ultimately show ?thesis using lv that by blast
qed

lemma walkTree_ok:
  assumes l: "linked m (type_count m) l" and n: "type_count m \<le> 2 ^ 32 - 1"
    and acyc: "\<And>x. \<not> (first_super m)\<^sup>+\<^sup>+ x x" and root: "\<And>p. \<not> first_super m root p"
  shows "walk_ok m w \<Longrightarrow> on_path m root cur w \<Longrightarrow> walk_left m w < fuel \<Longrightarrow>
    \<exists>w'. walkTree fuel l (of_nat root) (of_nat cur) w = Some w' \<and> walked m w w'"
proof (induction fuel arbitrary: cur w)
  case 0
  then show ?case by simp
next
  case (Suc fuel)
  show ?case
  proof (cases "w_firstChild w ! cur = noLink")
    case False
    obtain c w' where c: "walkTree (Suc fuel) l (of_nat root) (of_nat cur) w = walkTree fuel l (of_nat root) (of_nat c) w'"
      "walk_ok m w'" "on_path m root c w'" "walk_left m w' < walk_left m w" "\<And>v. walked m w' v \<Longrightarrow> walked m w v"
      using Suc.prems(1,2) l n False by (rule walkTree_enters) blast
    then have "walk_left m w' < fuel" using Suc.prems(3) by simp
    then show ?thesis using Suc.IH [OF c(2,3)] c(1,5) by metis
  next
    case True
    obtain w' where w': "walkTree (Suc fuel) l (of_nat root) (of_nat cur) w =
      (if cur = root then Some w' else walkTree fuel l (of_nat root) (lk_parent l ! cur) w')"
      "leaves cur w w'" "walk_ok m w'" "walk_left m w' < walk_left m w" "\<And>v. walked m w' v \<Longrightarrow> walked m w v"
      using Suc.prems(1,2) n True by (rule walkTree_leaves) blast
    show ?thesis
    proof (cases "cur = root")
      case True
      have "open_types w' = {}" using last_leaves [of m root w w'] Suc.prems(2) w'(2) root True by blast
      then have "walked m w w'" using w'(2,3) by (simp add: walked_def leaves_def)
      then show ?thesis using w'(1) True by simp
    next
      case False
      obtain p where p: "first_super m cur p" "on_path m root p w'"
        using on_path_leaves [OF Suc.prems(2) w'(2) _ False] acyc by blast
      have "cur < type_count m" using first_super_bounded [OF p(1)] n by simp
      then have "lk_parent l ! cur = of_nat p" using l p(1) by (simp add: linked_def)
      moreover have "walk_left m w' < fuel" using w'(4) Suc.prems(3) by simp
      ultimately show ?thesis using Suc.IH [OF w'(3) p(2)] w'(1,5) False by (metis (full_types))
    qed
  qed
qed

text \<open>A root that has not been entered: the walk of its tree.\<close>

lemma walkRoot_ok:
  assumes l: "linked m (type_count m) l" and n: "type_count m \<le> 2 ^ 32 - 1" and acyc: "\<And>x. \<not> (first_super m)\<^sup>+\<^sup>+ x x"
    and root: "\<And>p. \<not> first_super m root p" "root < type_count m" "root \<notin> entered w"
    and ok: "walk_ok m w" "open_types w = {}" and fuel: "2 * type_count m + 1 \<le> fuel"
  obtains w' where "walkTree fuel l (of_nat root) (of_nat root) (enterNode (of_nat root) w) = Some w'"
    "walk_ok m w'" "open_types w' = {}" "insert root (entered w) \<subseteq> entered w'"
    "\<And>c. c \<in> entered w' \<Longrightarrow> c = root \<or> c \<in> entered w \<or> (\<exists>p. first_super m c p)"
proof -
  define v where "v = enterNode (of_nat root) (w\<lparr>w_firstChild := w_firstChild w\<rparr>)"
  have n': "type_count m < 2 ^ 32" using n by simp
  have e: "enters root (w_firstChild w) w v" unfolding v_def using ok(1) root(2,3) n' by (rule enters_enterNode)
  have "links_left m v p" if "p < type_count m" for p
    using ok(1) that by (intro links_left_enters [OF _ e _ root(1)]) (auto simp: walk_ok_def)
  moreover have "length (w_firstChild w) = type_count m" using ok(1) by (simp add: walk_ok_def)
  ultimately have v: "walk_ok m v" using walk_ok_enters [OF ok(1) e root(3)] by blast
  have ent: "entered v = insert root (entered w)" and nl: "root \<notin> left_types w"
    using e ok(1) root(3) by (auto simp: enters_def walk_ok_def numbered_def)
  have op: "open_types v = {root}" using e nl ok(2) by (auto simp: enters_def)
  have late: "\<not> ticks w + 1 \<le> entered_at w y" if "y \<in> entered w" for y using that ok(1) by (auto simp: walk_ok_def)
  have "(first_super m)\<^sup>*\<^sup>* y root" if "y \<in> entered v" "entered_at v root \<le> entered_at v y" for y
    using that e late by (auto simp: enters_def split: if_splits)
  then have path: "on_path m root root v" by (simp add: on_path_def op)
  have "0 < card (entered v)" using ent entered_finite [OF v] by (simp add: card_gt_0_iff)
  then have "walk_left m v < fuel" using fuel root(2) by (simp add: walk_left_def op)
  then obtain w' where w': "walkTree fuel l (of_nat root) (of_nat root) v = Some w'" "walked m v w'"
    using walkTree_ok [OF l n acyc root(1) v path] by blast
  have run: "walkTree fuel l (of_nat root) (of_nat root) (enterNode (of_nat root) w) = Some w'" using w'(1) by (simp add: v_def)
  have ok': "walk_ok m w'" "open_types w' = {}" "insert root (entered w) \<subseteq> entered w'" using w'(2) ent by (auto simp: walked_def)
  have "c = root \<or> c \<in> entered w \<or> (\<exists>p. first_super m c p)" if "c \<in> entered w'" for c using w'(2) ent that by (auto simp: walked_def)
  then show ?thesis by (rule that [OF run ok'])
qed

lemma parent_none:
  assumes "linked m (type_count m) l" "type_count m \<le> 2 ^ 32 - 1" "c < type_count m"
  shows "lk_parent l ! c = noLink \<longleftrightarrow> (\<forall>p. \<not> first_super m c p)"
proof
  assume none: "lk_parent l ! c = noLink"
  show "\<forall>p. \<not> first_super m c p"
  proof (intro allI notI)
    fix p assume p: "first_super m c p"
    then have "p < 2 ^ 32 - 1" using first_super_bounded [OF p] assms(2) by simp
    moreover have "of_nat p = noLink" using assms(1,3) p none by (simp add: linked_def)
    ultimately show False using noLink_fresh by blast
  qed
qed (use assms in \<open>simp add: linked_def\<close>)

lemma walkRoots_ok:
  assumes l: "linked m (type_count m) l" and n: "type_count m \<le> 2 ^ 32 - 1" and acyc: "\<And>x. \<not> (first_super m)\<^sup>+\<^sup>+ x x"
    and fuel: "2 * type_count m + 1 \<le> fuel"
  shows "walk_ok m w \<Longrightarrow> open_types w = {} \<Longrightarrow> distinct roots \<Longrightarrow> set roots \<subseteq> {..<type_count m} \<Longrightarrow>
    (\<And>r. r \<in> set roots \<Longrightarrow> \<forall>p. \<not> first_super m r p \<Longrightarrow> r \<notin> entered w) \<Longrightarrow>
    \<exists>w'. walkRoots fuel l roots w = Some w' \<and> walk_ok m w' \<and> open_types w' = {} \<and> entered w \<subseteq> entered w' \<and>
      (\<forall>r \<in> set roots. (\<forall>p. \<not> first_super m r p) \<longrightarrow> r \<in> entered w')"
proof (induction roots arbitrary: w)
  case Nil
  then show ?case by simp
next
  case (Cons r roots)
  show ?case
  proof (cases "\<forall>p. \<not> first_super m r p")
    case False
    then have "lk_parent l ! r \<noteq> noLink" using parent_none [OF l n] Cons.prems(4) by auto
    moreover have "\<exists>w'. walkRoots fuel l roots w = Some w' \<and> walk_ok m w' \<and> open_types w' = {} \<and> entered w \<subseteq> entered w' \<and>
      (\<forall>r \<in> set roots. (\<forall>p. \<not> first_super m r p) \<longrightarrow> r \<in> entered w')"
      using Cons.prems by (intro Cons.IH) auto
    ultimately show ?thesis using False by auto
  next
    case True
    then have root: "lk_parent l ! r = noLink" using parent_none [OF l n] Cons.prems(4) by auto
    obtain w' where w': "walkTree fuel l (of_nat r) (of_nat r) (enterNode (of_nat r) w) = Some w'"
      "walk_ok m w'" "open_types w' = {}" "insert r (entered w) \<subseteq> entered w'"
      "\<And>c. c \<in> entered w' \<Longrightarrow> c = r \<or> c \<in> entered w \<or> (\<exists>p. first_super m c p)"
      using walkRoot_ok [OF l n acyc _ _ _ Cons.prems(1,2) fuel, of r] True Cons.prems(4,5) by auto
    have "q \<notin> entered w'" if "q \<in> set roots" "\<forall>p. \<not> first_super m q p" for q
      using w'(5) [of q] Cons.prems(3,5) that by auto
    then have "\<exists>v. walkRoots fuel l roots w' = Some v \<and> walk_ok m v \<and> open_types v = {} \<and> entered w' \<subseteq> entered v \<and>
      (\<forall>r \<in> set roots. (\<forall>p. \<not> first_super m r p) \<longrightarrow> r \<in> entered v)"
      using Cons.prems(3,4) w'(2,3) by (intro Cons.IH) auto
    then obtain v where v: "walkRoots fuel l roots w' = Some v" "walk_ok m v" "open_types v = {}" "entered w' \<subseteq> entered v"
      "\<forall>r \<in> set roots. (\<forall>p. \<not> first_super m r p) \<longrightarrow> r \<in> entered v" by blast
    have "insert r (entered w) \<subseteq> entered v" using w'(4) v(4) by (rule order_trans)
    moreover have "walkRoots fuel l (r # roots) w = Some v" using w'(1) v(1) root by simp
    ultimately show ?thesis using v(2,3,5) by auto
  qed
qed

text \<open>Every type hangs below a root, so the walk numbers them all.\<close>

lemma first_super_rooted:
  assumes "type_count m < 2 ^ 32" "\<And>x. \<not> (first_super m)\<^sup>+\<^sup>+ x x"
    and root: "\<And>x. x < type_count m \<Longrightarrow> \<forall>p. \<not> first_super m x p \<Longrightarrow> P x"
    and down: "\<And>x p. P p \<Longrightarrow> first_super m x p \<Longrightarrow> P x"
    and x: "x < type_count m"
  shows "P x"
proof -
  let ?r = "{(p, x). first_super m x p}"
  have "?r \<subseteq> {..<type_count m} \<times> {..<type_count m}" using first_super_bounded assms(1) by fastforce
  then have "finite ?r" by (rule finite_subset) simp
  moreover have "(x, y) \<in> ?r\<^sup>+ \<Longrightarrow> (first_super m)\<^sup>+\<^sup>+ y x" for x y
    by (induction rule: trancl_induct) (auto intro: tranclp_into_tranclp2)
  then have "acyclic ?r" using assms(2) unfolding acyclic_def by blast
  ultimately have "wf ?r" by (rule finite_acyclic_wf)
  then show ?thesis using x
  proof (induction x)
    case (less x)
    show ?case
    proof (cases "\<forall>p. \<not> first_super m x p")
      case True
      then show ?thesis using root less.prems by blast
    next
      case False
      then obtain p where p: "first_super m x p" by blast
      then have "P p" using less.IH [of p] first_super_bounded [OF p assms(1)] by simp
      then show ?thesis using down p by blast
    qed
  qed
qed

lemma first_super_above: "(first_super m)\<^sup>+\<^sup>+ x y \<Longrightarrow> (super_edge m)\<^sup>+\<^sup>+ x y"
  by (induction rule: tranclp_induct) (auto intro: first_super_edge tranclp.trancl_into_trancl)

lemma first_super_chain:
  assumes "(first_super m)\<^sup>*\<^sup>* x y"
  shows "subtype_of m x y"
proof -
  have "(super_edge m)\<^sup>*\<^sup>* x y" using assms by (induction rule: rtranclp_induct) (auto intro: first_super_edge rtranclp.rtrancl_into_rtrancl)
  then show ?thesis using type_equiv_refl unfolding subtype_of_def by blast
qed

lemma buildSupertypeAncestry_sound:
  assumes n: "type_count m \<le> 2 ^ 32 - 1" and res: "edges_resolve m" and acyc: "\<And>x. \<not> (super_edge m)\<^sup>+\<^sup>+ x x"
  obtains enter exit where "buildSupertypeAncestry m = Some (enter, exit)"
    "\<And>a b. a < type_count m \<Longrightarrow> b < type_count m \<Longrightarrow> enter ! b \<le> enter ! a \<Longrightarrow> exit ! a \<le> exit ! b \<Longrightarrow> subtype_of m a b"
proof -
  have n': "type_count m < 2 ^ 32" using n by simp
  have acyc': "\<not> (first_super m)\<^sup>+\<^sup>+ x x" for x
    using acyc [of x] first_super_above by blast
  define l where "l = fold (linkChild m) [0..<type_count m]
    \<lparr>lk_parent = replicate (type_count m) noLink, lk_firstChild = replicate (type_count m) noLink, lk_nextSibling = replicate (type_count m) 0\<rparr>"
  define w where "w = \<lparr>w_firstChild = lk_firstChild l, w_tick = 0, w_enter = replicate (type_count m) 0, w_exit = replicate (type_count m) 0\<rparr>"
  have l: "linked m (type_count m) l" unfolding l_def using n' res by (rule links_linked) simp
  have ent: "entered w = {}" "left_types w = {}" by (auto simp: entered_def left_types_def w_def)
  have "links_left m w p" if "p < type_count m" for p
    using l that first_super_bounded [OF _ n'] unfolding links_left_def ent by (intro exI [of _ "type_count m"]) (auto simp: linked_def w_def not_le)
  then have ok: "walk_ok m w" using l unfolding walk_ok_def ent by (simp add: w_def linked_def)
  have "set [0..<type_count m] \<subseteq> {..<type_count m}" by auto
  then obtain w' where w': "walkRoots (2 * type_count m + 1) l [0..<type_count m] w = Some w'" "walk_ok m w'" "open_types w' = {}"
    "\<And>r. r < type_count m \<Longrightarrow> \<forall>p. \<not> first_super m r p \<Longrightarrow> r \<in> entered w'"
    using walkRoots_ok [OF l n acyc' order_refl ok, of "[0..<type_count m]"] ent by (auto simp: Ball_def)
  have all: "x \<in> entered w'" if "x < type_count m" for x
    using n' acyc' w'(4) _ that
  proof (rule first_super_rooted)
    fix x p assume "p \<in> entered w'" "first_super m x p"
    then show "x \<in> entered w'" using w'(2,3) by (auto simp: walk_ok_def numbered_def)
  qed
  have "subtype_of m a b" if "a < type_count m" "b < type_count m" "w_enter w' ! b \<le> w_enter w' ! a" "w_exit w' ! a \<le> w_exit w' ! b" for a b
  proof -
    have num: "numbered m w' a" "numbered m w' b" using all that(1,2) w'(2,3) by (auto simp: walk_ok_def)
    have "entered_at w' b \<le> entered_at w' a" "entered_at w' a \<le> left_at w' b"
      using that(3,4) num(1) by (auto simp: word_le_nat_alt numbered_def)
    then have "(first_super m)\<^sup>*\<^sup>* a b" using num all that(1) by (simp add: numbered_def)
    then show ?thesis by (rule first_super_chain)
  qed
  moreover have "buildSupertypeAncestry m = Some (w_enter w', w_exit w')"
    using w'(1) by (simp add: buildSupertypeAncestry_def flat_count l_def [symmetric] w_def [symmetric])
  ultimately show ?thesis using that by blast
qed

section \<open>The type section as a whole\<close>

lemma firstError_ok: "firstError cs = Inr () \<longleftrightarrow> (\<forall>c \<in> set cs. c = Inr ())"
  by (induction cs) (auto split: sum.splits)

lemma firstError_fails: "firstError cs = Inl e \<longleftrightarrow> (\<exists>i < length cs. cs ! i = Inl e \<and> (\<forall>j < i. cs ! j = Inr ()))"
proof (induction cs)
  case (Cons c cs)
  show ?case
  proof (cases c)
    case (Inl e')
    then have "(\<forall>j < i. (c # cs) ! j = Inr ()) \<longleftrightarrow> i = 0" for i by (cases i) auto
    then show ?thesis using Inl by auto
  next
    case (Inr u)
    then show ?thesis using Cons by (auto simp: Ex_less_Suc2 All_less_Suc2)
  qed
qed simp

definition declared :: "Module \<Rightarrow> bool" where
  "declared m \<longleftrightarrow> (\<forall>i < type_count m. checkDeclaration m i = Inr ())"

text \<open>What the declared supertypes of a well-formed section have in common.\<close>

definition extends :: "Module \<Rightarrow> nat \<Rightarrow> nat \<Rightarrow> bool" where
  "extends m x y \<longleftrightarrow>
     (\<exists>st g upper ug. subtypeByFlatTypeIdx m x = Some (st, g) \<and> subtypeByFlatTypeIdx m y = Some (upper, ug) \<and>
        \<not> st_Final upper \<and> ct_Kind (st_Comp st) = ct_Kind (st_Comp upper) \<and>
        compTypeSubtype m ([], []) (st_Comp st) g (st_Comp upper) ug)"

lemma declared_super:
  assumes "declared m" "subtypeByFlatTypeIdx m x = Some (st, g)" "idx \<in> set (st_Supers st)"
  shows "checkSuper m st g idx = Inr ()"
proof -
  have x: "x < type_count m" using flat_lookup assms(2) by blast
  then have "dir_flat (ensureTypeIndex m) ! x = (st, g)" using flat_entry assms(2) by simp
  moreover have "checkDeclaration m x = Inr ()" using assms(1) x by (simp add: declared_def)
  ultimately show ?thesis using assms(3) by (auto simp: checkDeclaration_def Let_def firstError_ok split: sum.splits)
qed

lemma checkSuper_ok:
  assumes "checkSuper m st g idx = Inr ()"
  obtains y upper ug where "v_flatTypeIdxInRecGroup m idx (int g) = Some y" "subtypeByFlatTypeIdx m y = Some (upper, ug)"
    "\<not> st_Final upper" "ct_Kind (st_Comp st) = ct_Kind (st_Comp upper)" "compTypeSubtype m ([], []) (st_Comp st) g (st_Comp upper) ug"
  using assms by (auto simp: checkSuper_def split: option.splits prod.splits if_splits sum.splits)

lemma declared_resolves: "declared m \<Longrightarrow> edges_resolve m"
  unfolding edges_resolve_def by (metis declared_super checkSuper_ok option.distinct(1))

lemma declared_extends:
  assumes "declared m" "super_edge m x y"
  shows "extends m x y"
proof -
  obtain st g idx where e: "subtypeByFlatTypeIdx m x = Some (st, g)" "idx \<in> set (st_Supers st)" "v_flatTypeIdxInRecGroup m idx (int g) = Some y"
    using assms(2) by (auto simp: super_edge_def)
  obtain y' upper ug where u: "v_flatTypeIdxInRecGroup m idx (int g) = Some y'" "subtypeByFlatTypeIdx m y' = Some (upper, ug)"
    "\<not> st_Final upper" "ct_Kind (st_Comp st) = ct_Kind (st_Comp upper)" "compTypeSubtype m ([], []) (st_Comp st) g (st_Comp upper) ug"
    using checkSuper_ok [OF declared_super [OF assms(1) e(1,2)]] by blast
  then show ?thesis using e unfolding extends_def by auto
qed

lemma declared_kinds: "declared m \<Longrightarrow> kinds_kept m"
  unfolding kinds_kept_def by (auto dest!: declared_extends simp: extends_def kind_of_def)

text \<open>The stages after the declarations.\<close>

lemma no_supers_acyclic:
  assumes "list_all (\<lambda>(st, _). st_Supers st = []) (dir_flat (ensureTypeIndex m))"
  shows "\<not> super_edge m x y"
proof
  assume e: "super_edge m x y"
  then have "x < type_count m" using flat_lookup [of m x] by (auto simp: super_edge_def)
  then have "dir_flat (ensureTypeIndex m) ! x \<in> set (dir_flat (ensureTypeIndex m))" by (simp add: flat_count)
  then show False using e assms flat_entry \<open>x < type_count m\<close> by (auto simp: super_edge_def list_all_iff)
qed

lemma super_edge_cycle: "(super_edge m)\<^sup>+\<^sup>+ x y \<Longrightarrow> \<exists>z. super_edge m x z"
  by (induction rule: tranclp_induct) auto

lemma declared_verdict:
  assumes n: "type_count m < 2 ^ 32" and d: "declared m"
  shows "(\<exists>anc. validateSubtypeMetadata m = Some (Inr anc) \<and>
      (\<forall>a < type_count m. \<forall>b < type_count m. fst anc \<noteq> [] \<and> fst anc ! b \<le> fst anc ! a \<and> snd anc ! a \<le> snd anc ! b \<longrightarrow> subtype_of m a b)) \<and>
      (\<forall>x. \<not> (super_edge m)\<^sup>+\<^sup>+ x x) \<or>
    validateSubtypeMetadata m = Some (Inl ErrTypeMismatch) \<and> (\<exists>x. (super_edge m)\<^sup>+\<^sup>+ x x)"
proof -
  have ok: "firstError (map (checkDeclaration m) [0..<type_count m]) = Inr ()" using d by (auto simp: firstError_ok declared_def)
  show ?thesis
  proof (cases "list_all (\<lambda>(st, _). st_Supers st = []) (dir_flat (ensureTypeIndex m))")
    case True
    then have "validateSubtypeMetadata m = Some (Inr ([], []))" using ok by (simp add: validateSubtypeMetadata_def flat_count Let_def)
    moreover have "\<not> (super_edge m)\<^sup>+\<^sup>+ x x" for x using super_edge_cycle no_supers_acyclic [OF True] by blast
    ultimately show ?thesis by simp
  next
    case False
    have run: "validateSubtypeMetadata m = (case visitAll (type_count m + 1) m [0..<type_count m] (replicate (type_count m) 0, False) of
        None \<Rightarrow> None | Some (Inl e) \<Rightarrow> Some (Inl e)
      | Some (Inr (_, deep)) \<Rightarrow> if deep \<and> type_count m \<ge> 64 \<and> type_count m \<le> 2 ^ 32 - 1 \<and> type_count m \<le> (2 ^ 63 - 1) div 3
          then map_option Inr (buildSupertypeAncestry m) else Some (Inr ([], [])))"
      unfolding validateSubtypeMetadata_def flat_count Let_def ok using False by simp
    show ?thesis
      using visitAll_decides [OF n declared_resolves [OF d]]
    proof (elim disjE conjE exE)
      fix s assume s: "visitAll (type_count m + 1) m [0..<type_count m] (replicate (type_count m) 0, False) = Some (Inr s)"
        and acyc: "\<forall>x. \<not> (super_edge m)\<^sup>+\<^sup>+ x x"
      have le: "type_count m \<le> 2 ^ 32 - 1" using n by simp
      obtain enter exit where anc: "buildSupertypeAncestry m = Some (enter, exit)"
        "\<And>a b. a < type_count m \<Longrightarrow> b < type_count m \<Longrightarrow> enter ! b \<le> enter ! a \<Longrightarrow> exit ! a \<le> exit ! b \<Longrightarrow> subtype_of m a b"
        using buildSupertypeAncestry_sound [OF le declared_resolves [OF d]] acyc by blast
      obtain st deep where sd: "s = (st, deep)" by (cases s)
      show ?thesis using acyc anc unfolding run s sd
        by (cases "deep \<and> type_count m \<ge> 64 \<and> type_count m \<le> 2 ^ 32 - 1 \<and> type_count m \<le> (2 ^ 63 - 1) div 3") simp_all
    qed (auto simp: run)
  qed
qed

text \<open>The interval test only ever answers for related types, so the search decides the same relation with it as without.\<close>

lemma ancestry_agrees:
  assumes "type_count m < 2 ^ 32"
    and "\<forall>a < type_count m. \<forall>b < type_count m. fst anc \<noteq> [] \<and> fst anc ! b \<le> fst anc ! a \<and> snd anc ! a \<le> snd anc ! b \<longrightarrow> subtype_of m a b"
  shows "typeIdxSuperSubtype m anc a b = typeIdxSuperSubtype m ([], []) a b"
proof (cases "v_flatTypeIdxInRecGroup m a (-1) = None \<or> v_flatTypeIdxInRecGroup m b (-1) = None")
  case False
  then obtain x y where xy: "v_flatTypeIdxInRecGroup m a (-1) = Some x" "v_flatTypeIdxInRecGroup m b (-1) = Some y" by auto
  then have b: "x < type_count m" "y < type_count m" using v_flat_bounded assms(1) by blast+
  let ?in = "fst anc \<noteq> [] \<and> fst anc ! y \<le> fst anc ! x \<and> snd anc ! x \<le> snd anc ! y"
  have "?in \<Longrightarrow> subtype_of m x y" using assms(2) b by blast
  then show ?thesis by (auto simp: typeIdxSuperSubtype_def xy visitType_decides [OF b assms(1)])
qed (auto simp: typeIdxSuperSubtype_def split: option.splits)

lemma accepted:
  assumes "type_count m < 2 ^ 32" "validateSubtypeMetadata m = Some (Inr anc)"
  shows "declared m" "\<not> (super_edge m)\<^sup>+\<^sup>+ x x" "typeIdxSuperSubtype m anc a b = typeIdxSuperSubtype m ([], []) a b"
proof -
  have "firstError (map (checkDeclaration m) [0..<type_count m]) \<noteq> Inl e" for e
    using assms(2) by (auto simp: validateSubtypeMetadata_def flat_count Let_def)
  then have "firstError (map (checkDeclaration m) [0..<type_count m]) = Inr ()" by (metis old.sum.exhaust old.unit.exhaust)
  then show d: "declared m" by (auto simp: firstError_ok declared_def)
  have "\<not> (super_edge m)\<^sup>+\<^sup>+ x x \<and> (\<forall>a < type_count m. \<forall>b < type_count m.
      fst anc \<noteq> [] \<and> fst anc ! b \<le> fst anc ! a \<and> snd anc ! a \<le> snd anc ! b \<longrightarrow> subtype_of m a b)" for x
    using declared_verdict [OF assms(1) d] unfolding assms(2) by simp
  then show "\<not> (super_edge m)\<^sup>+\<^sup>+ x x" "typeIdxSuperSubtype m anc a b = typeIdxSuperSubtype m ([], []) a b"
    using ancestry_agrees [OF assms(1)] by blast+
qed

lemma refSubtype_ancestry:
  assumes "type_count m < 2 ^ 32" "validateSubtypeMetadata m = Some (Inr anc)"
  shows "refSubtype m anc a b = refSubtype m ([], []) a b"
  unfolding refSubtype_def accepted(3) [OF assms] ..

section \<open>Properties\<close>

text \<open>
  C2. Validation of the subtype declarations always returns. It accepts exactly the sections whose every
  declaration passes and whose supertype graph has no cycle. A failing declaration is reported with the error
  of the first one in flat order, and a cycle among passing declarations with a type mismatch.
\<close>

theorem validateSubtypeMetadata_verdict:
  assumes "type_count m < 2 ^ 32"
  shows "((\<exists>anc. validateSubtypeMetadata m = Some (Inr anc)) \<longleftrightarrow>
      (\<forall>i < type_count m. checkDeclaration m i = Inr ()) \<and> (\<forall>x. \<not> (super_edge m)\<^sup>+\<^sup>+ x x)) \<and>
    (\<forall>e. validateSubtypeMetadata m = Some (Inl e) \<longleftrightarrow>
      (\<exists>i < type_count m. checkDeclaration m i = Inl e \<and> (\<forall>j < i. checkDeclaration m j = Inr ())) \<or>
      (\<forall>i < type_count m. checkDeclaration m i = Inr ()) \<and> (\<exists>x. (super_edge m)\<^sup>+\<^sup>+ x x) \<and> e = ErrTypeMismatch)"
proof (cases "declared m")
  case True
  then have d: "(\<forall>i < type_count m. checkDeclaration m i = Inr ()) = True" by (simp add: declared_def)
  then have nd: "(\<exists>i < type_count m. checkDeclaration m i = Inl e \<and> (\<forall>j < i. checkDeclaration m j = Inr ())) = False" for e by auto
  show ?thesis using declared_verdict [OF assms True] unfolding d nd by auto
next
  case False
  let ?c = "firstError (map (checkDeclaration m) [0..<type_count m])"
  have "?c \<noteq> Inr ()" using False by (auto simp: firstError_ok declared_def)
  then obtain e where e: "?c = Inl e" by (cases ?c) auto
  then have v: "validateSubtypeMetadata m = Some (Inl e)" by (simp add: validateSubtypeMetadata_def flat_count Let_def)
  have "e = e' \<longleftrightarrow> (\<exists>i < type_count m. checkDeclaration m i = Inl e' \<and> (\<forall>j < i. checkDeclaration m j = Inr ()))" for e'
    using firstError_fails [of "map (checkDeclaration m) [0..<type_count m]" e'] e by (auto cong: conj_cong)
  moreover have nd: "(\<forall>i < type_count m. checkDeclaration m i = Inr ()) = False" using False by (simp add: declared_def)
  ultimately show ?thesis unfolding v nd by simp
qed

text \<open>
  C6. In an accepted section every declared supertype is an existing type that is not final, has the same kind and is
  structurally above its subtype, and no type is its own proper supertype.
\<close>

theorem validateSubtypeMetadata_extends:
  assumes "type_count m < 2 ^ 32" "validateSubtypeMetadata m = Some (Inr anc)"
  shows "(\<forall>x st g idx. subtypeByFlatTypeIdx m x = Some (st, g) \<and> idx \<in> set (st_Supers st) \<longrightarrow>
      (\<exists>y. v_flatTypeIdxInRecGroup m idx (int g) = Some y \<and> extends m x y)) \<and>
    (\<forall>x. \<not> (super_edge m)\<^sup>+\<^sup>+ x x)"
proof -
  have "\<exists>y. v_flatTypeIdxInRecGroup m idx (int g) = Some y \<and> extends m x y"
    if "subtypeByFlatTypeIdx m x = Some (st, g)" "idx \<in> set (st_Supers st)" for x st g idx
    using declared_resolves declared_extends accepted(1) [OF assms] that
    unfolding edges_resolve_def super_edge_def by (metis not_None_eq)
  then show ?thesis using accepted(2) [OF assms] by blast
qed

text \<open>
  C3. On an accepted section the subtype test between two type indices always returns. It answers whether some declared
  supertype of the first is equivalent to the second, with the interval numbering exactly as without it.
\<close>

theorem typeIdxSuperSubtype_decides:
  assumes "type_count m < 2 ^ 32" "validateSubtypeMetadata m = Some (Inr anc)"
  shows "typeIdxSuperSubtype m anc a b = Some
    (\<exists>x y. v_flatTypeIdxInRecGroup m a (-1) = Some x \<and> v_flatTypeIdxInRecGroup m b (-1) = Some y \<and> subtype_of m x y)"
  unfolding accepted(3) [OF assms] by (rule typeIdxSuperSubtype_iff [OF assms(1)])

text \<open>
  C4. On an accepted section reference subtyping is a preorder: every reference type is below itself, and a chain of two
  tests between decodable reference types implies the direct one.
\<close>

theorem refSubtype_preorder:
  assumes "type_count m < 2 ^ 32" "validateSubtypeMetadata m = Some (Inr anc)"
    and "heap_canon (RefType_Heap a)" "heap_canon (RefType_Heap b)"
  shows "refSubtype m anc a a \<and> (refSubtype m anc a b \<and> refSubtype m anc b c \<longrightarrow> refSubtype m anc a c)"
  using refSubtype_refl refSubtype_transitive [OF assms(1) declared_kinds [OF accepted(1) [OF assms(1,2)]] assms(3,4)]
  unfolding refSubtype_ancestry [OF assms(1,2)] by blast

text \<open>Three structs, each extending the one before.\<close>

definition structs_chain :: Module where
  "structs_chain =
     (let st = \<lambda>final sups. \<lparr>SubTypes = [\<lparr>st_Final = final, st_Supers = sups, st_Metadata = noTypeMetadata,
            st_Comp = zeroCompType CompStruct, st_HasPrefix = True\<rparr>]\<rparr>
      in emptyModule\<lparr>m_Types := [st False [], st False [absolute 0], st True [absolute 1]]\<rparr>)"

lemma structs_chain_count: "type_count structs_chain = 3"
  by (simp add: structs_chain_def emptyModule_def group_base_def)

lemma structs_chain_accepted: "validateSubtypeMetadata structs_chain = Some (Inr ([], []))"
  by code_simp

text \<open>Two structs of one group, each declared below the other.\<close>

definition structs_cycle :: Module where
  "structs_cycle =
     (let st = \<lambda>idx. \<lparr>st_Final = False, st_Supers = [\<lparr>ti_Index = idx, ti_Rec = True\<rparr>], st_Metadata = noTypeMetadata,
            st_Comp = zeroCompType CompStruct, st_HasPrefix = True\<rparr>
      in emptyModule\<lparr>m_Types := [\<lparr>SubTypes = [st 1, st 0]\<rparr>]\<rparr>)"

theorem validateSubtypeMetadata_verdict_witness:
  "(\<forall>x. \<not> (super_edge structs_chain)\<^sup>+\<^sup>+ x x) \<and> (\<exists>x. (super_edge structs_cycle)\<^sup>+\<^sup>+ x x)"
proof -
  have n: "type_count structs_chain < 2 ^ 32" "type_count structs_cycle = 2"
    by (simp add: structs_chain_count) (simp add: structs_cycle_def emptyModule_def group_base_def)
  have v: "validateSubtypeMetadata structs_cycle = Some (Inl ErrTypeMismatch)" by code_simp
  have d: "checkDeclaration structs_cycle 0 = Inr ()" "checkDeclaration structs_cycle 1 = Inr ()" by code_simp+
  have "\<forall>i < type_count structs_cycle. checkDeclaration structs_cycle i = Inr ()" using d unfolding n(2) by (simp add: numeral_2_eq_2 All_less_Suc)
  then show ?thesis
    using validateSubtypeMetadata_verdict [OF n(1)] structs_chain_accepted validateSubtypeMetadata_verdict [of structs_cycle] v n(2) by auto
qed

theorem validateSubtypeMetadata_extends_witness:
  "extends structs_chain 1 0 \<and> extends structs_chain 2 1"
proof -
  have n: "type_count structs_chain < 2 ^ 32" by (simp add: structs_chain_count)
  let ?g = "\<lambda>x. case subtypeByFlatTypeIdx structs_chain x of Some (st, g) \<Rightarrow> (st_Supers st, g) | None \<Rightarrow> ([], 0)"
  have g: "?g 1 = ([absolute 0], 1)" "?g 2 = ([absolute 1], 2)" by code_simp+
  obtain a b where s: "subtypeByFlatTypeIdx structs_chain 1 = Some (a, 1)" "absolute 0 \<in> set (st_Supers a)"
    "subtypeByFlatTypeIdx structs_chain 2 = Some (b, 2)" "absolute 1 \<in> set (st_Supers b)"
    using g by (auto split: option.splits)
  have t: "v_flatTypeIdxInRecGroup structs_chain (absolute 0) (int 1) = Some 0" "v_flatTypeIdxInRecGroup structs_chain (absolute 1) (int 2) = Some 1"
    by code_simp+
  note E = validateSubtypeMetadata_extends [OF n structs_chain_accepted, THEN conjunct1, rule_format]
  show ?thesis using E [OF conjI [OF s(1,2)]] E [OF conjI [OF s(3,4)]] unfolding t by auto
qed

theorem typeIdxSuperSubtype_decides_witness:
  "subtype_of structs_chain 2 0 \<and> \<not> subtype_of structs_chain 0 2"
proof -
  have n: "type_count structs_chain < 2 ^ 32" by (simp add: structs_chain_count)
  have t: "v_flatTypeIdxInRecGroup structs_chain (absolute 0) (-1) = Some 0" "v_flatTypeIdxInRecGroup structs_chain (absolute 2) (-1) = Some 2"
    by code_simp+
  have r: "typeIdxSuperSubtype structs_chain ([], []) (absolute 2) (absolute 0) = Some True"
    "typeIdxSuperSubtype structs_chain ([], []) (absolute 0) (absolute 2) = Some False" by code_simp+
  note D = typeIdxSuperSubtype_decides [OF n structs_chain_accepted]
  show ?thesis using D [of "absolute 2" "absolute 0"] D [of "absolute 0" "absolute 2"] unfolding r t by simp
qed

theorem refSubtype_preorder_witness:
  "refSubtype structs_chain ([], []) (Ref False (IndexedHeap (absolute 2)) False) (Ref True (IndexedHeap (absolute 0)) False)"
proof -
  have n: "type_count structs_chain < 2 ^ 32" by (simp add: structs_chain_count)
  let ?r = "\<lambda>null i. Ref null (IndexedHeap (absolute i)) False"
  have c: "heap_canon (RefType_Heap (?r False 2))" "heap_canon (RefType_Heap (?r False 1))" by code_simp+
  have s: "refSubtype structs_chain ([], []) (?r False 2) (?r False 1)" "refSubtype structs_chain ([], []) (?r False 1) (?r True 0)"
    by code_simp+
  show ?thesis using refSubtype_preorder [OF n structs_chain_accepted c, of "?r True 0"] s by blast
qed

end
