(* ===== verification/FuncSubtypes.thy ===== *)
theory FuncSubtypes
  imports Subtyping
begin

text \<open>
  The batch query \<open>FunctionSubtypeTypeIndexes\<close> of \<^verbatim>\<open>module_helpers.go\<close>: every declared function type below a
  given one. The code marks the structural equals of the target with one shared comparison state,
  reverses the supertype edges into offset and child arrays by counting, and walks them breadth
  first. The lemmas show that the arrays hold exactly the edges and that the answer is the list a
  direct test of every type would give.
\<close>

section \<open>The code\<close>

text \<open>The loop over the flattened types that fills \<open>equivalent\<close>.\<close>

fun markEquivalent :: "Module \<Rightarrow> u32 \<Rightarrow> (nat \<times> nat \<Rightarrow> nat) \<Rightarrow> nat \<Rightarrow> (SubType \<times> nat) list \<Rightarrow> bool list option" where
  "markEquivalent m targetType state ti [] = Some []"
| "markEquivalent m targetType state ti ((st, recGroup) # flat) =
     (if ct_Kind (st_Comp st) = CompFunc then
        (case typeIdxEquivalentWithState m \<lparr>ti_Index = of_nat ti, ti_Rec = False\<rparr> \<lparr>ti_Index = targetType, ti_Rec = False\<rparr> state of
           None \<Rightarrow> None
         | Some (ok, state') \<Rightarrow> map_option ((#) ok) (markEquivalent m targetType state' (Suc ti) flat))
      else map_option ((#) False) (markEquivalent m targetType state (Suc ti) flat))"

text \<open>The edges in the order both loops over the flattened types visit them, as (supertype, type).\<close>

fun superEdgesFrom :: "Module \<Rightarrow> nat \<Rightarrow> (SubType \<times> nat) list \<Rightarrow> (nat \<times> nat) list" where
  "superEdgesFrom m ti [] = []"
| "superEdgesFrom m ti ((st, recGroup) # flat) =
     map (\<lambda>superIndex. (superIndex, ti)) (List.map_filter (\<lambda>idx. flatTypeIdxInRecGroup m idx recGroup) (st_Supers st)) @
     superEdgesFrom m (Suc ti) flat"

definition countEdge :: "nat \<times> nat \<Rightarrow> nat list \<Rightarrow> nat list" where
  "countEdge e offsets = offsets[fst e + 1 := offsets ! (fst e + 1) + 1]"

definition prefixSum :: "nat \<Rightarrow> nat list \<Rightarrow> nat list" where
  "prefixSum i offsets = offsets[i := offsets ! i + offsets ! (i - 1)]"

definition placeEdge :: "nat \<times> nat \<Rightarrow> nat list \<times> u32 list \<Rightarrow> nat list \<times> u32 list" where
  "placeEdge e s =
     (let position = fst s ! fst e
      in ((fst s)[fst e := position + 1], (snd s)[position := of_nat (snd e)]))"

definition maxInt :: nat where "maxInt = 2 ^ 63 - 1"

definition superEdges :: "Module \<Rightarrow> (nat list \<times> u32 list) option" where
  "superEdges m =
     (let flat = dir_flat (typeIndex m); n = length flat; edges = superEdgesFrom m 0 flat
      in if n > maxInt - 1 \<or> n > 2 ^ 32 - 1 \<or> length edges > maxInt then None
         else let offsets = fold prefixSum [1..<n + 1] (fold countEdge edges (replicate (n + 1) 0))
              in Some (offsets, snd (fold placeEdge edges (take n offsets, replicate (length edges) 0))))"

definition reachChild :: "u32 \<Rightarrow> bool list \<times> u32 list \<Rightarrow> bool list \<times> u32 list" where
  "reachChild child s =
     (if fst s ! unat child then s else ((fst s)[unat child := True], snd s @ [child]))"

text \<open>The walk over the queue; \<open>None\<close> stands for running out of fuel.\<close>

primrec walkQueue :: "nat \<Rightarrow> nat list \<Rightarrow> u32 list \<Rightarrow> nat \<Rightarrow> bool list \<times> u32 list \<Rightarrow> bool list option" where
  "walkQueue 0 offsets children head s = None"
| "walkQueue (Suc fuel) offsets children head s =
     (if head < length (snd s) then
        (let parent = unat (snd s ! head)
         in walkQueue fuel offsets children (Suc head)
              (fold (\<lambda>edge. reachChild (children ! edge)) [offsets ! parent..<offsets ! (parent + 1)] s))
      else Some (fst s))"

definition collectFuncs :: "(SubType \<times> nat) list \<Rightarrow> bool list \<Rightarrow> u32 list" where
  "collectFuncs flat reachable =
     map of_nat (filter (\<lambda>i. reachable ! i \<and> ct_Kind (st_Comp (fst (flat ! i))) = CompFunc) [0..<length flat])"

definition smallCandidates :: "Module \<Rightarrow> u32 \<Rightarrow> u32 list" where
  "smallCandidates m targetType =
     filter (\<lambda>i. TypeFunc m i \<noteq> None \<and>
       refSubtype m ([], []) (Ref False (IndexedHeap \<lparr>ti_Index = i, ti_Rec = False\<rparr>) False)
         (Ref False (IndexedHeap \<lparr>ti_Index = targetType, ti_Rec = False\<rparr>) False)) [0, 1]"

definition FunctionSubtypeTypeIndexes :: "Module \<Rightarrow> u32 \<Rightarrow> (u32 list \<times> bool) option" where
  "FunctionSubtypeTypeIndexes m targetType =
     (let flat = dir_flat (typeIndex m); count = sum_list (map (\<lambda>g. length (SubTypes g)) (m_Types m))
      in if TypeFunc m targetType = None then Some ([], False)
      else if length (m_Types m) \<le> 2 \<and> count = 1 then Some ([targetType], True)
      else if length (m_Types m) \<le> 2 \<and> count = 2 then
        Some (smallCandidates m targetType, smallCandidates m targetType \<noteq> [])
      else case markEquivalent m targetType (\<lambda>_. 0) 0 flat of
        None \<Rightarrow> None
      | Some equivalent \<Rightarrow>
          (case superEdges m of
             None \<Rightarrow> Some ([], False)
           | Some (offsets, children) \<Rightarrow>
               map_option (\<lambda>reachable. (collectFuncs flat reachable, collectFuncs flat reachable \<noteq> []))
                 (walkQueue (Suc (length flat)) offsets children 0
                   (equivalent, map of_nat (filter ((!) equivalent) [0..<length flat])))))"

section \<open>Counting sort of the edges\<close>

definition edges_before :: "(nat \<times> 'a) list \<Rightarrow> nat \<Rightarrow> nat" where
  "edges_before es p = length (filter (\<lambda>e. fst e < p) es)"

definition edges_at :: "(nat \<times> 'a) list \<Rightarrow> nat \<Rightarrow> 'a list" where
  "edges_at es p = map snd (filter (\<lambda>e. fst e = p) es)"

lemma edges_before_Suc: "edges_before es (Suc p) = edges_before es p + length (edges_at es p)"
  by (induction es) (auto simp: edges_before_def edges_at_def)

lemma edges_before_mono: "p \<le> q \<Longrightarrow> edges_before es p \<le> edges_before es q"
  by (induction es) (auto simp: edges_before_def)

lemma edges_before_all: "(\<And>e. e \<in> set es \<Longrightarrow> fst e < n) \<Longrightarrow> edges_before es n = length es"
  by (induction es) (auto simp: edges_before_def)

lemma fold_countEdge:
  assumes "\<And>e. e \<in> set es \<Longrightarrow> fst e + 1 < length offs"
  shows "length (fold countEdge es offs) = length offs \<and>
    (\<forall>i < length offs. fold countEdge es offs ! i = offs ! i + (if i = 0 then 0 else length (edges_at es (i - 1))))"
  using assms
proof (induction es arbitrary: offs)
  case (Cons e es)
  note IH = Cons.IH [of "countEdge e offs"]
  have "fst x + 1 < length (countEdge e offs)" if "x \<in> set es" for x using Cons.prems that by (simp add: countEdge_def)
  then show ?case using IH Cons.prems [of e] by (auto simp: countEdge_def nth_list_update edges_at_def)
qed (simp add: edges_at_def)

lemma fold_prefixSum:
  assumes "k < length offs"
  shows "length (fold prefixSum [1..<Suc k] offs) = length offs \<and>
    (\<forall>i < length offs. fold prefixSum [1..<Suc k] offs ! i = (if i \<le> k then sum_list (take (Suc i) offs) else offs ! i))"
  using assms
proof (induction k)
  case 0
  then show ?case by (cases offs) auto
next
  case (Suc k)
  define f where "f = fold prefixSum [1..<Suc k] offs"
  have IH: "length f = length offs" "\<And>i. i < length offs \<Longrightarrow> f ! i = (if i \<le> k then sum_list (take (Suc i) offs) else offs ! i)"
    using Suc.IH Suc.prems by (auto simp: f_def)
  have step: "fold prefixSum [1..<Suc (Suc k)] offs = f[Suc k := f ! Suc k + f ! k]" by (simp add: prefixSum_def f_def)
  have "f ! Suc k + f ! k = sum_list (take (Suc (Suc k)) offs)"
    using IH(2) [of k] IH(2) [of "Suc k"] Suc.prems by (simp add: take_Suc_conv_app_nth)
  then show ?case using IH Suc.prems unfolding step by (auto simp: nth_list_update)
qed

lemma edge_offsets:
  assumes "\<And>e. e \<in> set es \<Longrightarrow> fst e < n"
  shows "length (fold prefixSum [1..<n + 1] (fold countEdge es (replicate (n + 1) 0))) = n + 1 \<and>
    (\<forall>i \<le> n. fold prefixSum [1..<n + 1] (fold countEdge es (replicate (n + 1) 0)) ! i = edges_before es i)"
proof -
  let ?c = "fold countEdge es (replicate (n + 1) 0)"
  have c: "length ?c = n + 1" "\<And>i. i \<le> n \<Longrightarrow> ?c ! i = (if i = 0 then 0 else length (edges_at es (i - 1)))"
    using fold_countEdge [of es "replicate (n + 1) 0"] Suc_leI [OF assms] by (auto simp: less_Suc_eq_le simp del: replicate_Suc)
  have sum: "sum_list (take (Suc i) ?c) = edges_before es i" if "i \<le> n" for i
    using that
  proof (induction i)
    case 0
    then show ?case using c(1) c(2) [of 0] by (cases ?c) (auto simp: edges_before_def)
  next
    case (Suc i)
    then show ?case using c by (simp add: take_Suc_conv_app_nth edges_before_Suc)
  qed
  show ?thesis using fold_prefixSum [of n ?c] c(1) sum by (simp add: less_Suc_eq_le)
qed

text \<open>After the edges \<open>es\<close> have been placed, the children of each supertype fill the front of its range.\<close>

definition placed :: "(nat \<times> nat) list \<Rightarrow> nat \<Rightarrow> (nat \<times> nat) list \<Rightarrow> nat list \<times> u32 list \<Rightarrow> bool" where
  "placed all n es s \<longleftrightarrow> length (fst s) = n \<and> length (snd s) = length all \<and>
     (\<forall>p < n. fst s ! p = edges_before all p + length (edges_at es p) \<and>
        (\<forall>j < length (edges_at es p). snd s ! (edges_before all p + j) = of_nat (edges_at es p ! j)))"

lemma edges_at_snoc: "edges_at (es @ [e]) p = (if fst e = p then edges_at es p @ [snd e] else edges_at es p)"
  by (simp add: edges_at_def)

lemma range_fits:
  assumes "\<And>e. e \<in> set all \<Longrightarrow> fst e < n" "p < n" "j < length (edges_at all p)"
  shows "edges_before all p + j < length all"
  using edges_before_Suc [of all p] edges_before_mono [of "Suc p" n all] edges_before_all [of all n] assms by simp

lemma ranges_disjoint:
  assumes "i < length (edges_at all p)" "j < length (edges_at all q)" "edges_before all p + i = edges_before all q + j"
  shows "p = q"
  using assms edges_before_Suc [of all p] edges_before_Suc [of all q] edges_before_mono [of "Suc p" q all] edges_before_mono [of "Suc q" p all]
  by (cases p q rule: linorder_cases) auto

lemma edges_at_append: "edges_at (xs @ ys) p = edges_at xs p @ edges_at ys p"
  by (simp add: edges_at_def)

lemma placeEdge_placed:
  assumes all: "all = es @ e # rest" and bound: "\<And>e. e \<in> set all \<Longrightarrow> fst e < n" and s: "placed all n es s"
  shows "placed all n (es @ [e]) (placeEdge e s)"
proof -
  have room: "length (edges_at es p) \<le> length (edges_at all p)" for p by (simp add: all edges_at_append)
  have own: "length (edges_at es (fst e)) < length (edges_at all (fst e))" by (simp add: all edges_at_append) (simp add: edges_at_def)
  have fst_e: "fst e < n" using bound all by simp
  let ?pos = "edges_before all (fst e) + length (edges_at es (fst e))"
  have pos: "fst s ! fst e = ?pos" "?pos < length (snd s)"
    using s fst_e range_fits [OF bound fst_e own] by (simp_all add: placed_def)
  have keep: "(snd s)[?pos := v] ! (edges_before all p + j) = snd s ! (edges_before all p + j)"
    if "j < length (edges_at es p)" for p j v
    using ranges_disjoint [OF own, of j p] that room [of p] by (cases "?pos = edges_before all p + j") auto
  have "snd (placeEdge e s) ! (edges_before all p + j) = of_nat (edges_at (es @ [e]) p ! j)"
    if "p < n" "j < length (edges_at (es @ [e]) p)" for p j
  proof (cases "j < length (edges_at es p)")
    case True
    then show ?thesis using keep [OF True] s that(1) pos(1) by (auto simp: placeEdge_def Let_def edges_at_snoc nth_append placed_def)
  next
    case False
    then have "p = fst e" "j = length (edges_at es p)" using that(2) by (auto simp: edges_at_snoc split: if_splits)
    then show ?thesis using pos by (simp add: placeEdge_def Let_def edges_at_snoc nth_append)
  qed
  then show ?thesis using s fst_e pos(1) by (auto simp: placed_def placeEdge_def Let_def edges_at_snoc nth_list_update)
qed

lemma fold_placeEdge:
  assumes "\<And>e. e \<in> set all \<Longrightarrow> fst e < n" "all = es @ rest" "placed all n es s"
  shows "placed all n all (fold placeEdge rest s)"
  using assms(2,3)
proof (induction rest arbitrary: es s)
  case (Cons e rest)
  show ?case using Cons.IH [of "es @ [e]" "placeEdge e s"] placeEdge_placed [of all es e rest n s] Cons.prems assms(1) by simp
qed simp

section \<open>The breadth-first walk\<close>

definition reached :: "bool list \<times> u32 list \<Rightarrow> nat set" where
  "reached s = {i. i < length (fst s) \<and> fst s ! i}"

definition queue_ok :: "nat \<Rightarrow> bool list \<times> u32 list \<Rightarrow> bool" where
  "queue_ok n s \<longleftrightarrow> length (fst s) = n \<and> distinct (snd s) \<and> unat ` set (snd s) = reached s"

lemma reachChild_ok:
  assumes "queue_ok n s" "unat c < n"
  shows "queue_ok n (reachChild c s) \<and> reached (reachChild c s) = insert (unat c) (reached s) \<and> (\<exists>xs. snd (reachChild c s) = snd s @ xs)"
proof (cases "fst s ! unat c")
  case True
  then show ?thesis using assms by (auto simp: reachChild_def queue_ok_def reached_def)
next
  case False
  have r: "reached (reachChild c s) = insert (unat c) (reached s)"
    using assms False by (auto simp: reachChild_def reached_def queue_ok_def nth_list_update)
  have "c \<notin> set (snd s)" using assms False by (auto simp: queue_ok_def reached_def)
  then show ?thesis using r assms False by (auto simp: queue_ok_def reachChild_def)
qed

lemma fold_reachChild:
  assumes "queue_ok n s" "\<And>c. c \<in> set cs \<Longrightarrow> unat c < n"
  shows "queue_ok n (fold reachChild cs s) \<and> reached (fold reachChild cs s) = reached s \<union> unat ` set cs \<and>
    (\<exists>xs. snd (fold reachChild cs s) = snd s @ xs)"
  using assms
proof (induction cs arbitrary: s)
  case (Cons c cs)
  have c: "queue_ok n (reachChild c s)" "reached (reachChild c s) = insert (unat c) (reached s)" "\<exists>xs. snd (reachChild c s) = snd s @ xs"
    using reachChild_ok [of n s c] Cons.prems by auto
  then show ?case using Cons.IH [OF c(1)] Cons.prems by fastforce
qed simp

lemma queue_bounded: "queue_ok n s \<Longrightarrow> length (snd s) \<le> n"
proof -
  assume q: "queue_ok n s"
  have "inj_on unat (set (snd s))" by (simp add: inj_on_def word_unat_eq_iff)
  then have "length (snd s) = card (reached s)" using q card_image [of unat "set (snd s)"] by (simp add: queue_ok_def distinct_card)
  also have "\<dots> \<le> card {..<n}" using q by (intro card_mono) (auto simp: reached_def queue_ok_def)
  finally show ?thesis by simp
qed

lemma walkQueue_reaches:
  assumes kids: "\<And>p. p < n \<Longrightarrow> map ((!) children) [offsets ! p..<offsets ! (p + 1)] = map of_nat (kids p)"
    and small: "n < 2 ^ 32" "\<And>p c. p < n \<Longrightarrow> c \<in> set (kids p) \<Longrightarrow> c < n"
    and ok: "queue_ok n s" "head \<le> length (snd s)" "n < fuel + head"
    and closed: "\<And>i c. i < head \<Longrightarrow> c \<in> set (kids (unat (snd s ! i))) \<Longrightarrow> c \<in> reached s"
    and start: "E \<subseteq> reached s" "\<And>x. x \<in> reached s \<Longrightarrow> \<exists>z \<in> E. (\<lambda>p c. c \<in> set (kids p))\<^sup>*\<^sup>* z x"
  shows "\<exists>reach. walkQueue fuel offsets children head s = Some reach \<and> length reach = n \<and>
    (\<forall>x < n. reach ! x \<longleftrightarrow> (\<exists>z \<in> E. (\<lambda>p c. c \<in> set (kids p))\<^sup>*\<^sup>* z x))"
  using ok closed start
proof (induction fuel arbitrary: head s)
  case 0
  then show ?case using queue_bounded by fastforce
next
  case (Suc fuel)
  let ?K = "\<lambda>p c. c \<in> set (kids p)"
  show ?case
  proof (cases "head < length (snd s)")
    case False
    then have head: "head = length (snd s)" using Suc.prems(2) by simp
    have "x \<in> reached s" if "z \<in> E" "?K\<^sup>*\<^sup>* z x" for z x
      using that(2)
    proof (induction rule: rtranclp_induct)
      case base
      then show ?case using that(1) Suc.prems(5) by blast
    next
      case (step y x)
      then have "y \<in> unat ` set (snd s)" using Suc.prems(1) by (simp add: queue_ok_def)
      then obtain i where "i < head" "y = unat (snd s ! i)" using head by (auto simp: in_set_conv_nth)
      then show ?case using Suc.prems(4) step.hyps(2) by blast
    qed
    then show ?thesis using False Suc.prems(1,6) by (auto simp: queue_ok_def reached_def)
  next
    case True
    let ?p = "unat (snd s ! head)"
    have p: "?p \<in> reached s" "?p < n" using True Suc.prems(1) by (auto simp: queue_ok_def reached_def image_def dest: nth_mem)
    define s' where "s' = fold reachChild (map of_nat (kids ?p)) s"
    have "fold (\<lambda>e. reachChild (children ! e)) [offsets ! ?p..<offsets ! (?p + 1)] s = s'"
      unfolding s'_def kids [OF p(2), symmetric] by (simp add: fold_map comp_def)
    then have run: "walkQueue (Suc fuel) offsets children head s = walkQueue fuel offsets children (Suc head) s'"
      using True by (simp add: Let_def)
    have un: "unat ` set (map of_nat (kids ?p) :: u32 list) = set (kids ?p)"
      using small p(2) by (force simp: image_image unat_of_nat_small)
    have bound: "unat c < n" if "c \<in> set (map of_nat (kids ?p) :: u32 list)" for c using imageI [OF that, of unat] small(2) p(2) unfolding un by blast
    have s': "queue_ok n s'" "reached s' = reached s \<union> set (kids ?p)" "\<exists>xs. snd s' = snd s @ xs"
      using fold_reachChild [OF Suc.prems(1), of "map of_nat (kids ?p)", OF bound] unfolding s'_def [symmetric] un by simp_all
    show ?thesis unfolding run
    proof (rule Suc.IH)
      show "queue_ok n s'" by (rule s'(1))
      show "Suc head \<le> length (snd s')" "n < fuel + Suc head" using s'(3) True Suc.prems(3) by auto
      show "c \<in> reached s'" if "i < Suc head" "c \<in> set (kids (unat (snd s' ! i)))" for i c
      proof -
        have "snd s' ! i = snd s ! i" using that(1) s'(3) True by (auto simp: nth_append)
        then show ?thesis using that Suc.prems(4) [of i c] s'(2) by (cases "i = head") simp_all
      qed
      show "E \<subseteq> reached s'" using Suc.prems(5) s'(2) by blast
      show "\<exists>z \<in> E. ?K\<^sup>*\<^sup>* z x" if "x \<in> reached s'" for x
      proof (cases "x \<in> reached s")
        case False
        then have "?K ?p x" using that s'(2) by simp
        then show ?thesis using Suc.prems(6) [OF p(1)] by (meson rtranclp.rtrancl_into_rtrancl)
      qed (rule Suc.prems(6))
    qed
  qed
qed

section \<open>The answer\<close>

lemma markEquivalent_marks:
  assumes "cache_valid m state" "type_count m < 2 ^ 32" "unat t < type_count m" "i + length flat \<le> type_count m"
  shows "\<exists>bs. markEquivalent m t state i flat = Some bs \<and> length bs = length flat \<and>
    (\<forall>j < length flat. bs ! j \<longleftrightarrow> ct_Kind (st_Comp (fst (flat ! j))) = CompFunc \<and> type_equiv m (i + j) (unat t))"
  using assms(1,4)
proof (induction flat arbitrary: state i)
  case (Cons f flat)
  obtain st g where f: "f = (st, g)" by (cases f)
  have t: "v_flatTypeIdxInRecGroup m \<lparr>ti_Index = t, ti_Rec = False\<rparr> (-1) = Some (unat t)"
    using v_flat_absolute [OF assms(3,2), of "-1"] by simp
  have i: "v_flatTypeIdxInRecGroup m (absolute i) (-1) = Some i" using Cons.prems(2) assms(2) by (intro v_flat_absolute) auto
  obtain ok state' where run: "typeIdxEquivalentWithState m (absolute i) \<lparr>ti_Index = t, ti_Rec = False\<rparr> state = Some (ok, state')"
    "cache_valid m state'" "ok \<longleftrightarrow> type_equiv m i (unat t)"
    using typeIdxEquivalentWithState_root [OF Cons.prems(1), of "absolute i" "\<lparr>ti_Index = t, ti_Rec = False\<rparr>"] i t by auto
  define next_state where "next_state = (if ct_Kind (st_Comp st) = CompFunc then state' else state)"
  have "cache_valid m next_state" using run(2) Cons.prems(1) by (simp add: next_state_def)
  from Cons.IH [OF this, of "Suc i"] Cons.prems(2) obtain bs where bs: "markEquivalent m t next_state (Suc i) flat = Some bs" "length bs = length flat"
    "\<forall>j < length flat. bs ! j \<longleftrightarrow> ct_Kind (st_Comp (fst (flat ! j))) = CompFunc \<and> type_equiv m (Suc i + j) (unat t)" by auto
  then have "markEquivalent m t state i (f # flat) = Some ((ct_Kind (st_Comp st) = CompFunc \<and> ok) # bs)"
    using run(1) by (auto simp: f next_state_def)
  moreover have "((ct_Kind (st_Comp st) = CompFunc \<and> ok) # bs) ! j \<longleftrightarrow>
      ct_Kind (st_Comp (fst ((f # flat) ! j))) = CompFunc \<and> type_equiv m (i + j) (unat t)" if "j < length (f # flat)" for j
    using that bs(3) run(3) by (cases j) (auto simp: f)
  ultimately show ?case using bs(2) by (metis length_Cons)
qed simp

lemma v_flat_module: "flatTypeIdxInRecGroup m idx g = v_flatTypeIdxInRecGroup m idx (int g)"
proof -
  have "length (dir_flat (typeIndex m)) = type_count m" using flat_count [of m] by (simp add: ensureTypeIndex_eq)
  then show ?thesis using flat_lookup [of m "unat (ti_Index idx)"]
    by (auto simp: flatTypeIdxInRecGroup_def v_flatTypeIdxInRecGroup_def validTypeIdx_def v_subtypeByTypeIdxWithRecGroup_def ensureTypeIndex_eq Let_def)
qed

lemma set_superEdgesFrom:
  "(p, c) \<in> set (superEdgesFrom m i flat) \<longleftrightarrow>
     (\<exists>j < length flat. c = i + j \<and> (\<exists>idx \<in> set (st_Supers (fst (flat ! j))). flatTypeIdxInRecGroup m idx (snd (flat ! j)) = Some p))"
proof (induction flat arbitrary: i)
  case (Cons f flat)
  obtain st g where f: "f = (st, g)" by (cases f)
  have "(p, c) \<in> set (superEdgesFrom m i (f # flat)) \<longleftrightarrow>
      c = i \<and> (\<exists>idx \<in> set (st_Supers st). flatTypeIdxInRecGroup m idx g = Some p) \<or> (p, c) \<in> set (superEdgesFrom m (Suc i) flat)"
    by (force simp: f map_filter_def)
  also have "\<dots> \<longleftrightarrow> (\<exists>j < length (f # flat). c = i + j \<and>
      (\<exists>idx \<in> set (st_Supers (fst ((f # flat) ! j))). flatTypeIdxInRecGroup m idx (snd ((f # flat) ! j)) = Some p))"
    unfolding Cons.IH by (simp add: f Ex_less_Suc2)
  finally show ?case .
qed simp

lemma set_superEdges: "(p, c) \<in> set (superEdgesFrom m 0 (dir_flat (typeIndex m))) \<longleftrightarrow> super_edge m c p"
proof -
  have "subtypeByFlatTypeIdx m c = Some (st, g) \<longleftrightarrow> c < length (dir_flat (typeIndex m)) \<and> dir_flat (typeIndex m) ! c = (st, g)" for st g
    by (auto simp: subtypeByFlatTypeIdx_def ensureTypeIndex_eq)
  then show ?thesis unfolding set_superEdgesFrom super_edge_def v_flat_module [symmetric] by (auto simp: prod_eq_iff)
qed

abbreviation plain_ref :: "u32 \<Rightarrow> RefType" where
  "plain_ref t \<equiv> Ref False (IndexedHeap \<lparr>ti_Index = t, ti_Rec = False\<rparr>) False"

abbreviation all_types :: "Module \<Rightarrow> (SubType \<times> nat) list" where
  "all_types m \<equiv> dir_flat (typeIndex m)"

lemma all_types_length: "length (all_types m) = type_count m"
  using flat_count [of m] by (simp add: ensureTypeIndex_eq)

lemma TypeFunc_kind:
  assumes "type_count m < 2 ^ 32"
  shows "TypeFunc m t \<noteq> None \<longleftrightarrow> kind_of m (unat t) = Some CompFunc"
proof -
  have "list_all (\<lambda>g. length (SubTypes g) < 2 ^ 63) (m_Types m)"
    using group_sizes_bounded [of "m_Types m" 63] assms by simp
  then show ?thesis
    by (cases "all_types m ! unat t")
      (auto simp: TypeFunc_def typeFunc_def subtypeByTypeIdx_def subtype_lookup nth_opt_def kind_of_def subtypeByFlatTypeIdx_def ensureTypeIndex_eq)
qed

lemma plain_refs_subtype:
  assumes "i < type_count m" "unat t < type_count m" "type_count m < 2 ^ 32"
  shows "refSubtype m ([], []) (plain_ref (of_nat i)) (plain_ref t) \<longleftrightarrow> subtype_of m i (unat t)"
proof -
  have acc: "RefType_Heap (Ref False (IndexedHeap x) False) = IndexedHeap x" "HeapType_Kind (IndexedHeap x) = HeapTypeIndex"
    "HeapType_Type (IndexedHeap x) = x" "\<not> Nullable (Ref False (IndexedHeap x) False)" "\<not> Exact (Ref False (IndexedHeap x) False)" for x
    by (simp_all add: pack_simps)
  have d: "denotes m (IndexedHeap (absolute x)) y \<longleftrightarrow> y = x" if "x < type_count m" for x y
    using v_flat_absolute [OF that assms(3), of "-1"] by (auto simp: denotes_def acc)
  have t: "\<lparr>ti_Index = t, ti_Rec = False\<rparr> = absolute (unat t)" by simp
  have dt: "denotes m (IndexedHeap \<lparr>ti_Index = t, ti_Rec = False\<rparr>) y \<longleftrightarrow> y = unat t" for y using d [OF assms(2)] unfolding t .
  have same: "i = unat t" if "equalHeapType (IndexedHeap (absolute i)) (IndexedHeap \<lparr>ti_Index = t, ti_Rec = False\<rparr>)"
    using equalHeapType_denotes [OF that, of m "unat t"] d [OF assms(1)] dt by simp
  show ?thesis unfolding refSubtype_iff [OF assms(3)] acc heapTypeEquivalent_iff heap_below_kinds(4) [OF acc(2) acc(2)] d [OF assms(1)] dt
    using same subtype_of_equiv [of m i "unat t"] type_equiv_refl acc(4,5) by (auto split: if_splits)
qed

lemma length_superEdgesFrom: "length (superEdgesFrom m i flat) \<le> sum_list (map (\<lambda>(st, _). length (st_Supers st)) flat)"
proof (induction flat arbitrary: i)
  case (Cons f flat)
  have "length (List.map_filter g xs) \<le> length xs" for g :: "TypeIdx \<Rightarrow> nat option" and xs by (simp add: map_filter_def)
  then show ?case using Cons.IH [of "Suc i"] by (cases f) (auto intro!: add_mono)
qed simp

lemma superEdges_arrays:
  assumes "type_count m < 2 ^ 32" "sum_list (map (\<lambda>(st, _). length (st_Supers st)) (all_types m)) < 2 ^ 63"
  obtains offsets children kids where "superEdges m = Some (offsets, children)"
    "\<And>p. p < type_count m \<Longrightarrow> map ((!) children) [offsets ! p..<offsets ! (p + 1)] = map of_nat (kids p)"
    "\<And>p c. c \<in> set (kids p) \<longleftrightarrow> super_edge m c p"
proof -
  let ?n = "type_count m"
  define es where "es = superEdgesFrom m 0 (all_types m)"
  define offs where "offs = fold prefixSum [1..<?n + 1] (fold countEdge es (replicate (?n + 1) 0))"
  define ch where "ch = snd (fold placeEdge es (take ?n offs, replicate (length es) 0))"
  have bound: "fst e < ?n" if "e \<in> set es" for e
    using that set_superEdges [of "fst e" "snd e" m] super_edge_bounded [OF _ assms(1)] by (auto simp: es_def)
  have o: "length offs = ?n + 1" "\<And>i. i \<le> ?n \<Longrightarrow> offs ! i = edges_before es i" using edge_offsets [of es ?n] bound unfolding offs_def by blast+
  have "placed es ?n [] (take ?n offs, replicate (length es) 0)" using o by (simp add: placed_def edges_at_def)
  then have pl: "placed es ?n es (fold placeEdge es (take ?n offs, replicate (length es) 0))" by (intro fold_placeEdge [of es ?n "[]"]) (auto dest: bound)
  have "map ((!) ch) [offs ! p..<offs ! (p + 1)] = map of_nat (edges_at es p)" if "p < ?n" for p
    using pl that o(2) [of p] o(2) [of "Suc p"] by (intro nth_equalityI) (auto simp: placed_def ch_def edges_before_Suc)
  moreover have "c \<in> set (edges_at es p) \<longleftrightarrow> super_edge m c p" for p c
    using set_superEdges [of p c m] by (force simp: edges_at_def es_def)
  moreover have "superEdges m = Some (offs, ch)"
  proof -
    have "\<not> (?n > maxInt - 1 \<or> ?n > 2 ^ 32 - 1 \<or> length es > maxInt)"
      using assms length_superEdgesFrom [of m 0 "all_types m"] by (simp add: maxInt_def es_def)
    then show ?thesis
      unfolding superEdges_def Let_def all_types_length es_def [symmetric] offs_def [symmetric] ch_def by (simp only: if_False)
  qed
  ultimately show ?thesis using that by blast
qed

text \<open>The list a direct test of every declared type gives.\<close>

definition function_subtypes :: "Module \<Rightarrow> u32 \<Rightarrow> u32 list" where
  "function_subtypes m t =
     map of_nat (filter (\<lambda>i. TypeFunc m (of_nat i) \<noteq> None \<and> refSubtype m ([], []) (plain_ref (of_nat i)) (plain_ref t)) [0..<type_count m])"

lemma function_subtypes_kind:
  assumes "type_count m < 2 ^ 32" "unat t < type_count m"
  shows "function_subtypes m t = map of_nat (filter (\<lambda>i. kind_of m i = Some CompFunc \<and> subtype_of m i (unat t)) [0..<type_count m])"
  unfolding function_subtypes_def
  using TypeFunc_kind [OF assms(1)] plain_refs_subtype [OF _ assms(2,1)] assms(1)
  by (intro arg_cong [of _ _ "map of_nat"] filter_cong) (auto simp: unat_of_nat_small)

lemma kind_of_nth: "i < type_count m \<Longrightarrow> kind_of m i = Some (ct_Kind (st_Comp (fst (all_types m ! i))))"
  by (simp add: kind_of_def subtypeByFlatTypeIdx_def ensureTypeIndex_eq all_types_length split_beta)

lemma queue_start:
  assumes "length bs = n" "n < 2 ^ 32"
  shows "queue_ok n (bs, map of_nat (filter ((!) bs) [0..<n]) :: u32 list)"
proof -
  have u: "unat (of_nat i :: u32) = i" if "i < n" for i using that assms(2) by (intro unat_of_nat_small) simp
  have "inj_on (of_nat :: nat \<Rightarrow> u32) (set (filter ((!) bs) [0..<n]))" by (rule inj_on_inverseI [of _ unat]) (auto simp: u)
  moreover have "unat ` set (map of_nat (filter ((!) bs) [0..<n]) :: u32 list) = {i. i < n \<and> bs ! i}"
    by (auto simp: u image_image intro!: image_eqI [of _ "\<lambda>i. unat (of_nat i :: u32)"])
  ultimately show ?thesis using assms(1) by (simp add: queue_ok_def reached_def distinct_map)
qed

lemma large_path:
  assumes n: "type_count m < 2 ^ 32" "sum_list (map (\<lambda>(st, _). length (st_Supers st)) (all_types m)) < 2 ^ 63"
    and t: "unat t < type_count m" "kind_of m (unat t) = Some CompFunc"
  shows "(case markEquivalent m t (\<lambda>_. 0) 0 (all_types m) of
        None \<Rightarrow> None
      | Some equivalent \<Rightarrow>
          (case superEdges m of
             None \<Rightarrow> Some ([], False)
           | Some (offsets, children) \<Rightarrow>
               map_option (\<lambda>reachable. (collectFuncs (all_types m) reachable, collectFuncs (all_types m) reachable \<noteq> []))
                 (walkQueue (Suc (length (all_types m))) offsets children 0
                   (equivalent, map of_nat (filter ((!) equivalent) [0..<length (all_types m)])))))
    = Some (function_subtypes m t, function_subtypes m t \<noteq> [])"
proof -
  let ?n = "type_count m"
  have "cache_valid m (\<lambda>_. 0)" by (simp add: cache_valid_def)
  then obtain bs where bs: "markEquivalent m t (\<lambda>_. 0) 0 (all_types m) = Some bs" "length bs = ?n"
    "\<And>j. j < ?n \<Longrightarrow> bs ! j \<longleftrightarrow> kind_of m j = Some CompFunc \<and> type_equiv m j (unat t)"
    using markEquivalent_marks [of m "\<lambda>_. 0" t 0 "all_types m"] n(1) t(1) by (auto simp: all_types_length kind_of_nth)
  obtain offsets children kids where csr: "superEdges m = Some (offsets, children)"
    "\<And>p. p < ?n \<Longrightarrow> map ((!) children) [offsets ! p..<offsets ! (p + 1)] = map of_nat (kids p)"
    "\<And>p c. c \<in> set (kids p) \<longleftrightarrow> super_edge m c p" using superEdges_arrays [OF n] by blast
  let ?s = "(bs, map of_nat (filter ((!) bs) [0..<?n]) :: u32 list)"
  have q: "queue_ok ?n ?s" using queue_start [OF bs(2) n(1)] .
  have K: "(\<lambda>p c. c \<in> set (kids p))\<^sup>*\<^sup>* z x \<longleftrightarrow> (super_edge m)\<^sup>*\<^sup>* x z" for z x
    unfolding csr(3) using rtranclp_converseD [of "super_edge m" z x] rtranclp_converseI [of "super_edge m" x z] by (auto simp: conversep.simps [abs_def])
  obtain reach where reach: "walkQueue (Suc ?n) offsets children 0 ?s = Some reach" "length reach = ?n"
    "\<And>x. x < ?n \<Longrightarrow> reach ! x \<longleftrightarrow> (\<exists>z \<in> reached ?s. (super_edge m)\<^sup>*\<^sup>* x z)"
    using walkQueue_reaches [of ?n children offsets kids ?s 0 "Suc ?n" "reached ?s"] csr(2,3) n(1) q super_edge_bounded [OF _ n(1)]
    unfolding K by auto
  have "collectFuncs (all_types m) reach = function_subtypes m t"
    unfolding function_subtypes_kind [OF n(1) t(1)] collectFuncs_def all_types_length
  proof (intro arg_cong [of _ _ "map of_nat"] filter_cong refl)
    fix i
    assume "i \<in> set [0..<?n]"
    then have i: "i < ?n" by simp
    have "z \<in> reached ?s \<longleftrightarrow> type_equiv m z (unat t)" if "(super_edge m)\<^sup>*\<^sup>* i z" for z
      using supers_bounded [OF that i n(1)] bs(2,3) type_equiv_kind [of m z "unat t"] t(2) by (auto simp: reached_def)
    then show "(reach ! i \<and> ct_Kind (st_Comp (fst (all_types m ! i))) = CompFunc) =
        (kind_of m i = Some CompFunc \<and> subtype_of m i (unat t))"
      using reach(3) [OF i] kind_of_nth [OF i] by (auto simp: subtype_of_def)
  qed
  then show ?thesis using bs(1) csr(1) reach(1) by (simp add: all_types_length)
qed

lemma small_path:
  assumes "type_count m = 2" "unat t < 2"
  shows "smallCandidates m t = function_subtypes m t"
proof -
  have "[0..<2] = [0, 1 :: nat]" by (simp add: upt_rec)
  then show ?thesis by (simp add: smallCandidates_def function_subtypes_def assms(1))
qed

lemma single_path:
  assumes "type_count m = 1" "TypeFunc m t \<noteq> None"
  shows "function_subtypes m t = [t]"
proof -
  have lt: "unat t < type_count m" using assms TypeFunc_kind [of m t] flat_lookup [of m "unat t"] by (auto simp: kind_of_def)
  then have "t = 0" using assms(1) by (simp add: unat_eq_zero)
  moreover have "subtype_of m 0 (unat t)" using lt assms(1) subtype_of_refl [of m 0] by simp
  ultimately show ?thesis using assms function_subtypes_kind [of m t] lt TypeFunc_kind [of m t] by simp
qed

section \<open>Property\<close>

text \<open>
  C5. The batch query returns, in increasing order, exactly the declared function types that a direct
  reference-subtype test against the target accepts. It succeeds for every function type and fails for
  every other index; the three size-dependent paths give the same answer.
\<close>

theorem FunctionSubtypeTypeIndexes_complete:
  assumes "type_count m < 2 ^ 32" "sum_list (map (\<lambda>(st, _). length (st_Supers st)) (all_types m)) < 2 ^ 63"
  shows "FunctionSubtypeTypeIndexes m t =
    Some (if TypeFunc m t = None then ([], False) else (function_subtypes m t, True))"
proof (cases "TypeFunc m t = None")
  case False
  have k: "kind_of m (unat t) = Some CompFunc" using False TypeFunc_kind [OF assms(1)] by simp
  then have lt: "unat t < type_count m" using flat_lookup [of m "unat t"] by (auto simp: kind_of_def)
  have "of_nat (unat t) \<in> set (function_subtypes m t)"
    unfolding function_subtypes_kind [OF assms(1) lt] set_map by (rule imageI) (simp add: k lt subtype_of_refl)
  then have ne: "function_subtypes m t \<noteq> []" by auto
  obtain ft where ft: "TypeFunc m t = Some ft" using False by auto
  have count: "sum_list (map (\<lambda>g. length (SubTypes g)) (m_Types m)) = type_count m" by (simp add: group_base_def)
  show ?thesis
    using ne lt large_path [OF assms lt k] small_path [of m t] single_path [of m t]
    unfolding FunctionSubtypeTypeIndexes_def Let_def count ft by simp
qed (simp add: FunctionSubtypeTypeIndexes_def)

definition funcs_chain :: Module where
  "funcs_chain =
     (let fn = \<lambda>sups ps. \<lparr>SubTypes = [\<lparr>st_Final = False, st_Supers = sups, st_Metadata = noTypeMetadata,
            st_Comp = (zeroCompType CompFunc)\<lparr>ct_Params := ps\<rparr>, st_HasPrefix = True\<rparr>]\<rparr>
      in emptyModule\<lparr>m_Types := [fn [] [], fn [] [I32], fn [absolute 0] []]\<rparr>)"

theorem FunctionSubtypeTypeIndexes_complete_witness:
  "FunctionSubtypeTypeIndexes funcs_chain 0 = Some ([0, 2], True) \<and> function_subtypes funcs_chain 0 = [0, 2]"
proof -
  have "type_count funcs_chain < 2 ^ 32" "sum_list (map (\<lambda>(st, _). length (st_Supers st)) (all_types funcs_chain)) < 2 ^ 63"
    by (simp_all add: funcs_chain_def emptyModule_def group_base_def typeIndex_def Let_def)
  note complete = FunctionSubtypeTypeIndexes_complete [OF this, of 0]
  have "function_subtypes funcs_chain 0 = [0, 2]" "TypeFunc funcs_chain 0 \<noteq> None" by code_simp+
  then show ?thesis using complete by simp
qed

end
