(* ===== verification/Locals.thy ===== *)
theory Locals
  imports Modules
begin

text \<open>
  The local index space of a function (\<^verbatim>\<open>module_helpers.go\<close>, \<^verbatim>\<open>validate.go\<close>): parameters followed by
  run-length encoded declarations, looked up by a scan whose cost is accounted for and that is replaced by
  a binary search over the ends of the runs once the account is used up. The lemmas show that
  every lookup, in whatever state earlier ones have left the index, is a lookup in the expanded list.
\<close>

section \<open>Counting and scanning runs\<close>

fun countRuns :: "u64 \<Rightarrow> LocalRun list \<Rightarrow> u64 \<times> bool" where
  "countRuns count [] = (count, False)"
| "countRuns count (run # runs) =
     (if - 1 - count < ucast (lr_Count run) then (0, True) else countRuns (count + ucast (lr_Count run)) runs)"

definition LocalCount :: "ValType list \<Rightarrow> LocalRun list \<Rightarrow> u64 \<times> bool" where
  "LocalCount params runs = countRuns (of_nat (length params)) runs"

text \<open>The scan of the runs: the position and type of the run that holds \<open>rem\<close>, or what is left of it.\<close>

fun scanRuns :: "nat \<Rightarrow> u64 \<Rightarrow> LocalRun list \<Rightarrow> u64 + nat \<times> ValType" where
  "scanRuns i rem [] = Inl rem"
| "scanRuns i rem (run # runs) =
     (if rem < ucast (lr_Count run) then Inr (i, lr_Type run) else scanRuns (i + 1) (rem - ucast (lr_Count run)) runs)"

definition LocalType :: "ValType list \<Rightarrow> LocalRun list \<Rightarrow> u32 \<Rightarrow> ValType option" where
  "LocalType params runs idx =
     (if (ucast idx :: u64) < of_nat (length params) then Some (params ! unat idx)
      else case scanRuns 0 (ucast idx - of_nat (length params)) runs of
        Inl _ \<Rightarrow> None
      | Inr (_, t) \<Rightarrow> Some t)"

text \<open>Go's \<open>sort.Search\<close>: the first position in \<open>i..<j\<close> at which a monotone predicate holds.\<close>

function sortSearch :: "(nat \<Rightarrow> bool) \<Rightarrow> nat \<Rightarrow> nat \<Rightarrow> nat" where
  "sortSearch f i j =
     (if i < j then (let h = (i + j) div 2 in if \<not> f h then sortSearch f (h + 1) j else sortSearch f i h) else i)"
  by pat_completeness auto
termination
  by (relation "measure (\<lambda>(f, i, j). j - i)") auto

declare sortSearch.simps [simp del]

definition LocalTypeIndexed :: "ValType list \<Rightarrow> LocalRun list \<Rightarrow> u64 list \<Rightarrow> u32 \<Rightarrow> ValType option" where
  "LocalTypeIndexed params runs runEnds idx =
     (if (ucast idx :: u64) < of_nat (length params) then Some (params ! unat idx)
      else if length runs \<le> 2 \<or> length runEnds \<noteq> length runs then LocalType params runs idx
      else let i = sortSearch (\<lambda>i. runEnds ! i > ucast idx) 0 (length runEnds)
           in if i = length runs then None else Some (lr_Type (runs ! i)))"

section \<open>The lookup of the function validator\<close>

record localLookup =
  localParams :: "ValType list"
  localRunList :: "LocalRun list"
  localRunEnds :: "u64 list"
  localLookupWork :: u64
  localCount :: u64

definition prepareLocalLookup :: "'a localLookup_scheme \<Rightarrow> 'a localLookup_scheme" where
  "prepareLocalLookup v = v\<lparr>localRunEnds := [], localLookupWork := 0\<rparr>"

fun runEndsFrom :: "u64 \<Rightarrow> LocalRun list \<Rightarrow> u64 list" where
  "runEndsFrom e [] = []"
| "runEndsFrom e (run # runs) = (e + ucast (lr_Count run)) # runEndsFrom (e + ucast (lr_Count run)) runs"

definition indexLocalRuns :: "'a localLookup_scheme \<Rightarrow> 'a localLookup_scheme" where
  "indexLocalRuns v =
     (if length (localRunList v) \<le> 2 then v\<lparr>localRunEnds := []\<rparr>
      else v\<lparr>localRunEnds := runEndsFrom (of_nat (length (localParams v))) (localRunList v)\<rparr>)"

definition localType :: "u32 \<Rightarrow> 'a localLookup_scheme \<Rightarrow> ValType option \<times> 'a localLookup_scheme" where
  "localType idx v =
     (let params = localParams v; runs = localRunList v
      in if length runs \<le> 2 then (LocalType params runs idx, v)
         else if localRunEnds v \<noteq> [] then (LocalTypeIndexed params runs (localRunEnds v) idx, v)
         else if (ucast idx :: u64) < of_nat (length params) then (Some (params ! unat idx), v)
         else if ucast idx \<ge> localCount v then (None, v)
         else case scanRuns 0 (ucast idx - of_nat (length params)) (take 2 runs) of
           Inr (_, t) \<Rightarrow> (Some t, v)
         | Inl rem \<Rightarrow>
             if localLookupWork v \<ge> 2 * of_nat (length runs) then
               (let v' = indexLocalRuns v in (LocalTypeIndexed params runs (localRunEnds v') idx, v'))
             else case scanRuns 0 rem (drop 2 runs) of
               Inr (i, t) \<Rightarrow> (Some t, v\<lparr>localLookupWork := localLookupWork v + of_nat (i + 1)\<rparr>)
             | Inl _ \<Rightarrow> (None, v))"

section \<open>The expanded list\<close>

definition declared_locals :: "ValType list \<Rightarrow> LocalRun list \<Rightarrow> ValType list" where
  "declared_locals params runs = params @ expand_runs runs"

definition at :: "'a list \<Rightarrow> nat \<Rightarrow> 'a option" where
  "at xs i = (if i < length xs then Some (xs ! i) else None)"

lemma at_append: "at (xs @ ys) i = (if i < length xs then Some (xs ! i) else at ys (i - length xs))"
  by (auto simp: at_def nth_append)

lemma expand_Cons [simp]: "expand_runs (run # runs) = replicate (unat (lr_Count run)) (lr_Type run) @ expand_runs runs"
  "expand_runs [] = []"
  by (simp_all add: expand_runs_def)

lemma local_total_simps [simp]: "local_total [] = 0" "local_total (run # runs) = unat (lr_Count run) + local_total runs"
  "local_total (xs @ ys) = local_total xs + local_total ys"
  by (simp_all add: local_total_def)

lemma expand_length [simp]: "length (expand_runs runs) = local_total runs"
  by (induction runs) simp_all

lemma expand_append: "expand_runs (xs @ ys) = expand_runs xs @ expand_runs ys"
  by (induction xs) simp_all

lemma countRuns_exact:
  "countRuns c runs = (if unat c + local_total runs < 2 ^ 64 then (of_nat (unat c + local_total runs), False) else (0, True))"
proof (induction runs arbitrary: c)
  case Nil
  show ?case using unsigned_less [of c] by simp
next
  case (Cons run runs)
  have uc: "unat c < 2 ^ 64" using unsigned_less [of c] by simp
  have u: "unat (- 1 - c) = 2 ^ 64 - 1 - unat c" by (simp add: unat_sub unsigned_minus_1_eq_mask mask_eq_exp_minus_1)
  show ?case
  proof (cases "- 1 - c < ucast (lr_Count run)")
    case True
    then have "2 ^ 64 \<le> unat c + unat (lr_Count run)" using u by (simp add: word_less_nat_alt unat_u32_u64)
    then show ?thesis using True by simp
  next
    case False
    then have "unat c + unat (lr_Count run) < 2 ^ 64" using u uc by (simp add: word_less_nat_alt unat_u32_u64)
    then have "unat (c + ucast (lr_Count run)) = unat c + unat (lr_Count run)" by (simp add: unat_word_ariths unat_u32_u64)
    then show ?thesis using False Cons by (simp add: add.assoc)
  qed
qed

lemma scanRuns_at:
  "case scanRuns i rem runs of
     Inr (_, t) \<Rightarrow> at (expand_runs runs) (unat rem) = Some t
   | Inl r \<Rightarrow> unat r + local_total runs = unat rem"
proof (induction i rem runs rule: scanRuns.induct)
  case (2 i rem run runs)
  show ?case
  proof (cases "rem < ucast (lr_Count run)")
    case True
    then have "unat rem < unat (lr_Count run)" by (simp add: word_less_nat_alt unat_u32_u64)
    then show ?thesis using True by (simp add: at_append)
  next
    case False
    then have ge: "unat (lr_Count run) \<le> unat rem" by (simp add: word_less_nat_alt unat_u32_u64)
    then have u: "unat (rem - ucast (lr_Count run)) = unat rem - unat (lr_Count run)" using False by (simp add: unat_sub unat_u32_u64 not_less)
    show ?thesis using "2.IH" [OF False] False ge u by (auto simp: at_append split: sum.splits)
  qed
qed simp

lemma scanRuns_total:
  "map_option snd (case scanRuns i rem runs of Inr x \<Rightarrow> Some x | Inl _ \<Rightarrow> None) = at (expand_runs runs) (unat rem)"
  using scanRuns_at [where i = i and rem = rem and runs = runs] by (auto simp: at_def split: sum.splits if_splits)

definition splits_at :: "(nat \<Rightarrow> bool) \<Rightarrow> nat \<Rightarrow> nat \<Rightarrow> bool" where
  "splits_at f n i \<longleftrightarrow> i \<le> n \<and> (\<forall>k < i. \<not> f k) \<and> (\<forall>k. i \<le> k \<and> k < n \<longrightarrow> f k)"

lemma sortSearch_first:
  assumes mono: "\<And>x y. x \<le> y \<Longrightarrow> y < n \<Longrightarrow> f x \<Longrightarrow> f y"
  shows "j \<le> n \<Longrightarrow> i \<le> j \<Longrightarrow> \<forall>k < i. \<not> f k \<Longrightarrow> \<forall>k. j \<le> k \<and> k < n \<longrightarrow> f k \<Longrightarrow> splits_at f n (sortSearch f i j)"
proof (induction "j - i" arbitrary: i j rule: less_induct)
  case less
  let ?h = "(i + j) div 2"
  note eq = sortSearch.simps [of f i j]
  show ?case
  proof (cases "i < j")
    case False
    then have "sortSearch f i j = i" using eq by simp
    then show ?thesis using less.prems False by (simp add: splits_at_def)
  next
    case lt: True
    then have h: "i \<le> ?h" "?h < j" "?h < n" using less.prems(1) by auto
    show ?thesis
    proof (cases "f ?h")
      case False
      have "\<forall>k < ?h + 1. \<not> f k" using mono [OF _ h(3)] False by (metis less_Suc_eq_le Suc_eq_plus1)
      then have "splits_at f n (sortSearch f (?h + 1) j)" using less.hyps [of j "?h + 1"] h less.prems(1,4) by simp
      then show ?thesis using eq lt False by (simp add: Let_def)
    next
      case True
      have "\<forall>k. ?h \<le> k \<and> k < n \<longrightarrow> f k" using mono True by blast
      then have "splits_at f n (sortSearch f i ?h)" using less.hyps [of ?h i] h less.prems(3) by simp
      then show ?thesis using eq lt True by (simp add: Let_def)
    qed
  qed
qed

lemma runEndsFrom_nth:
  "unat e + local_total runs < 2 ^ 64 \<Longrightarrow>
    length (runEndsFrom e runs) = length runs \<and> (\<forall>i < length runs. unat (runEndsFrom e runs ! i) = unat e + local_total (take (Suc i) runs))"
proof (induction runs arbitrary: e)
  case (Cons run runs)
  have u: "unat (e + ucast (lr_Count run)) = unat e + unat (lr_Count run)" using Cons.prems by (simp add: unat_word_ariths unat_u32_u64)
  then have "unat (e + ucast (lr_Count run)) + local_total runs < 2 ^ 64" using Cons.prems by simp
  note IH = Cons.IH [OF this]
  show ?case
  proof (intro conjI allI impI)
    fix i assume "i < length (run # runs)"
    then show "unat (runEndsFrom e (run # runs) ! i) = unat e + local_total (take (Suc i) (run # runs))"
      using IH u by (cases i) auto
  qed (use IH in simp)
qed simp

lemma local_total_take: "i \<le> j \<Longrightarrow> local_total (take i runs) \<le> local_total (take j runs)"
proof (induction runs arbitrary: i j)
  case (Cons run runs)
  then show ?case by (cases i; cases j) auto
qed simp

lemma expand_at:
  "i < length runs \<Longrightarrow> local_total (take i runs) \<le> x \<Longrightarrow> x < local_total (take (Suc i) runs) \<Longrightarrow> at (expand_runs runs) x = Some (lr_Type (runs ! i))"
proof (induction runs arbitrary: i x)
  case (Cons run runs)
  show ?case
  proof (cases i)
    case 0
    then show ?thesis using Cons.prems by (simp add: at_append)
  next
    case (Suc k)
    then show ?thesis using Cons.prems Cons.IH [of k "x - unat (lr_Count run)"] by (auto simp: at_append)
  qed
qed simp

section \<open>Lookups in any state\<close>

definition lookup_ok :: "'a localLookup_scheme \<Rightarrow> bool" where
  "lookup_ok v \<longleftrightarrow> (let n = length (localParams v) + local_total (localRunList v) in
     n < 2 ^ 64 \<and> localCount v = of_nat n \<and>
     (localRunEnds v = [] \<or> localRunEnds v = runEndsFrom (of_nat (length (localParams v))) (localRunList v)))"

lemma LocalType_at:
  assumes "length params + local_total runs < 2 ^ 64"
  shows "LocalType params runs idx = at (declared_locals params runs) (unat idx)"
proof -
  have p: "unat (of_nat (length params) :: u64) = length params" using assms by (intro unat_of_nat_small) simp
  show ?thesis
  proof (cases "(ucast idx :: u64) < of_nat (length params)")
    case True
    then show ?thesis using p by (simp add: LocalType_def declared_locals_def at_append word_less_nat_alt unat_u32_u64)
  next
    case False
    then have "unat (ucast idx - of_nat (length params) :: u64) = unat idx - length params" "length params \<le> unat idx"
      using p by (simp_all add: unat_sub word_less_nat_alt unat_u32_u64 word_le_nat_alt not_less)
    then show ?thesis using False scanRuns_total [where i = 0 and rem = "ucast idx - of_nat (length params)" and runs = runs]
      by (auto simp: LocalType_def declared_locals_def at_append split: sum.splits)
  qed
qed

lemma LocalTypeIndexed_at:
  assumes "length params + local_total runs < 2 ^ 64" "ends = runEndsFrom (of_nat (length params)) runs"
  shows "LocalTypeIndexed params runs ends idx = at (declared_locals params runs) (unat idx)"
proof -
  have p: "unat (of_nat (length params) :: u64) = length params" using assms(1) by (intro unat_of_nat_small) simp
  have ends: "length ends = length runs" "\<And>i. i < length runs \<Longrightarrow> unat (ends ! i) = length params + local_total (take (Suc i) runs)"
    using runEndsFrom_nth [of "of_nat (length params)" runs] assms p by simp_all
  let ?f = "\<lambda>i. ends ! i > (ucast idx :: u64)"
  define i where "i = sortSearch ?f 0 (length ends)"
  show ?thesis
  proof (cases "(ucast idx :: u64) < of_nat (length params) \<or> length runs \<le> 2 \<or> length ends \<noteq> length runs")
    case True
    then show ?thesis using LocalType_at [OF assms(1), of idx] ends(1) by (auto simp: LocalTypeIndexed_def LocalType_def)
  next
    case False
    have f: "?f k \<longleftrightarrow> unat idx < length params + local_total (take (Suc k) runs)" if "k < length runs" for k
      using ends(2) [OF that] by (simp add: word_less_nat_alt unat_u32_u64)
    have mono: "?f y" if "x \<le> y" "y < length ends" "?f x" for x y
      using that f [of x] f [of y] ends(1) local_total_take [of "Suc x" "Suc y" runs] by simp
    have found: "sortSearch ?f 0 (length runs) = i" by (simp add: i_def ends(1))
    have split: "splits_at ?f (length ends) i"
      unfolding i_def by (rule sortSearch_first) (use mono in auto)
    have i: "i \<le> length runs" "\<And>k. k < i \<Longrightarrow> \<not> ?f k" "\<And>k. i \<le> k \<Longrightarrow> k < length runs \<Longrightarrow> ?f k"
      using split ends(1) by (simp_all add: splits_at_def)
    have ge: "\<not> unat idx < length params" using False p by (simp add: word_less_nat_alt unat_u32_u64)
    have low: "length params + local_total (take i runs) \<le> unat idx"
    proof (cases i)
      case 0
      then show ?thesis using ge by simp
    next
      case (Suc k)
      then show ?thesis using i(1) i(2) [of k] f [of k] by simp
    qed
    show ?thesis
    proof (cases "i = length runs")
      case True
      then have "at (declared_locals params runs) (unat idx) = None" using low by (simp add: at_def declared_locals_def)
      then show ?thesis using False True by (simp add: LocalTypeIndexed_def found)
    next
      case lt: False
      then have "unat idx - length params < local_total (take (Suc i) runs)" using i(1) i(3) [of i] f [of i] ge by simp
      then have "at (expand_runs runs) (unat idx - length params) = Some (lr_Type (runs ! i))"
        using low lt i(1) by (intro expand_at) auto
      then show ?thesis using False lt ge by (simp add: LocalTypeIndexed_def found declared_locals_def at_append)
    qed
  qed
qed

definition same_locals :: "'a localLookup_scheme \<Rightarrow> 'a localLookup_scheme \<Rightarrow> bool" where
  "same_locals v v' \<longleftrightarrow> localParams v' = localParams v \<and> localRunList v' = localRunList v \<and> localCount v' = localCount v \<and>
     localLookup.more v' = localLookup.more v"

lemma scanRuns_split:
  assumes "scanRuns 0 rem (take 2 runs) = Inl r"
  shows "at (expand_runs runs) (unat rem) = at (expand_runs (drop 2 runs)) (unat r)"
proof -
  have "unat r + local_total (take 2 runs) = unat rem"
    using scanRuns_at [where i = 0 and rem = rem and runs = "take 2 runs"] assms by simp
  moreover have "expand_runs runs = expand_runs (take 2 runs) @ expand_runs (drop 2 runs)" by (simp flip: expand_append)
  ultimately show ?thesis by (metis add_diff_cancel_right' at_append expand_length le_add2 not_less)
qed

lemma at_take:
  assumes "at (expand_runs (take k runs)) x = Some t"
  shows "at (expand_runs runs) x = Some t"
proof -
  have "expand_runs runs = expand_runs (take k runs) @ expand_runs (drop k runs)" by (simp flip: expand_append)
  then show ?thesis using assms by (auto simp: at_def nth_append split: if_splits)
qed

definition looks_up :: "u32 \<Rightarrow> 'a localLookup_scheme \<Rightarrow> ValType option \<times> 'a localLookup_scheme \<Rightarrow> bool" where
  "looks_up idx v res \<longleftrightarrow> fst res = at (declared_locals (localParams v) (localRunList v)) (unat idx) \<and>
     lookup_ok (snd res) \<and> same_locals v (snd res)"

lemma looks_up_same:
  assumes "lookup_ok v" "at (declared_locals (localParams v) (localRunList v)) (unat idx) = t"
  shows "looks_up idx v (t, v)"
  using assms by (simp add: looks_up_def same_locals_def)

lemma lookup_bounds:
  assumes "lookup_ok v"
  shows "length (localParams v) + local_total (localRunList v) < 2 ^ 64"
    "unat (of_nat (length (localParams v)) :: u64) = length (localParams v)"
    "unat (localCount v) = length (localParams v) + local_total (localRunList v)"
proof -
  show n: "length (localParams v) + local_total (localRunList v) < 2 ^ 64" using assms by (simp add: lookup_ok_def Let_def)
  then show "unat (of_nat (length (localParams v)) :: u64) = length (localParams v)" by (intro unat_of_nat_small) simp
  have "localCount v = of_nat (length (localParams v) + local_total (localRunList v))" using assms by (simp add: lookup_ok_def Let_def)
  then show "unat (localCount v) = length (localParams v) + local_total (localRunList v)"
    using n unat_of_nat_small [where 'a = 64, of "length (localParams v) + local_total (localRunList v)"] by (simp only:) simp
qed

text \<open>The scan of a list of more than two runs that has no index yet.\<close>

lemma scan_looks_up:
  assumes ok: "lookup_ok v" and idx: "\<not> length (localRunList v) \<le> 2" "localRunEnds v = []"
    "length (localParams v) \<le> unat idx" "unat idx < length (localParams v) + local_total (localRunList v)"
  shows "looks_up idx v (localType idx v)"
proof -
  let ?params = "localParams v" and ?runs = "localRunList v"
  let ?spec = "at (declared_locals ?params ?runs) (unat idx)"
  note n = lookup_bounds [OF ok]
  define rem where "rem = (ucast idx - of_nat (length ?params) :: u64)"
  have rem: "unat rem = unat idx - length ?params" using idx(3) n(2) by (simp add: rem_def unat_sub word_le_nat_alt unat_u32_u64)
  have spec: "?spec = at (expand_runs ?runs) (unat rem)" using idx(3) by (simp add: declared_locals_def at_append rem)
  have skip: "\<not> (ucast idx :: u64) < of_nat (length ?params)" "\<not> localCount v \<le> ucast idx"
    using idx(3,4) n(2,3) by (simp_all add: word_less_nat_alt word_le_nat_alt unat_u32_u64)
  have run: "localType idx v = (case scanRuns 0 rem (take 2 ?runs) of
      Inr (_, t) \<Rightarrow> (Some t, v)
    | Inl rem \<Rightarrow>
        if localLookupWork v \<ge> 2 * of_nat (length ?runs) then
          (let v' = indexLocalRuns v in (LocalTypeIndexed ?params ?runs (localRunEnds v') idx, v'))
        else case scanRuns 0 rem (drop 2 ?runs) of
          Inr (i, t) \<Rightarrow> (Some t, v\<lparr>localLookupWork := localLookupWork v + of_nat (i + 1)\<rparr>)
        | Inl _ \<Rightarrow> (None, v))"
    unfolding localType_def Let_def rem_def using idx(1,2) skip by (simp only: if_False not_not simp_thms)
  show ?thesis
  proof (cases "scanRuns 0 rem (take 2 ?runs)")
    case (Inr x)
    then have "at (expand_runs (take 2 ?runs)) (unat rem) = Some (snd x)"
      using scanRuns_at [where i = 0 and rem = rem and runs = "take 2 ?runs"] by (cases x) simp
    then have "?spec = Some (snd x)" unfolding spec by (rule at_take)
    then have "looks_up idx v (Some (snd x), v)" using ok looks_up_same by blast
    then show ?thesis unfolding run Inr by (simp add: case_prod_beta)
  next
    case (Inl r)
    have spec': "?spec = at (expand_runs (drop 2 ?runs)) (unat r)" using spec scanRuns_split [OF Inl] by simp
    note at_r = scanRuns_at [where i = 0 and rem = r and runs = "drop 2 ?runs"]
    show ?thesis
    proof (cases "localLookupWork v \<ge> 2 * of_nat (length ?runs)")
      case True
      have v': "indexLocalRuns v = v\<lparr>localRunEnds := runEndsFrom (of_nat (length ?params)) ?runs\<rparr>" using idx(1) by (simp add: indexLocalRuns_def)
      have "LocalTypeIndexed ?params ?runs (localRunEnds (indexLocalRuns v)) idx = ?spec"
        unfolding v' using LocalTypeIndexed_at [OF n(1) refl] by simp
      moreover have "lookup_ok (indexLocalRuns v)" "same_locals v (indexLocalRuns v)"
        unfolding v' using ok by (simp_all add: lookup_ok_def same_locals_def)
      ultimately have "looks_up idx v (LocalTypeIndexed ?params ?runs (localRunEnds (indexLocalRuns v)) idx, indexLocalRuns v)"
        by (simp add: looks_up_def)
      then show ?thesis unfolding run Inl using True by (simp add: Let_def)
    next
      case False
      show ?thesis
      proof (cases "scanRuns 0 r (drop 2 ?runs)")
        case (Inr x)
        then have "?spec = Some (snd x)" using at_r spec' by (cases x) simp
        then have "looks_up idx v (Some (snd x), v\<lparr>localLookupWork := localLookupWork v + of_nat (fst x + 1)\<rparr>)"
          using ok by (simp add: looks_up_def lookup_ok_def same_locals_def)
        then show ?thesis unfolding run Inl using False Inr by (simp add: case_prod_beta)
      next
        case (Inl q)
        then have "?spec = None" using at_r spec' by (simp add: at_def)
        then have "looks_up idx v (None, v)" using ok looks_up_same by blast
        then show ?thesis unfolding run using \<open>scanRuns 0 rem (take 2 ?runs) = Inl r\<close> False Inl by simp
      qed
    qed
  qed
qed

lemma localType_looks_up:
  assumes ok: "lookup_ok v"
  shows "looks_up idx v (localType idx v)"
proof -
  let ?params = "localParams v" and ?runs = "localRunList v"
  note n = lookup_bounds [OF ok]
  consider "length ?runs \<le> 2" | "\<not> length ?runs \<le> 2" "localRunEnds v \<noteq> []"
    | "\<not> length ?runs \<le> 2" "localRunEnds v = []" "unat idx < length ?params"
    | "\<not> length ?runs \<le> 2" "localRunEnds v = []" "length ?params + local_total ?runs \<le> unat idx"
    | "\<not> length ?runs \<le> 2" "localRunEnds v = []" "length ?params \<le> unat idx" "unat idx < length ?params + local_total ?runs"
    by linarith
  then show ?thesis
  proof cases
    case 1
    then show ?thesis using LocalType_at [OF n(1)] looks_up_same [OF ok] by (simp add: localType_def)
  next
    case 2
    then have "localRunEnds v = runEndsFrom (of_nat (length ?params)) ?runs" using ok by (simp add: lookup_ok_def Let_def)
    then show ?thesis using 2 LocalTypeIndexed_at [OF n(1)] looks_up_same [OF ok] by (simp add: localType_def)
  next
    case 3
    then have "localType idx v = (Some (?params ! unat idx), v)" using n(2) by (simp add: localType_def word_less_nat_alt unat_u32_u64)
    moreover have "at (declared_locals ?params ?runs) (unat idx) = Some (?params ! unat idx)" using 3 by (simp add: declared_locals_def at_append)
    ultimately show ?thesis using looks_up_same [OF ok] by metis
  next
    case 4
    then have "localType idx v = (None, v)" using n(2,3) by (simp add: localType_def word_less_nat_alt word_le_nat_alt unat_u32_u64)
    moreover have "at (declared_locals ?params ?runs) (unat idx) = None" using 4 by (simp add: declared_locals_def at_def)
    ultimately show ?thesis using looks_up_same [OF ok] by metis
  next
    case 5
    then show ?thesis using scan_looks_up [OF ok] by blast
  qed
qed

fun localTypes :: "u32 list \<Rightarrow> 'a localLookup_scheme \<Rightarrow> ValType option list \<times> 'a localLookup_scheme" where
  "localTypes [] v = ([], v)"
| "localTypes (idx # is) v = (let (t, v') = localType idx v; (ts, v'') = localTypes is v' in (t # ts, v''))"

lemma localTypes_at:
  "lookup_ok v \<Longrightarrow> fst (localTypes is v) = map (\<lambda>i. at (declared_locals (localParams v) (localRunList v)) (unat i)) is"
proof (induction "is" arbitrary: v)
  case (Cons i "is")
  obtain t v' where r: "localType i v = (t, v')" by force
  then have "t = at (declared_locals (localParams v) (localRunList v)) (unat i)" "lookup_ok v'" "same_locals v v'"
    using localType_looks_up [OF Cons.prems, of i] by (simp_all add: looks_up_def)
  then show ?case using Cons.IH [of v'] r by (simp add: same_locals_def case_prod_beta)
qed simp

text \<open>
  C11. The count of a function's locals is exact, or reported as an overflow when it does not fit 64 bits. After it, any
  sequence of lookups, through the scan or the index built on the way, returns for each index the type at that position
  of the parameters followed by the expanded runs.
\<close>

theorem localType_expands:
  assumes "length (localParams v) < 2 ^ 63"
  shows "(let n = length (localParams v) + local_total (localRunList v)
      in LocalCount (localParams v) (localRunList v) = (if n < 2 ^ 64 then (of_nat n, False) else (0, True))) \<and>
    (LocalCount (localParams v) (localRunList v) = (localCount v, False) \<longrightarrow>
      fst (localTypes is (prepareLocalLookup v)) = map (\<lambda>i. at (localParams v @ expand_runs (localRunList v)) (unat i)) is)"
proof -
  let ?n = "length (localParams v) + local_total (localRunList v)"
  have p: "unat (of_nat (length (localParams v)) :: u64) = length (localParams v)" using assms by (intro unat_of_nat_small) simp
  have c: "LocalCount (localParams v) (localRunList v) = (if ?n < 2 ^ 64 then (of_nat ?n, False) else (0, True))"
    by (simp add: LocalCount_def countRuns_exact p)
  have "fst (localTypes is (prepareLocalLookup v)) = map (\<lambda>i. at (localParams v @ expand_runs (localRunList v)) (unat i)) is"
    if "LocalCount (localParams v) (localRunList v) = (localCount v, False)"
  proof -
    have "lookup_ok (prepareLocalLookup v)" using that c by (auto simp: lookup_ok_def prepareLocalLookup_def Let_def split: if_splits)
    then show ?thesis using localTypes_at [of "prepareLocalLookup v" "is"] by (simp add: prepareLocalLookup_def declared_locals_def)
  qed
  then show ?thesis using c unfolding Let_def by blast
qed

theorem localType_expands_witness:
  "fst (localTypes [0, 3, 5, 9] (prepareLocalLookup \<lparr>localParams = [I32],
      localRunList = [\<lparr>lr_Count = 1, lr_Type = I64\<rparr>, \<lparr>lr_Count = 2, lr_Type = F32\<rparr>, \<lparr>lr_Count = 2, lr_Type = F64\<rparr>],
      localRunEnds = [7], localLookupWork = 3, localCount = 6\<rparr>)) = [Some I32, Some F32, Some F64, None]"
proof -
  let ?v = "\<lparr>localParams = [I32],
      localRunList = [\<lparr>lr_Count = 1, lr_Type = I64\<rparr>, \<lparr>lr_Count = 2, lr_Type = F32\<rparr>, \<lparr>lr_Count = 2, lr_Type = F64\<rparr>],
      localRunEnds = [7], localLookupWork = 3, localCount = 6\<rparr>"
  have spec: "map (\<lambda>i :: u32. at (localParams ?v @ expand_runs (localRunList ?v)) (unat i)) [0, 3, 5, 9] = [Some I32, Some F32, Some F64, None]"
    by code_simp
  have "LocalCount (localParams ?v) (localRunList ?v) = (localCount ?v, False)" by (simp add: LocalCount_def countRuns_exact)
  then have "fst (localTypes [0, 3, 5, 9] (prepareLocalLookup ?v)) =
      map (\<lambda>i :: u32. at (localParams ?v @ expand_runs (localRunList ?v)) (unat i)) [0, 3, 5, 9]"
    using localType_expands [of ?v "[0, 3, 5, 9]"] by simp
  then show ?thesis unfolding spec .
qed

end
