(* ===== verification/BodyState.thy ===== *)
theory BodyState
  imports Locals Subtyping
begin

unbundle bit_operations_syntax

text \<open>
  The state of function-body validation (\<^verbatim>\<open>validate.go\<close>): what the module validator answers about
  index spaces and types, and the operand stack, control stack and initialization log of
  \<^verbatim>\<open>funcValidator\<close>. A step is a function from the state to an error or a result with the new state;
  \<open>Panic\<close> is an out-of-range slice access of the Go code. The contract \<open>framed\<close> says that a step keeps the
  stack discipline, leaves everything below the current control frame alone and never panics. It is closed
  under sequencing and choice, so that the instructions inherit it from the stack operations.
\<close>

section \<open>Questions to the module validator\<close>

record ValidationFeatures =
  CompactImports :: bool
  MultiMemory :: bool
  ExtendedConstGlobals :: bool
  GCConstExpr :: bool

text \<open>Of an element segment, the body check reads its kind and reference type.\<close>

record directElem =
  de_kind :: ElemKindKind
  de_ref :: RefType

record moduleValidator =
  mv_m :: Module
  mv_direct :: "directElem list option"
  mv_features :: ValidationFeatures
  mv_MaxFunctionLocals :: u32
  mv_declaredFuncBits :: "u64 list"
  mv_ancestry :: ancestry

definition importsOfKind :: "Module \<Rightarrow> ExternKind \<Rightarrow> u32 list" where
  "importsOfKind m kind = map of_nat (filter (\<lambda>i. et_Kind (im_Type (m_Imports m ! i)) = kind) [0..<length (m_Imports m)])"

text \<open>An index below the number of imports of a kind names an import, any other one a local definition.\<close>

definition importOrLocal :: "Module \<Rightarrow> ExternKind \<Rightarrow> (ExternType \<Rightarrow> 'a) \<Rightarrow> ('b \<Rightarrow> 'a) \<Rightarrow> 'b list \<Rightarrow> u32 \<Rightarrow> 'a option" where
  "importOrLocal m kind imported own locals idx =
     (let indexes = importsOfKind m kind; n = of_nat (length indexes)
      in if idx < n then Some (imported (im_Type (m_Imports m ! unat (indexes ! unat idx))))
         else if unat (idx - n) \<ge> length locals then None
         else Some (own (locals ! unat (idx - n))))"

definition v_funcType :: "Module \<Rightarrow> u32 \<Rightarrow> CompType option" where
  "v_funcType m idx =
     Option.bind (importOrLocal m ExternFunc ExternType_FuncType (\<lambda>t. t) (m_FuncTypes m) idx) (funcTypeFromTypeIdx m)"

definition globalProperties :: "Module \<Rightarrow> u32 \<Rightarrow> (ValType \<times> bool) option" where
  "globalProperties m idx =
     importOrLocal m ExternGlobal (\<lambda>et. (et_value et, et_flags et AND externTypeMutable \<noteq> 0))
       (\<lambda>g. (gt_Type (gl_Type g), gt_Mutable (gl_Type g))) (m_Globals m) idx"

definition v_tableType :: "Module \<Rightarrow> u32 \<Rightarrow> TableType option" where
  "v_tableType m idx = importOrLocal m ExternTable ExternType_TableType tb_Type (m_Tables m) idx"

definition memoryProperties :: "Module \<Rightarrow> u32 \<Rightarrow> byte option" where
  "memoryProperties m idx =
     importOrLocal m ExternMem et_flags
       (\<lambda>mt. (if lim_Addr64 (mt_Limits mt) then externTypeAddr64 else 0) OR (if mt_Shared mt then externTypeShared else 0))
       (m_Memories m) idx"

definition tagFuncType :: "Module \<Rightarrow> u32 \<Rightarrow> CompType option" where
  "tagFuncType m idx =
     Option.bind (importOrLocal m ExternTag (\<lambda>et. tag_Type (ExternType_TagType et)) tag_Type (m_Tags m) idx) (funcTypeFromTypeIdx m)"

definition isDeclaredFunc :: "moduleValidator \<Rightarrow> u32 \<Rightarrow> bool" where
  "isDeclaredFunc mv idx =
     (let word = unat (idx div 64)
      in word < length (mv_declaredFuncBits mv) \<and> (mv_declaredFuncBits mv ! word) AND push_bit (unat (idx mod 64)) 1 \<noteq> 0)"

definition subtypeByTypeIdxInRecGroup :: "Module \<Rightarrow> TypeIdx \<Rightarrow> int \<Rightarrow> SubType option" where
  "subtypeByTypeIdxInRecGroup m idx recGroup =
     (if \<not> ti_Rec idx then
        (if recGroup \<ge> 0 \<and>
            (recGroup \<ge> int (length (m_Types m)) \<or> unat (ti_Index idx) \<ge> dir_bases (ensureTypeIndex m) ! nat recGroup)
         then None
         else map_option fst (v_subtypeByTypeIdxWithRecGroup m idx))
      else if recGroup < 0 \<or> recGroup \<ge> int (length (m_Types m)) \<or> ti_Index idx \<ge> of_nat (length (SubTypes (m_Types m ! nat recGroup)))
      then None
      else Some (SubTypes (m_Types m ! nat recGroup) ! unat (ti_Index idx)))"

definition validTypeIdxInRecGroup :: "Module \<Rightarrow> TypeIdx \<Rightarrow> int \<Rightarrow> bool" where
  "validTypeIdxInRecGroup m idx recGroup = (subtypeByTypeIdxInRecGroup m idx recGroup \<noteq> None)"

definition validateHeapTypeInRecGroup :: "Module \<Rightarrow> HeapType \<Rightarrow> int \<Rightarrow> unit validated" where
  "validateHeapTypeInRecGroup m ht recGroup =
     (case HeapType_Kind ht of
        HeapAbs \<Rightarrow>
          if HeapType_Abs ht \<in> set [HeapString, HeapExn, HeapArray, HeapStruct, HeapI31, HeapEq, HeapAny,
               HeapExtern, HeapFunc, HeapNone, HeapNoExtern, HeapNoFunc, HeapNoExn]
          then Inr () else Inl ErrUnknownType
      | HeapTypeIndex \<Rightarrow> if \<not> validTypeIdxInRecGroup m (HeapType_Type ht) recGroup then Inl ErrUnknownType else Inr ()
      | HeapDefType \<Rightarrow> (case HeapType_Def ht of (_, _, _, valid) \<Rightarrow> if \<not> valid then Inl ErrUnknownType else Inr ())
      | heapBottom \<Rightarrow> Inl ErrUnknownType)"

definition validateRefTypeInRecGroup :: "Module \<Rightarrow> RefType \<Rightarrow> int \<Rightarrow> unit validated" where
  "validateRefTypeInRecGroup m rt recGroup = validateHeapTypeInRecGroup m (RefType_Heap rt) recGroup"

definition validateRefType :: "Module \<Rightarrow> RefType \<Rightarrow> unit validated" where
  "validateRefType m rt = validateRefTypeInRecGroup m rt (-1)"

definition validateValTypeInRecGroup :: "Module \<Rightarrow> ValType \<Rightarrow> int \<Rightarrow> unit validated" where
  "validateValTypeInRecGroup m t recGroup =
     (case ValType_Kind t of
        ValNum \<Rightarrow> if t = I32 \<or> t = I64 \<or> t = F32 \<or> t = F64 then Inr () else Inl ErrUnknownType
      | ValVec \<Rightarrow> if t = V128 then Inr () else Inl ErrUnknownType
      | ValRef \<Rightarrow> validateRefTypeInRecGroup m (ValType_Ref t) recGroup
      | _ \<Rightarrow> Inl ErrUnknownType)"

definition validateValType :: "Module \<Rightarrow> ValType \<Rightarrow> unit validated" where
  "validateValType m t = validateValTypeInRecGroup m t (-1)"

section \<open>The function validator\<close>

datatype ctrlKind = ctrlFunc | ctrlBlock | ctrlLoop | ctrlIf | ctrlTry

record ctrlFrame =
  cf_in :: "ValType list"
  cf_out :: "ValType list"
  cf_height :: nat
  cf_initHeight :: nat
  cf_ifThenHeight :: nat
  cf_branchTableEpoch :: u32
  cf_kind :: ctrlKind
  cf_unreachable :: bool
  cf_ifSeenElse :: bool

record funcValidator = localLookup +
  vals :: "ValType list"
  ctrls :: "ctrlFrame list"
  initializedLocals :: "u32 set"
  localInitLog :: "u32 list"
  constGlobalLimit :: nat
  branchTableEpoch :: u32
  constOnly :: bool

datatype bodyError = Invalid ValidationErrorCode | Malformed decode_error | Panic

type_synonym 'a vm = "funcValidator \<Rightarrow> bodyError + 'a \<times> funcValidator"

definition returnV :: "'a \<Rightarrow> 'a vm" where "returnV x v = Inr (x, v)"

definition failV :: "ValidationErrorCode \<Rightarrow> 'a vm" where "failV c v = Inl (Invalid c)"

definition bindV :: "'a vm \<Rightarrow> ('a \<Rightarrow> 'b vm) \<Rightarrow> 'b vm" where
  "bindV f k v = (case f v of Inl e \<Rightarrow> Inl e | Inr (x, v') \<Rightarrow> k x v')"

definition checkV :: "'a validated \<Rightarrow> 'a vm" where
  "checkV r v = (case r of Inl c \<Rightarrow> Inl (Invalid c) | Inr x \<Rightarrow> Inr (x, v))"

definition orFail :: "'a option \<Rightarrow> ValidationErrorCode \<Rightarrow> 'a vm" where
  "orFail x c = (case x of None \<Rightarrow> failV c | Some y \<Rightarrow> returnV y)"

definition rejectV :: "bool \<Rightarrow> ValidationErrorCode \<Rightarrow> unit vm" where
  "rejectV b c = (if b then failV c else returnV ())"

text \<open>Actions in order, up to the first error.\<close>

primrec runV :: "unit vm list \<Rightarrow> unit vm" where
  "runV [] = returnV ()"
| "runV (f # fs) = bindV f (\<lambda>_. runV fs)"

section \<open>Operand and control stack\<close>

definition unknownValidationBit :: u64 where "unknownValidationBit = push_bit 63 1"

definition unknown :: "ValType \<Rightarrow> bool" where "unknown x = (lo x AND unknownValidationBit \<noteq> 0)"

definition nonNullValidationType :: "ValType \<Rightarrow> ValType" where
  "nonNullValidationType x =
     (if unknown x then RefVal (Ref False \<lparr>lo = heap_kind_code heapBottom, hi = 0\<rparr> False)
      else RefVal (WithNullable False (ValType_Ref x)))"

definition fv_subtype :: "moduleValidator \<Rightarrow> ValType \<Rightarrow> ValType \<Rightarrow> bool" where
  "fv_subtype mv a b = v_subtype (mv_m mv) (mv_ancestry mv) a b"

definition fv_refSubtype :: "moduleValidator \<Rightarrow> RefType \<Rightarrow> RefType \<Rightarrow> bool" where
  "fv_refSubtype mv a b = refSubtype (mv_m mv) (mv_ancestry mv) a b"

definition topFrame :: "ctrlFrame vm" where
  "topFrame v = (if ctrls v = [] then Inl Panic else Inr (last (ctrls v), v))"

definition push :: "ValType \<Rightarrow> unit vm" where "push t v = Inr ((), v\<lparr>vals := vals v @ [t]\<rparr>)"

definition pushAll :: "ValType list \<Rightarrow> unit vm" where "pushAll ts = runV (map push ts)"

definition pop :: "ValType vm" where
  "pop = bindV topFrame (\<lambda>f v.
     if length (vals v) = cf_height f then
       (if cf_unreachable f then Inr (\<lparr>lo = unknownValidationBit, hi = 0\<rparr>, v) else Inl (Invalid ErrTypeMismatch))
     else if vals v = [] then Inl Panic
     else Inr (last (vals v), v\<lparr>vals := butlast (vals v)\<rparr>))"

definition popExpect :: "moduleValidator \<Rightarrow> ValType \<Rightarrow> unit vm" where
  "popExpect mv t = bindV pop (\<lambda>x. rejectV (\<not> unknown x \<and> \<not> fv_subtype mv x t) ErrTypeMismatch)"

definition popAll :: "moduleValidator \<Rightarrow> ValType list \<Rightarrow> unit vm" where
  "popAll mv ts = runV (map (popExpect mv) (rev ts))"

definition newFrame :: "ctrlKind \<Rightarrow> ValType list \<Rightarrow> ValType list \<Rightarrow> funcValidator \<Rightarrow> ctrlFrame" where
  "newFrame k ins outs v =
     \<lparr>cf_in = ins, cf_out = outs, cf_height = length (vals v), cf_initHeight = length (localInitLog v), cf_ifThenHeight = 0,
      cf_branchTableEpoch = 0, cf_kind = k, cf_unreachable = False, cf_ifSeenElse = False\<rparr>"

definition pushCtrl :: "moduleValidator \<Rightarrow> ctrlKind \<Rightarrow> ValType list \<Rightarrow> ValType list \<Rightarrow> unit vm" where
  "pushCtrl mv k ins outs =
     runV [popAll mv ins, \<lambda>v. Inr ((), v\<lparr>ctrls := ctrls v @ [newFrame k ins outs v]\<rparr>), pushAll ins]"

text \<open>Cutting the operands at a height above their number is taken for a panic: the slice would reach beyond the stack.\<close>

definition setUnreachable :: "unit vm" where
  "setUnreachable = bindV topFrame (\<lambda>f v.
     if cf_height f > length (vals v) then Inl Panic
     else Inr ((), v\<lparr>vals := take (cf_height f) (vals v), ctrls := butlast (ctrls v) @ [f\<lparr>cf_unreachable := True\<rparr>]\<rparr>))"

text \<open>The position \<open>len(v.ctrls)-1-int(depth)\<close> of a frame; a negative one is an index out of range.\<close>

definition frameIndex :: "u32 \<Rightarrow> nat vm" where
  "frameIndex depth v =
     (let i = int (length (ctrls v)) - 1 - int (unat depth) in if i < 0 then Inl Panic else Inr (nat i, v))"

definition label :: "u32 \<Rightarrow> (ValType list) vm" where
  "label depth v =
     (if unat depth \<ge> length (ctrls v) then Inl (Invalid ErrUnknownLabel)
      else bindV (frameIndex depth) (\<lambda>i v.
        let f = ctrls v ! i in Inr (if cf_kind f = ctrlLoop then cf_in f else cf_out f, v)) v)"

section \<open>Initialization of locals\<close>

definition defaultable :: "u32 \<Rightarrow> ValType \<Rightarrow> funcValidator \<Rightarrow> bool" where
  "defaultable idx t v \<longleftrightarrow> unat idx < length (localParams v) \<or> ValType_Kind t \<noteq> ValRef \<or> Nullable (ValType_Ref t)"

definition localIsInitialized :: "u32 \<Rightarrow> ValType \<Rightarrow> funcValidator \<Rightarrow> bool" where
  "localIsInitialized idx t v \<longleftrightarrow> defaultable idx t v \<or> idx \<in> initializedLocals v"

definition initializeLocal :: "u32 \<Rightarrow> ValType \<Rightarrow> unit vm" where
  "initializeLocal idx t v =
     Inr ((), if defaultable idx t v \<or> idx \<in> initializedLocals v then v
       else v\<lparr>initializedLocals := insert idx (initializedLocals v), localInitLog := localInitLog v @ [idx]\<rparr>)"

definition restoreLocalInitialization :: "nat \<Rightarrow> funcValidator \<Rightarrow> funcValidator" where
  "restoreLocalInitialization height v =
     v\<lparr>initializedLocals := initializedLocals v - set (drop height (localInitLog v)), localInitLog := take height (localInitLog v)\<rparr>"

definition popCtrl :: "moduleValidator \<Rightarrow> ctrlFrame vm" where
  "popCtrl mv v =
     (if ctrls v = [] then Inl (Invalid ErrTypeMismatch)
      else let f = last (ctrls v)
           in bindV (popAll mv (cf_out f)) (\<lambda>_ v'.
                if length (vals v') \<noteq> cf_height f then Inl (Invalid ErrTypeMismatch)
                else bindV (pushAll (cf_out f)) (\<lambda>_. returnV f)
                  ((restoreLocalInitialization (cf_initHeight f) v')\<lparr>ctrls := butlast (ctrls v')\<rparr>)) v)"

section \<open>The stack discipline\<close>

text \<open>
  Heights and watermarks grow along the control stack, and the log lists the initialized locals once each.
\<close>

definition stack_ok :: "funcValidator \<Rightarrow> bool" where
  "stack_ok v \<longleftrightarrow> lookup_ok v \<and>
     sorted (map cf_height (ctrls v) @ [length (vals v)]) \<and>
     sorted (map cf_initHeight (ctrls v) @ [length (localInitLog v)]) \<and>
     distinct (localInitLog v) \<and> set (localInitLog v) = initializedLocals v"

text \<open>A frame without its stamp.\<close>

definition frame_core :: "ctrlFrame \<Rightarrow> ctrlFrame" where
  "frame_core f = f\<lparr>cf_branchTableEpoch := 0\<rparr>"

definition same_setting :: "funcValidator \<Rightarrow> funcValidator \<Rightarrow> bool" where
  "same_setting v v' \<longleftrightarrow> localParams v' = localParams v \<and> localRunList v' = localRunList v \<and> localCount v' = localCount v \<and>
     constOnly v' = constOnly v \<and> constGlobalLimit v' = constGlobalLimit v"

text \<open>What a step inside the current frame leaves alone.\<close>

definition kept :: "funcValidator \<Rightarrow> funcValidator \<Rightarrow> bool" where
  "kept v v' \<longleftrightarrow> same_setting v v' \<and>
     (let fs = map frame_core (ctrls v); fs' = map frame_core (ctrls v')
      in fs' \<noteq> [] \<and> fs \<noteq> [] \<and> butlast fs' = butlast fs \<and> (last fs' = last fs \<or> last fs' = (last fs)\<lparr>cf_unreachable := True\<rparr>)) \<and>
     take (cf_height (last (ctrls v))) (vals v') = take (cf_height (last (ctrls v))) (vals v) \<and>
     (\<exists>zs. localInitLog v' = localInitLog v @ zs)"

definition framed :: "'a vm \<Rightarrow> bool" where
  "framed f \<longleftrightarrow> (\<forall>v. stack_ok v \<and> ctrls v \<noteq> [] \<longrightarrow>
     (case f v of Inl e \<Rightarrow> e \<noteq> Panic | Inr (x, v') \<Rightarrow> stack_ok v' \<and> kept v v'))"

lemma framedI:
  assumes "\<And>v e. stack_ok v \<Longrightarrow> ctrls v \<noteq> [] \<Longrightarrow> f v = Inl e \<Longrightarrow> e \<noteq> Panic"
    and "\<And>v x v'. stack_ok v \<Longrightarrow> ctrls v \<noteq> [] \<Longrightarrow> f v = Inr (x, v') \<Longrightarrow> stack_ok v' \<and> kept v v'"
  shows "framed f"
  unfolding framed_def using assms by (auto split: sum.split)

lemma framed_error: "framed f \<Longrightarrow> stack_ok v \<Longrightarrow> ctrls v \<noteq> [] \<Longrightarrow> f v = Inl e \<Longrightarrow> e \<noteq> Panic"
  unfolding framed_def by (drule spec [of _ v]) simp

lemma framed_result: "framed f \<Longrightarrow> stack_ok v \<Longrightarrow> ctrls v \<noteq> [] \<Longrightarrow> f v = Inr (x, v') \<Longrightarrow> stack_ok v' \<and> kept v v'"
  unfolding framed_def by (drule spec [of _ v]) simp

named_theorems frame_rules \<open>steps that keep the stack discipline\<close>

lemma kept_refl: "ctrls v \<noteq> [] \<Longrightarrow> kept v v"
  by (simp add: kept_def same_setting_def Let_def)

lemma last_map_core: "ctrls v \<noteq> [] \<Longrightarrow> last (map frame_core (ctrls v)) = frame_core (last (ctrls v))"
  by (simp add: last_map)

lemma core_height: "cf_height (frame_core f) = cf_height f" "cf_initHeight (frame_core f) = cf_initHeight f"
  "cf_unreachable (frame_core f) = cf_unreachable f"
  by (simp_all add: frame_core_def)

lemma kept_height: "kept v v' \<Longrightarrow> ctrls v' \<noteq> [] \<and> cf_height (last (ctrls v')) = cf_height (last (ctrls v))"
proof -
  assume k: "kept v v'"
  then have "ctrls v \<noteq> []" "ctrls v' \<noteq> []"
    "last (map frame_core (ctrls v')) = last (map frame_core (ctrls v)) \<or>
     last (map frame_core (ctrls v')) = (last (map frame_core (ctrls v)))\<lparr>cf_unreachable := True\<rparr>"
    by (auto simp: kept_def Let_def)
  then have "cf_height (frame_core (last (ctrls v'))) = cf_height (frame_core (last (ctrls v)))"
    unfolding last_map_core [symmetric] by (auto simp: last_map)
  then show ?thesis using \<open>ctrls v' \<noteq> []\<close> by (simp add: core_height)
qed

lemma kept_trans:
  assumes "kept v v'" "kept v' v''"
  shows "kept v v''"
proof -
  have h: "cf_height (last (ctrls v')) = cf_height (last (ctrls v))" using kept_height assms(1) by blast
  have frames: "let fs = map frame_core (ctrls v); fs' = map frame_core (ctrls v'')
      in fs' \<noteq> [] \<and> fs \<noteq> [] \<and> butlast fs' = butlast fs \<and> (last fs' = last fs \<or> last fs' = (last fs)\<lparr>cf_unreachable := True\<rparr>)"
    using assms unfolding kept_def Let_def by (elim conjE disjE) simp_all
  have "\<exists>zs. localInitLog v'' = localInitLog v @ zs" using assms unfolding kept_def by (elim conjE exE) simp
  then show ?thesis using assms frames h unfolding kept_def same_setting_def by simp
qed

lemma framed_return [frame_rules]: "framed (returnV x)"
  by (rule framedI) (auto simp: returnV_def kept_refl)

lemma framed_fail [frame_rules]: "framed (failV c)"
  by (rule framedI) (auto simp: failV_def)

lemma framed_bind [frame_rules]:
  assumes "framed f" "\<And>x. framed (k x)"
  shows "framed (bindV f k)"
proof (rule framedI)
  fix v e assume v: "stack_ok v" "ctrls v \<noteq> []" "bindV f k v = Inl e"
  show "e \<noteq> Panic"
  proof (cases "f v")
    case (Inl e')
    then show ?thesis using v framed_error [OF assms(1)] by (simp add: bindV_def)
  next
    case (Inr r)
    then obtain x v' where r: "f v = Inr (x, v')" by (cases r) auto
    then have "stack_ok v'" "ctrls v' \<noteq> []" using v framed_result [OF assms(1)] kept_height by blast+
    moreover have "k x v' = Inl e" using v(3) r by (simp add: bindV_def)
    ultimately show ?thesis by (rule framed_error [OF assms(2)])
  qed
next
  fix v y v'' assume v: "stack_ok v" "ctrls v \<noteq> []" "bindV f k v = Inr (y, v'')"
  then obtain x v' where "f v = Inr (x, v')" "k x v' = Inr (y, v'')" by (auto simp: bindV_def split: sum.splits prod.splits)
  then show "stack_ok v'' \<and> kept v v''"
    using v framed_result [OF assms(1)] framed_result [OF assms(2)] kept_height [of v v'] kept_trans by blast
qed

lemma framed_run [frame_rules]: "(\<And>f. f \<in> set fs \<Longrightarrow> framed f) \<Longrightarrow> framed (runV fs)"
  by (induction fs) (simp_all add: framed_return framed_bind)

lemma framed_check [frame_rules]: "framed (checkV r)"
  by (rule framedI) (auto simp: checkV_def kept_refl split: sum.splits)

lemma framed_orFail [frame_rules]: "framed (orFail x c)"
  by (auto simp: orFail_def intro: frame_rules split: option.split)

lemma framed_reject [frame_rules]: "framed (rejectV b c)"
  by (auto simp: rejectV_def intro: frame_rules)

lemma framed_if [frame_rules]: "framed f \<Longrightarrow> framed g \<Longrightarrow> framed (if b then f else g)"
  by simp

lemma framed_top [frame_rules]: "framed topFrame"
  by (rule framedI) (auto simp: topFrame_def kept_refl split: if_splits)

lemma stack_ok_height: "stack_ok v \<Longrightarrow> f \<in> set (ctrls v) \<Longrightarrow> cf_height f \<le> length (vals v)"
  by (auto simp: stack_ok_def sorted_append)

lemma stack_ok_vals:
  assumes "stack_ok v" "ctrls v \<noteq> []" "cf_height (last (ctrls v)) \<le> length xs"
  shows "stack_ok (v\<lparr>vals := xs\<rparr>)"
proof -
  obtain fs f where fs: "ctrls v = fs @ [f]" using assms(2) by (metis rev_exhaust)
  have "\<forall>g \<in> set fs. cf_height g \<le> length xs" using assms(1,3) by (auto simp: stack_ok_def sorted_append fs)
  then show ?thesis using assms by (auto simp: stack_ok_def sorted_append lookup_ok_def fs)
qed

lemma kept_vals:
  assumes "ctrls v \<noteq> []" "take (cf_height (last (ctrls v))) xs = take (cf_height (last (ctrls v))) (vals v)"
  shows "kept v (v\<lparr>vals := xs\<rparr>)"
  using assms by (simp add: kept_def same_setting_def Let_def)

lemma framed_push [frame_rules]: "framed (push t)"
proof (rule framedI)
  fix v x v' assume v: "stack_ok v" "ctrls v \<noteq> []" "push t v = Inr (x, v')"
  have "cf_height (last (ctrls v)) \<le> length (vals v)" using v stack_ok_height by simp
  then show "stack_ok v' \<and> kept v v'" using v stack_ok_vals kept_vals by (auto simp: push_def)
qed (simp add: push_def)

lemma framed_pushAll [frame_rules]: "framed (pushAll ts)"
  by (auto simp: pushAll_def intro!: frame_rules)

lemma framed_pop [frame_rules]: "framed pop"
proof (rule framedI)
  fix v e assume v: "stack_ok v" "ctrls v \<noteq> []" "pop v = Inl e"
  have "cf_height (last (ctrls v)) \<le> length (vals v)" using v stack_ok_height by simp
  then show "e \<noteq> Panic" using v by (auto simp: pop_def bindV_def topFrame_def split: if_splits)
next
  fix v x v' assume v: "stack_ok v" "ctrls v \<noteq> []" "pop v = Inr (x, v')"
  let ?h = "cf_height (last (ctrls v))"
  have h: "?h \<le> length (vals v)" using v stack_ok_height by simp
  show "stack_ok v' \<and> kept v v'"
  proof (cases "length (vals v) = ?h")
    case True
    then show ?thesis using v kept_refl by (auto simp: pop_def bindV_def topFrame_def split: if_splits)
  next
    case False
    then have "v' = v\<lparr>vals := butlast (vals v)\<rparr>" using v by (auto simp: pop_def bindV_def topFrame_def split: if_splits)
    moreover have "take ?h (butlast (vals v)) = take ?h (vals v)" using h False by (simp add: take_butlast)
    ultimately show ?thesis using v stack_ok_vals kept_vals h False by simp
  qed
qed

lemma framed_popExpect [frame_rules]: "framed (popExpect mv t)"
  by (auto simp: popExpect_def intro!: frame_rules)

lemma framed_popAll [frame_rules]: "framed (popAll mv ts)"
  by (auto simp: popAll_def intro!: frame_rules)

lemma stack_ok_snoc:
  assumes "ctrls v = fs @ [f]"
  shows "stack_ok v \<longleftrightarrow> lookup_ok v \<and> sorted (map cf_height fs) \<and> sorted (map cf_initHeight fs) \<and>
    (\<forall>g \<in> set fs. cf_height g \<le> cf_height f \<and> cf_initHeight g \<le> cf_initHeight f) \<and>
    cf_height f \<le> length (vals v) \<and> cf_initHeight f \<le> length (localInitLog v) \<and>
    distinct (localInitLog v) \<and> set (localInitLog v) = initializedLocals v"
  unfolding stack_ok_def assms by (auto simp: sorted_append intro: order_trans)

lemma framed_unreachable [frame_rules]: "framed setUnreachable"
proof (rule framedI)
  fix v x v' assume v: "stack_ok v" "ctrls v \<noteq> []" "setUnreachable v = Inr (x, v')"
  obtain fs f where fs: "ctrls v = fs @ [f]" using v(2) by (metis rev_exhaust)
  then have v': "v' = v\<lparr>vals := take (cf_height f) (vals v), ctrls := fs @ [f\<lparr>cf_unreachable := True\<rparr>]\<rparr>"
    using v(3) by (simp add: setUnreachable_def bindV_def topFrame_def split: if_splits)
  have "stack_ok v'"
    using v(1) stack_ok_snoc [OF fs] stack_ok_snoc [of v' fs "f\<lparr>cf_unreachable := True\<rparr>"] by (simp add: v' lookup_ok_def min_def)
  moreover have "kept v v'" by (simp add: kept_def v' fs same_setting_def frame_core_def)
  ultimately show "stack_ok v' \<and> kept v v'" by blast
next
  fix v e assume v: "stack_ok v" "ctrls v \<noteq> []" "setUnreachable v = Inl e"
  have "cf_height (last (ctrls v)) \<le> length (vals v)" using v stack_ok_height by simp
  then show "e \<noteq> Panic" using v by (simp add: setUnreachable_def bindV_def topFrame_def)
qed

lemma frameIndex_inside: "unat d < length (ctrls v) \<Longrightarrow> frameIndex d v = Inr (length (ctrls v) - 1 - unat d, v)"
proof -
  assume d: "unat d < length (ctrls v)"
  then have "int (length (ctrls v)) - 1 - int (unat d) = int (length (ctrls v) - 1 - unat d)" by linarith
  then show ?thesis unfolding frameIndex_def by (simp only: Let_def nat_int) simp
qed

lemma label_cases:
  "label d v =
    (if unat d \<ge> length (ctrls v) then Inl (Invalid ErrUnknownLabel)
     else let f = ctrls v ! (length (ctrls v) - 1 - unat d) in Inr (if cf_kind f = ctrlLoop then cf_in f else cf_out f, v))"
  by (simp add: label_def frameIndex_inside bindV_def)

lemma framed_label [frame_rules]: "framed (label d)"
  by (rule framedI) (auto simp: label_cases kept_refl Let_def split: if_splits)

lemma framed_initializeLocal [frame_rules]: "framed (initializeLocal idx t)"
proof (rule framedI)
  fix v x v' assume v: "stack_ok v" "ctrls v \<noteq> []" "initializeLocal idx t v = Inr (x, v')"
  show "stack_ok v' \<and> kept v v'"
  proof (cases "defaultable idx t v \<or> idx \<in> initializedLocals v")
    case True
    then show ?thesis using v kept_refl by (auto simp: initializeLocal_def)
  next
    case False
    then have v': "v' = v\<lparr>initializedLocals := insert idx (initializedLocals v), localInitLog := localInitLog v @ [idx]\<rparr>"
      using v(3) by (simp add: initializeLocal_def)
    obtain fs f where fs: "ctrls v = fs @ [f]" using v(2) by (metis rev_exhaust)
    have "stack_ok v'" using v(1) False stack_ok_snoc [OF fs] stack_ok_snoc [of v' fs f] by (simp add: v' fs lookup_ok_def)
    moreover have "kept v v'" using v(2) by (simp add: kept_def v' same_setting_def Let_def)
    ultimately show ?thesis by blast
  qed
qed (simp add: initializeLocal_def)

definition lookupLocal :: "u32 \<Rightarrow> (ValType option) vm" where
  "lookupLocal idx v = Inr (localType idx v)"

lemma framed_lookupLocal [frame_rules]: "framed (lookupLocal idx)"
proof (rule framedI)
  fix v x v' assume v: "stack_ok v" "ctrls v \<noteq> []" "lookupLocal idx v = Inr (x, v')"
  then have r: "localType idx v = (x, v')" by (simp add: lookupLocal_def)
  have "lookup_ok v" using v(1) by (simp add: stack_ok_def)
  from localType_looks_up [OF this, of idx] have l: "lookup_ok v'" "same_locals v v'" unfolding r by (simp_all add: looks_up_def)
  then have more: "vals v' = vals v" "ctrls v' = ctrls v" "initializedLocals v' = initializedLocals v" "localInitLog v' = localInitLog v"
    "constGlobalLimit v' = constGlobalLimit v" "branchTableEpoch v' = branchTableEpoch v" "constOnly v' = constOnly v"
    by (cases v; cases v'; simp add: same_locals_def)+
  show "stack_ok v' \<and> kept v v'"
    using v(1,2) l by (auto simp: stack_ok_def kept_def same_setting_def more same_locals_def Let_def)
qed (simp add: lookupLocal_def)

section \<open>What the stack operations compute\<close>

definition accepts :: "moduleValidator \<Rightarrow> ValType \<Rightarrow> ValType \<Rightarrow> bool" where
  "accepts mv x t \<longleftrightarrow> unknown x \<or> fv_subtype mv x t"

text \<open>The operands above the current frame that \<open>n\<close> pops take.\<close>

definition taken :: "nat \<Rightarrow> funcValidator \<Rightarrow> nat" where
  "taken n v = min n (length (vals v) - cf_height (last (ctrls v)))"

definition poppable :: "moduleValidator \<Rightarrow> ValType list \<Rightarrow> funcValidator \<Rightarrow> bool" where
  "poppable mv ts v \<longleftrightarrow>
     (let k = taken (length ts) v
      in list_all2 (accepts mv) (drop (length (vals v) - k) (vals v)) (drop (length ts - k) ts) \<and>
         (k < length ts \<longrightarrow> cf_unreachable (last (ctrls v))))"

lemma popAll_snoc: "popAll mv (ts @ [t]) = bindV (popExpect mv t) (\<lambda>_. popAll mv ts)"
  by (simp add: popAll_def)

lemma unknown_marker: "unknown \<lparr>lo = unknownValidationBit, hi = 0\<rparr>"
  by (simp add: unknown_def unknownValidationBit_def)

lemma popExpect_cases:
  assumes "stack_ok v" "ctrls v \<noteq> []"
  shows "popExpect mv t v =
    (if length (vals v) = cf_height (last (ctrls v)) then
       (if cf_unreachable (last (ctrls v)) then Inr ((), v) else Inl (Invalid ErrTypeMismatch))
     else if accepts mv (last (vals v)) t then Inr ((), v\<lparr>vals := butlast (vals v)\<rparr>) else Inl (Invalid ErrTypeMismatch))"
proof -
  have "cf_height (last (ctrls v)) \<le> length (vals v)" using assms stack_ok_height by simp
  then show ?thesis using assms(2) unknown_marker
    by (auto simp: popExpect_def pop_def bindV_def topFrame_def rejectV_def returnV_def failV_def accepts_def)
qed

lemma popAll_decides:
  "stack_ok v \<Longrightarrow> ctrls v \<noteq> [] \<Longrightarrow>
    popAll mv ts v = (if poppable mv ts v then Inr ((), v\<lparr>vals := take (length (vals v) - taken (length ts) v) (vals v)\<rparr>)
      else Inl (Invalid ErrTypeMismatch))"
proof (induction ts arbitrary: v rule: rev_induct)
  case Nil
  then show ?case by (simp add: popAll_def poppable_def taken_def returnV_def)
next
  case (snoc t ts)
  let ?f = "last (ctrls v)"
  have h: "cf_height ?f \<le> length (vals v)" using snoc.prems stack_ok_height by simp
  show ?case
  proof (cases "length (vals v) = cf_height ?f")
    case True
    then have k: "taken n v = 0" for n by (simp add: taken_def)
    show ?thesis using snoc.IH [OF snoc.prems] True
      by (simp add: popAll_snoc bindV_def popExpect_cases [OF snoc.prems] poppable_def k)
  next
    case False
    then obtain xs x where xs: "vals v = xs @ [x]" using h by (metis append_Nil le_zero_eq length_0_conv list.size(3) rev_exhaust)
    let ?v = "v\<lparr>vals := xs\<rparr>"
    have lt: "cf_height ?f \<le> length xs" using h False xs by simp
    then have ok: "stack_ok ?v" using stack_ok_vals snoc.prems by blast
    have k: "taken (Suc n) v = Suc (taken n ?v)" for n using lt by (simp add: taken_def xs Suc_diff_le)
    have p: "poppable mv (ts @ [t]) v \<longleftrightarrow> accepts mv x t \<and> poppable mv ts ?v"
    proof -
      have le: "taken (length ts) ?v \<le> length ts" "taken (length ts) ?v \<le> length xs" by (simp_all add: taken_def)
      then have "list_all2 (accepts mv) (drop (length xs - taken (length ts) ?v) (xs @ [x])) (drop (length ts - taken (length ts) ?v) (ts @ [t])) \<longleftrightarrow>
          list_all2 (accepts mv) (drop (length xs - taken (length ts) ?v) xs) (drop (length ts - taken (length ts) ?v) ts) \<and> accepts mv x t"
        by (simp add: list_all2_append)
      then show ?thesis by (auto simp: poppable_def k xs Let_def)
    qed
    have "popExpect mv t v = (if accepts mv x t then Inr ((), ?v) else Inl (Invalid ErrTypeMismatch))"
      using False by (simp add: popExpect_cases [OF snoc.prems] xs)
    then show ?thesis using snoc.IH [OF ok] snoc.prems(2) p by (simp add: popAll_snoc bindV_def k xs)
  qed
qed

lemma pushAll_result: "pushAll ts v = Inr ((), v\<lparr>vals := vals v @ ts\<rparr>)"
proof (induction ts arbitrary: v)
  case (Cons t ts)
  then show ?case by (simp add: pushAll_def bindV_def push_def)
qed (simp add: pushAll_def returnV_def)

text \<open>Opening and closing a frame.\<close>

definition opened :: "ctrlKind \<Rightarrow> ValType list \<Rightarrow> ValType list \<Rightarrow> funcValidator \<Rightarrow> funcValidator" where
  "opened k ins outs v = v\<lparr>ctrls := ctrls v @ [newFrame k ins outs v], vals := vals v @ ins\<rparr>"

lemma pushCtrl_result:
  "pushCtrl mv k ins outs v = (case popAll mv ins v of Inl e \<Rightarrow> Inl e | Inr (_, v1) \<Rightarrow> Inr ((), opened k ins outs v1))"
  by (auto simp: pushCtrl_def bindV_def pushAll_result opened_def newFrame_def returnV_def split: sum.split)

lemma opened_ok:
  assumes "stack_ok v"
  shows "stack_ok (opened k ins outs v)"
  using assms by (auto simp: stack_ok_def opened_def newFrame_def sorted_append lookup_ok_def)

definition closed :: "ctrlFrame \<Rightarrow> funcValidator \<Rightarrow> funcValidator" where
  "closed f v = v\<lparr>vals := take (cf_height f) (vals v) @ cf_out f, ctrls := butlast (ctrls v),
     initializedLocals := set (take (cf_initHeight f) (localInitLog v)), localInitLog := take (cf_initHeight f) (localInitLog v)\<rparr>"

definition closable :: "moduleValidator \<Rightarrow> funcValidator \<Rightarrow> bool" where
  "closable mv v \<longleftrightarrow> (let f = last (ctrls v) in poppable mv (cf_out f) v \<and> length (vals v) \<le> cf_height f + length (cf_out f))"

lemma restore_result:
  assumes "stack_ok v"
  shows "restoreLocalInitialization h v = v\<lparr>initializedLocals := set (take h (localInitLog v)), localInitLog := take h (localInitLog v)\<rparr>"
proof -
  have "set (localInitLog v) = set (take h (localInitLog v)) \<union> set (drop h (localInitLog v))"
    by (metis append_take_drop_id set_append)
  moreover have "set (take h (localInitLog v)) \<inter> set (drop h (localInitLog v)) = {}"
    using assms by (simp add: stack_ok_def set_take_disj_set_drop_if_distinct)
  ultimately have "initializedLocals v - set (drop h (localInitLog v)) = set (take h (localInitLog v))"
    using assms by (auto simp: stack_ok_def)
  then show ?thesis by (simp add: restoreLocalInitialization_def)
qed

lemma popCtrl_result:
  assumes ok: "stack_ok v" "ctrls v \<noteq> []"
  shows "popCtrl mv v = (if closable mv v then Inr (last (ctrls v), closed (last (ctrls v)) v) else Inl (Invalid ErrTypeMismatch))"
proof -
  let ?f = "last (ctrls v)" and ?n = "taken (length (cf_out (last (ctrls v)))) v"
  have h: "cf_height ?f \<le> length (vals v)" using ok stack_ok_height by simp
  let ?v = "v\<lparr>vals := take (length (vals v) - ?n) (vals v)\<rparr>"
  have ok': "stack_ok ?v" using ok h by (intro stack_ok_vals) (auto simp: taken_def)
  have len: "length (vals ?v) = cf_height ?f \<longleftrightarrow> length (vals v) \<le> cf_height ?f + length (cf_out ?f)"
    using h by (auto simp: taken_def min_def)
  have "take (length (vals v) - ?n) (vals v) = take (cf_height ?f) (vals v)" if "length (vals ?v) = cf_height ?f"
    using that by simp
  then show ?thesis using ok(2) len
    by (auto simp: popCtrl_def Let_def bindV_def popAll_decides [OF ok] restore_result [OF ok'] pushAll_result returnV_def closable_def closed_def)
qed

lemma closed_ok:
  assumes "stack_ok v" "ctrls v \<noteq> []" "f = last (ctrls v)"
  shows "stack_ok (closed f v)"
proof -
  obtain fs g where fs: "ctrls v = fs @ [g]" using assms(2) by (metis rev_exhaust)
  note old = iffD1 [OF stack_ok_snoc [OF fs] assms(1)]
  show ?thesis using old assms(3)
    by (auto simp: stack_ok_def closed_def fs sorted_append lookup_ok_def intro: order_trans le_trans)
qed

end
