(* ===== verification/Effects.thy ===== *)
theory Effects
  imports Modules
begin

text \<open>
  The stack effects of instructions without control flow: the tables \<^verbatim>\<open>opEffects\<close>
  (\<^verbatim>\<open>validate_ops.go\<close>), \<^verbatim>\<open>simdEffects\<close> and those of the atomic instructions
  (\<^verbatim>\<open>validate_proposal.go\<close>). The Go code fills arrays in \<^verbatim>\<open>init\<close>; here an entry is
  what the assignments leave at an index, a later one replacing an earlier one.
\<close>

section \<open>Scalar effects\<close>

datatype effectValue = effectNone | effectI32 | effectI64 | effectF32 | effectF64 | effectV128

definition effectValType :: "effectValue \<Rightarrow> ValType" where
  "effectValType e =
     (case e of effectNone \<Rightarrow> zeroPacked | effectI32 \<Rightarrow> I32 | effectI64 \<Rightarrow> I64 | effectF32 \<Rightarrow> F32 | effectF64 \<Rightarrow> F64 | effectV128 \<Rightarrow> V128)"

datatype opEffectCat = effNone | effUnary | effBinary | effCompare | effTest | effConv | effLoad | effStore

record opEffect =
  oe_cat :: opEffectCat
  oe_a :: effectValue
  oe_b :: effectValue
  oe_align :: u32

abbreviation opEff :: "opEffectCat \<Rightarrow> effectValue \<Rightarrow> effectValue \<Rightarrow> u32 \<Rightarrow> opEffect" where
  "opEff c a b n \<equiv> \<lparr>oe_cat = c, oe_a = a, oe_b = b, oe_align = n\<rparr>"

text \<open>The ranges of kinds in the order of the assignments.\<close>

definition opEffectTable :: "(InstrKind \<times> InstrKind \<times> opEffect) list" where
  "opEffectTable =
     [(InstrI32Eqz, InstrI32Eqz, opEff effTest effectI32 effectNone 0),
      (InstrI64Eqz, InstrI64Eqz, opEff effTest effectI64 effectNone 0),
      (InstrI32Eq, InstrI32GeU, opEff effCompare effectI32 effectNone 0),
      (InstrI64Eq, InstrI64GeU, opEff effCompare effectI64 effectNone 0),
      (InstrF32Eq, InstrF32Ge, opEff effCompare effectF32 effectNone 0),
      (InstrF64Eq, InstrF64Ge, opEff effCompare effectF64 effectNone 0),
      (InstrI32Clz, InstrI32Popcnt, opEff effUnary effectI32 effectNone 0),
      (InstrI64Clz, InstrI64Popcnt, opEff effUnary effectI64 effectNone 0),
      (InstrF32Abs, InstrF32Sqrt, opEff effUnary effectF32 effectNone 0),
      (InstrF64Abs, InstrF64Sqrt, opEff effUnary effectF64 effectNone 0),
      (InstrI32Extend8S, InstrI32Extend16S, opEff effUnary effectI32 effectNone 0),
      (InstrI64Extend8S, InstrI64Extend32S, opEff effUnary effectI64 effectNone 0),
      (InstrI32Add, InstrI32Rotr, opEff effBinary effectI32 effectNone 0),
      (InstrI64Add, InstrI64Rotr, opEff effBinary effectI64 effectNone 0),
      (InstrF32Add, InstrF32Copysign, opEff effBinary effectF32 effectNone 0),
      (InstrF64Add, InstrF64Copysign, opEff effBinary effectF64 effectNone 0),
      (InstrI32WrapI64, InstrI32WrapI64, opEff effConv effectI64 effectI32 0),
      (InstrI32TruncF32S, InstrI32TruncF32S, opEff effConv effectF32 effectI32 0),
      (InstrI32TruncF32U, InstrI32TruncF32U, opEff effConv effectF32 effectI32 0),
      (InstrI32ReinterpretF32, InstrI32ReinterpretF32, opEff effConv effectF32 effectI32 0),
      (InstrI32TruncF64S, InstrI32TruncF64S, opEff effConv effectF64 effectI32 0),
      (InstrI32TruncF64U, InstrI32TruncF64U, opEff effConv effectF64 effectI32 0),
      (InstrI64ExtendI32S, InstrI64ExtendI32S, opEff effConv effectI32 effectI64 0),
      (InstrI64ExtendI32U, InstrI64ExtendI32U, opEff effConv effectI32 effectI64 0),
      (InstrI64TruncF32S, InstrI64TruncF32S, opEff effConv effectF32 effectI64 0),
      (InstrI64TruncF32U, InstrI64TruncF32U, opEff effConv effectF32 effectI64 0),
      (InstrI64TruncF64S, InstrI64TruncF64S, opEff effConv effectF64 effectI64 0),
      (InstrI64TruncF64U, InstrI64TruncF64U, opEff effConv effectF64 effectI64 0),
      (InstrI64ReinterpretF64, InstrI64ReinterpretF64, opEff effConv effectF64 effectI64 0),
      (InstrF32ConvertI32S, InstrF32ConvertI32S, opEff effConv effectI32 effectF32 0),
      (InstrF32ConvertI32U, InstrF32ConvertI32U, opEff effConv effectI32 effectF32 0),
      (InstrF32ReinterpretI32, InstrF32ReinterpretI32, opEff effConv effectI32 effectF32 0),
      (InstrF32ConvertI64S, InstrF32ConvertI64S, opEff effConv effectI64 effectF32 0),
      (InstrF32ConvertI64U, InstrF32ConvertI64U, opEff effConv effectI64 effectF32 0),
      (InstrF32DemoteF64, InstrF32DemoteF64, opEff effConv effectF64 effectF32 0),
      (InstrF64ConvertI32S, InstrF64ConvertI32S, opEff effConv effectI32 effectF64 0),
      (InstrF64ConvertI32U, InstrF64ConvertI32U, opEff effConv effectI32 effectF64 0),
      (InstrF64ConvertI64S, InstrF64ConvertI64S, opEff effConv effectI64 effectF64 0),
      (InstrF64ConvertI64U, InstrF64ConvertI64U, opEff effConv effectI64 effectF64 0),
      (InstrF64ReinterpretI64, InstrF64ReinterpretI64, opEff effConv effectI64 effectF64 0),
      (InstrF64PromoteF32, InstrF64PromoteF32, opEff effConv effectF32 effectF64 0),
      (InstrI32Load, InstrI32Load, opEff effLoad effectI32 effectNone 2),
      (InstrI64Load, InstrI64Load, opEff effLoad effectI64 effectNone 3),
      (InstrF32Load, InstrF32Load, opEff effLoad effectF32 effectNone 2),
      (InstrF64Load, InstrF64Load, opEff effLoad effectF64 effectNone 3),
      (InstrI32Load8S, InstrI32Load8S, opEff effLoad effectI32 effectNone 0),
      (InstrI32Load8U, InstrI32Load8U, opEff effLoad effectI32 effectNone 0),
      (InstrI32Load16S, InstrI32Load16S, opEff effLoad effectI32 effectNone 1),
      (InstrI32Load16U, InstrI32Load16U, opEff effLoad effectI32 effectNone 1),
      (InstrI64Load8S, InstrI64Load8S, opEff effLoad effectI64 effectNone 0),
      (InstrI64Load8U, InstrI64Load8U, opEff effLoad effectI64 effectNone 0),
      (InstrI64Load16S, InstrI64Load16S, opEff effLoad effectI64 effectNone 1),
      (InstrI64Load16U, InstrI64Load16U, opEff effLoad effectI64 effectNone 1),
      (InstrI64Load32S, InstrI64Load32S, opEff effLoad effectI64 effectNone 2),
      (InstrI64Load32U, InstrI64Load32U, opEff effLoad effectI64 effectNone 2),
      (InstrI32Store, InstrI32Store, opEff effStore effectI32 effectNone 2),
      (InstrI64Store, InstrI64Store, opEff effStore effectI64 effectNone 3),
      (InstrF32Store, InstrF32Store, opEff effStore effectF32 effectNone 2),
      (InstrF64Store, InstrF64Store, opEff effStore effectF64 effectNone 3),
      (InstrI32Store8, InstrI32Store8, opEff effStore effectI32 effectNone 0),
      (InstrI32Store16, InstrI32Store16, opEff effStore effectI32 effectNone 1),
      (InstrI64Store8, InstrI64Store8, opEff effStore effectI64 effectNone 0),
      (InstrI64Store16, InstrI64Store16, opEff effStore effectI64 effectNone 1),
      (InstrI64Store32, InstrI64Store32, opEff effStore effectI64 effectNone 2)]"

definition opEffects :: "InstrKind \<Rightarrow> opEffect" where
  "opEffects k = foldl (\<lambda>e (first, lst, e'). if first \<le> k \<and> k \<le> lst then e' else e) (opEff effNone effectNone effectNone 0) opEffectTable"

section \<open>Vector effects\<close>

datatype simdEffectCat = simdNone | simdEffLoad | simdEffStore | simdEffMemLoadLane | simdEffMemStoreLane | simdEffSplat
  | simdEffExtract | simdEffReplace | simdEffShift | simdEffUnary | simdEffBinary | simdEffTernary
  | simdPopV128PushI32 | simdBitselect | simdConst

record simdEffect =
  se_cat :: simdEffectCat
  se_scalar :: effectValue
  se_align :: u32
  se_laneLimit :: byte

definition simdLoads :: "(InstrKind \<times> u32) list" where
  "simdLoads =
     [(InstrV128Load, 4), (InstrV128Load8x8S, 3), (InstrV128Load8x8U, 3), (InstrV128Load16x4S, 3), (InstrV128Load16x4U, 3),
      (InstrV128Load32x2S, 3), (InstrV128Load32x2U, 3), (InstrV128Load8Splat, 0), (InstrV128Load16Splat, 1), (InstrV128Load32Splat, 2),
      (InstrV128Load64Splat, 3), (InstrV128Load32Zero, 2), (InstrV128Load64Zero, 3)]"

definition simdMemLane :: "(InstrKind \<times> u32) list" where
  "simdMemLane =
     [(InstrV128Load8Lane, 0), (InstrV128Load16Lane, 1), (InstrV128Load32Lane, 2), (InstrV128Load64Lane, 3), (InstrV128Store8Lane, 0),
      (InstrV128Store16Lane, 1), (InstrV128Store32Lane, 2), (InstrV128Store64Lane, 3)]"

definition simdLaneLimits :: "(InstrKind \<times> byte) list" where
  "simdLaneLimits =
     [(InstrI8x16ExtractLaneS, 16), (InstrI8x16ExtractLaneU, 16), (InstrI8x16ReplaceLane, 16), (InstrI16x8ExtractLaneS, 8),
      (InstrI16x8ExtractLaneU, 8), (InstrI16x8ReplaceLane, 8), (InstrI32x4ExtractLane, 4), (InstrI32x4ReplaceLane, 4),
      (InstrF32x4ExtractLane, 4), (InstrF32x4ReplaceLane, 4), (InstrI64x2ExtractLane, 2), (InstrI64x2ReplaceLane, 2), (InstrF64x2ExtractLane, 2),
      (InstrF64x2ReplaceLane, 2), (InstrV128Load8Lane, 16), (InstrV128Store8Lane, 16), (InstrV128Load16Lane, 8), (InstrV128Store16Lane, 8),
      (InstrV128Load32Lane, 4), (InstrV128Store32Lane, 4), (InstrV128Load64Lane, 2), (InstrV128Store64Lane, 2)]"

definition simdSplat :: "(InstrKind \<times> effectValue) list" where
  "simdSplat =
     [(InstrI8x16Splat, effectI32), (InstrI16x8Splat, effectI32), (InstrI32x4Splat, effectI32), (InstrI64x2Splat, effectI64),
      (InstrF32x4Splat, effectF32), (InstrF64x2Splat, effectF64)]"

definition simdExtract :: "(InstrKind \<times> effectValue) list" where
  "simdExtract =
     [(InstrI8x16ExtractLaneS, effectI32), (InstrI8x16ExtractLaneU, effectI32), (InstrI16x8ExtractLaneS, effectI32),
      (InstrI16x8ExtractLaneU, effectI32), (InstrI32x4ExtractLane, effectI32), (InstrI64x2ExtractLane, effectI64),
      (InstrF32x4ExtractLane, effectF32), (InstrF64x2ExtractLane, effectF64)]"

definition simdReplace :: "(InstrKind \<times> effectValue) list" where
  "simdReplace =
     [(InstrI8x16ReplaceLane, effectI32), (InstrI16x8ReplaceLane, effectI32), (InstrI32x4ReplaceLane, effectI32),
      (InstrI64x2ReplaceLane, effectI64), (InstrF32x4ReplaceLane, effectF32), (InstrF64x2ReplaceLane, effectF64)]"

definition simdShift :: "InstrKind list" where
  "simdShift =
     [InstrI8x16Shl, InstrI8x16ShrS, InstrI8x16ShrU, InstrI16x8Shl, InstrI16x8ShrS, InstrI16x8ShrU, InstrI32x4Shl, InstrI32x4ShrS,
      InstrI32x4ShrU, InstrI64x2Shl, InstrI64x2ShrS, InstrI64x2ShrU]"

definition simdUnary :: "InstrKind list" where
  "simdUnary =
     [InstrI8x16Swizzle, InstrV128Not, InstrF32x4DemoteF64x2Zero, InstrF64x2PromoteLowF32x4, InstrI8x16Abs, InstrI8x16Neg, InstrI8x16Popcnt,
      InstrI16x8ExtaddPairwiseI8x16S, InstrI16x8ExtaddPairwiseI8x16U, InstrI32x4ExtaddPairwiseI16x8S, InstrI32x4ExtaddPairwiseI16x8U,
      InstrF32x4Ceil, InstrF32x4Floor, InstrF32x4Trunc, InstrF32x4Nearest, InstrF64x2Ceil, InstrF64x2Floor, InstrF64x2Trunc, InstrF64x2Nearest,
      InstrI16x8Abs, InstrI16x8Neg, InstrI32x4Abs, InstrI32x4Neg, InstrI64x2Abs, InstrI64x2Neg, InstrI64x2ExtendLowI32x4S,
      InstrI64x2ExtendHighI32x4S, InstrI64x2ExtendLowI32x4U, InstrI64x2ExtendHighI32x4U, InstrF32x4Abs, InstrF32x4Neg, InstrF32x4Sqrt,
      InstrF64x2Abs, InstrF64x2Neg, InstrF64x2Sqrt, InstrI32x4TruncSatF32x4S, InstrI32x4TruncSatF32x4U, InstrF32x4ConvertI32x4S,
      InstrF32x4ConvertI32x4U, InstrI32x4TruncSatF64x2SZero, InstrI32x4TruncSatF64x2UZero, InstrF64x2ConvertLowI32x4S,
      InstrF64x2ConvertLowI32x4U, InstrI32x4RelaxedTruncF32x4S, InstrI32x4RelaxedTruncF32x4U, InstrI32x4RelaxedTruncZeroF64x2S,
      InstrI32x4RelaxedTruncZeroF64x2U, InstrI16x8ExtendLowI8x16S, InstrI16x8ExtendHighI8x16S, InstrI16x8ExtendLowI8x16U,
      InstrI16x8ExtendHighI8x16U, InstrI32x4ExtendLowI16x8S, InstrI32x4ExtendHighI16x8S, InstrI32x4ExtendLowI16x8U, InstrI32x4ExtendHighI16x8U]"

definition simdBinary :: "InstrKind list" where
  "simdBinary =
     [InstrI8x16Shuffle, InstrI8x16RelaxedSwizzle, InstrV128And, InstrV128Andnot, InstrV128Or, InstrV128Xor, InstrI8x16Eq, InstrI8x16Ne,
      InstrI8x16LtS, InstrI8x16LtU, InstrI8x16GtS, InstrI8x16GtU, InstrI8x16LeS, InstrI8x16LeU, InstrI8x16GeS, InstrI8x16GeU, InstrI16x8Eq,
      InstrI16x8Ne, InstrI16x8LtS, InstrI16x8LtU, InstrI16x8GtS, InstrI16x8GtU, InstrI16x8LeS, InstrI16x8LeU, InstrI16x8GeS, InstrI16x8GeU,
      InstrI32x4Eq, InstrI32x4Ne, InstrI32x4LtS, InstrI32x4LtU, InstrI32x4GtS, InstrI32x4GtU, InstrI32x4LeS, InstrI32x4LeU, InstrI32x4GeS,
      InstrI32x4GeU, InstrF32x4Eq, InstrF32x4Ne, InstrF32x4Lt, InstrF32x4Gt, InstrF32x4Le, InstrF32x4Ge, InstrF64x2Eq, InstrF64x2Ne,
      InstrF64x2Lt, InstrF64x2Gt, InstrF64x2Le, InstrF64x2Ge, InstrI8x16NarrowI16x8S, InstrI8x16NarrowI16x8U, InstrI8x16Shl, InstrI8x16ShrS,
      InstrI8x16ShrU, InstrI8x16Add, InstrI8x16AddSatS, InstrI8x16AddSatU, InstrI8x16Sub, InstrI8x16SubSatS, InstrI8x16SubSatU, InstrI8x16MinS,
      InstrI8x16MinU, InstrI8x16MaxS, InstrI8x16MaxU, InstrI8x16AvgrU, InstrI16x8Q15mulrSatS, InstrI16x8NarrowI32x4S, InstrI16x8NarrowI32x4U,
      InstrI16x8Shl, InstrI16x8ShrS, InstrI16x8ShrU, InstrI16x8Add, InstrI16x8AddSatS, InstrI16x8AddSatU, InstrI16x8Sub, InstrI16x8SubSatS,
      InstrI16x8SubSatU, InstrI16x8Mul, InstrI16x8MinS, InstrI16x8MinU, InstrI16x8MaxS, InstrI16x8MaxU, InstrI16x8AvgrU,
      InstrI16x8ExtmulLowI8x16S, InstrI16x8ExtmulHighI8x16S, InstrI16x8ExtmulLowI8x16U, InstrI16x8ExtmulHighI8x16U, InstrI32x4Add, InstrI32x4Sub,
      InstrI32x4Mul, InstrI32x4MinS, InstrI32x4MinU, InstrI32x4MaxS, InstrI32x4MaxU, InstrI32x4DotI16x8S, InstrI32x4ExtmulLowI16x8S,
      InstrI32x4ExtmulHighI16x8S, InstrI32x4ExtmulLowI16x8U, InstrI32x4ExtmulHighI16x8U, InstrI64x2Add, InstrI64x2Sub, InstrI64x2Mul,
      InstrI64x2ExtmulLowI32x4S, InstrI64x2ExtmulHighI32x4S, InstrI64x2ExtmulLowI32x4U, InstrI64x2ExtmulHighI32x4U, InstrI64x2Eq, InstrI64x2Ne,
      InstrI64x2LtS, InstrI64x2GtS, InstrI64x2LeS, InstrI64x2GeS, InstrF32x4Add, InstrF32x4Sub, InstrF32x4Mul, InstrF32x4Div, InstrF32x4Min,
      InstrF32x4Max, InstrF32x4Pmin, InstrF32x4Pmax, InstrF64x2Add, InstrF64x2Sub, InstrF64x2Mul, InstrF64x2Div, InstrF64x2Min, InstrF64x2Max,
      InstrF64x2Pmin, InstrF64x2Pmax, InstrF32x4RelaxedMin, InstrF32x4RelaxedMax, InstrF64x2RelaxedMin, InstrF64x2RelaxedMax,
      InstrI16x8RelaxedQ15mulrS, InstrI16x8RelaxedDotI8x16I7x16S]"

definition simdTernary :: "InstrKind list" where
  "simdTernary =
     [InstrF32x4RelaxedMadd, InstrF32x4RelaxedNmadd, InstrF64x2RelaxedMadd, InstrF64x2RelaxedNmadd, InstrI32x4RelaxedDotI8x16I7x16AddS]"

definition simdTests :: "InstrKind list" where
  "simdTests =
     [InstrV128AnyTrue, InstrI8x16AllTrue, InstrI16x8AllTrue, InstrI32x4AllTrue, InstrI64x2AllTrue,
      InstrI8x16Bitmask, InstrI16x8Bitmask, InstrI32x4Bitmask, InstrI64x2Bitmask]"

definition simdSelects :: "InstrKind list" where
  "simdSelects =
     [InstrV128Bitselect, InstrI8x16RelaxedLaneselect, InstrI16x8RelaxedLaneselect, InstrI32x4RelaxedLaneselect, InstrI64x2RelaxedLaneselect]"

abbreviation simdOf :: "simdEffectCat \<Rightarrow> simdEffect" where
  "simdOf c \<equiv> \<lparr>se_cat = c, se_scalar = effectNone, se_align = 0, se_laneLimit = 0\<rparr>"

text \<open>One assignment for the kinds of a list, and one that takes its argument from a table.\<close>

definition assign :: "InstrKind list \<Rightarrow> simdEffect \<Rightarrow> InstrKind \<Rightarrow> simdEffect \<Rightarrow> simdEffect" where
  "assign ks e k old = (if k \<in> set ks then e else old)"

definition assignFrom :: "(InstrKind \<times> 'a) list \<Rightarrow> ('a \<Rightarrow> simdEffect) \<Rightarrow> InstrKind \<Rightarrow> simdEffect \<Rightarrow> simdEffect" where
  "assignFrom table f k old = (case map_of table k of Some x \<Rightarrow> f x | None \<Rightarrow> old)"

definition simdEffects :: "InstrKind \<Rightarrow> simdEffect" where
  "simdEffects k =
     (let e = simdOf simdNone;
          e = assignFrom simdLoads (\<lambda>a. (simdOf simdEffLoad)\<lparr>se_align := a\<rparr>) k e;
          e = assign [InstrV128Store] (simdOf simdEffStore) k e;
          e = assignFrom simdMemLane
                (\<lambda>a. (simdOf (if InstrV128Store8Lane \<le> k \<and> k \<le> InstrV128Store64Lane then simdEffMemStoreLane else simdEffMemLoadLane))\<lparr>se_align := a\<rparr>) k e;
          e = assignFrom simdSplat (\<lambda>s. (simdOf simdEffSplat)\<lparr>se_scalar := s\<rparr>) k e;
          e = assignFrom simdExtract (\<lambda>s. (simdOf simdEffExtract)\<lparr>se_scalar := s\<rparr>) k e;
          e = assignFrom simdReplace (\<lambda>s. (simdOf simdEffReplace)\<lparr>se_scalar := s\<rparr>) k e;
          e = assign simdShift (simdOf simdEffShift) k e;
          e = assign simdUnary (simdOf simdEffUnary) k e;
          e = assign [InstrI8x16Swizzle] (simdOf simdEffBinary) k e;
          e = (if se_cat e = simdEffShift then e else assign simdBinary (simdOf simdEffBinary) k e);
          e = assign simdTernary (simdOf simdEffTernary) k e;
          e = assign simdTests (simdOf simdPopV128PushI32) k e;
          e = assign simdSelects (simdOf simdBitselect) k e;
          e = assign [InstrV128Const] (simdOf simdConst) k e
      in case map_of simdLaneLimits k of Some l \<Rightarrow> e\<lparr>se_laneLimit := l\<rparr> | None \<Rightarrow> e)"

section \<open>Atomic effects\<close>

record atomicEffect =
  ae_typ :: effectValue
  ae_align :: u32

definition atomicLoadEffects :: "atomicEffect list" where
  "atomicLoadEffects =
     [\<lparr>ae_typ = effectI32, ae_align = 2\<rparr>, \<lparr>ae_typ = effectI64, ae_align = 3\<rparr>, \<lparr>ae_typ = effectI32, ae_align = 0\<rparr>,
      \<lparr>ae_typ = effectI32, ae_align = 1\<rparr>, \<lparr>ae_typ = effectI64, ae_align = 0\<rparr>, \<lparr>ae_typ = effectI64, ae_align = 1\<rparr>,
      \<lparr>ae_typ = effectI64, ae_align = 2\<rparr>]"

definition lookupAtomicEffect :: "atomicEffect list \<Rightarrow> InstrKind \<Rightarrow> InstrKind \<Rightarrow> atomicEffect option" where
  "lookupAtomicEffect table first kind =
     (let index = (ucast kind - ucast first :: u32)
      in if index \<ge> of_nat (length table) then None else Some (table ! unat index))"

definition atomicRmwEffect :: "u32 \<Rightarrow> atomicEffect" where
  "atomicRmwEffect op0 =
     (let op = (if op0 = 0 then 30 else op0); p = (op - 30) mod 7
      in if p = 0 then \<lparr>ae_typ = effectI32, ae_align = 2\<rparr>
         else if p = 1 then \<lparr>ae_typ = effectI64, ae_align = 3\<rparr>
         else if p = 2 \<or> p = 3 then \<lparr>ae_typ = effectI32, ae_align = ucast (ucast (p - 2) :: byte)\<rparr>
         else \<lparr>ae_typ = effectI64, ae_align = ucast (ucast (p - 4) :: byte)\<rparr>)"

definition atomicCmpxchgEffect :: "u32 \<Rightarrow> atomicEffect" where
  "atomicCmpxchgEffect op0 =
     (let op = (if op0 = 0 then 72 else op0)
      in if op = 72 then \<lparr>ae_typ = effectI32, ae_align = 2\<rparr>
         else if op = 73 then \<lparr>ae_typ = effectI64, ae_align = 3\<rparr>
         else if op = 74 \<or> op = 75 then \<lparr>ae_typ = effectI32, ae_align = ucast (ucast (op - 74) :: byte)\<rparr>
         else \<lparr>ae_typ = effectI64, ae_align = ucast (ucast (op - 76) :: byte)\<rparr>)"

end
