(* ===== verification/BodySteps.thy ===== *)
theory BodySteps
  imports BodyState Effects
begin

text \<open>
  The validation of single instructions (\<^verbatim>\<open>step\<close> and \<^verbatim>\<open>stackEffect\<close> of \<^verbatim>\<open>validate_ops.go\<close>,
  \<^verbatim>\<open>proposalStep\<close> of \<^verbatim>\<open>validate_proposal.go\<close>) over the stack operations. Structured instructions
  carry their bodies as trees and are validated by recursion. The lemmas show that every instruction, nested ones
  included, keeps the stack discipline.
\<close>

section \<open>Instructions\<close>

record MemArg =
  ma_Align :: u32
  ma_Mem :: "u32 option"
  ma_Offset :: u64

datatype CatchKind = CatchTag | CatchRef | CatchAll | CatchAllRef

record Catch =
  ca_Kind :: CatchKind
  ca_Tag :: u32
  ca_Label :: u32

text \<open>The payload fields that validation reads; values of constants and raw bytes are left out.\<close>

datatype Instruction =
    Instruction (in_Kind: InstrKind) (in_Index: u32) (in_Index2: u32) (in_AtomicOp: u32) (in_Lane: byte) (in_Cast: CastOp) (in_ext: "instrExt option")
and instrExt =
    instrExt (x_BlockType: BlockType) (x_Body: "Instruction list") (x_Then: "Instruction list") (x_Else: "Instruction list")
      (x_Catches: "Catch list") (x_Indices: "u32 list") (x_ValTypes: "ValType list") (x_MemArg: MemArg) (x_Lanes: "byte list")
      (x_RefType: RefType) (x_HeapType: HeapType) (x_HeapType2: HeapType)

definition zeroBlockType :: BlockType where
  "zeroBlockType = \<lparr>bt_Kind = BlockVoid, bt_Val = zeroPacked, bt_Type = zeroTypeIdx\<rparr>"

definition zeroMemArg :: MemArg where "zeroMemArg = \<lparr>ma_Align = 0, ma_Mem = None, ma_Offset = 0\<rparr>"

definition zeroExt :: instrExt where
  "zeroExt = instrExt zeroBlockType [] [] [] [] [] [] zeroMemArg (replicate 16 0) zeroPacked zeroPacked zeroPacked"

text \<open>The accessors return zero values where there is no payload.\<close>

definition extOf :: "Instruction \<Rightarrow> instrExt" where
  "extOf i = (case in_ext i of None \<Rightarrow> zeroExt | Some x \<Rightarrow> x)"

abbreviation in_ValTypes :: "Instruction \<Rightarrow> ValType list" where "in_ValTypes i \<equiv> x_ValTypes (extOf i)"
abbreviation in_MemArg :: "Instruction \<Rightarrow> MemArg" where "in_MemArg i \<equiv> x_MemArg (extOf i)"
abbreviation in_HeapType :: "Instruction \<Rightarrow> HeapType" where "in_HeapType i \<equiv> x_HeapType (extOf i)"
abbreviation in_HeapType2 :: "Instruction \<Rightarrow> HeapType" where "in_HeapType2 i \<equiv> x_HeapType2 (extOf i)"

definition noCast :: CastOp where "noCast = \<lparr>SourceNullable = False, TargetNullable = False\<rparr>"

text \<open>An instruction with a kind and indices only, and one with a payload.\<close>

definition plainInstr :: "InstrKind \<Rightarrow> u32 \<Rightarrow> u32 \<Rightarrow> Instruction" where
  "plainInstr k a b = Instruction k a b 0 0 noCast None"

section \<open>Checks of immediates\<close>

definition absoluteIdx :: "u32 \<Rightarrow> TypeIdx" where "absoluteIdx i = \<lparr>ti_Index = i, ti_Rec = False\<rparr>"

definition indexedRef :: "bool \<Rightarrow> u32 \<Rightarrow> bool \<Rightarrow> ValType" where
  "indexedRef null i exact = RefVal (Ref null (IndexedHeap (absoluteIdx i)) exact)"

definition checkMemArg :: "moduleValidator \<Rightarrow> MemArg \<Rightarrow> u32 \<Rightarrow> ValType vm" where
  "checkMemArg mv ma natural =
     (let idx = (case ma_Mem ma of None \<Rightarrow> 0 | Some i \<Rightarrow> i)
      in bindV (orFail (memoryProperties (mv_m mv) idx) ErrUnknownMemory) (\<lambda>flags.
           if ma_Align ma > natural then failV ErrInvalidAlignment
           else if flags AND externTypeAddr64 \<noteq> 0 then returnV I64
           else if ma_Offset ma > 0xFFFFFFFF then failV ErrInvalidAlignment
           else returnV I32))"

definition checkAtomicMemArg :: "moduleValidator \<Rightarrow> MemArg \<Rightarrow> u32 \<Rightarrow> ValType vm" where
  "checkAtomicMemArg mv ma natural =
     bindV (checkMemArg mv ma natural) (\<lambda>addr. if ma_Align ma \<noteq> natural then failV ErrInvalidAlignment else returnV addr)"

definition memIndex :: "u32 \<Rightarrow> MemArg" where "memIndex i = zeroMemArg\<lparr>ma_Mem := Some i\<rparr>"

definition checkDataIndex :: "moduleValidator \<Rightarrow> u32 \<Rightarrow> unit vm" where
  "checkDataIndex mv idx =
     rejectV (case m_DataCount (mv_m mv) of None \<Rightarrow> True | Some n \<Rightarrow> idx \<ge> n \<or> unat idx \<ge> length (m_Data (mv_m mv))) ErrInvalidDataCount"

definition minAddrType :: "ValType \<Rightarrow> ValType \<Rightarrow> ValType" where
  "minAddrType a b = (if equalValType a I32 \<or> equalValType b I32 then I32 else I64)"

definition tableAddrType :: "moduleValidator \<Rightarrow> u32 \<Rightarrow> (ValType \<times> TableType) vm" where
  "tableAddrType mv idx = bindV (orFail (v_tableType (mv_m mv) idx) ErrUnknownTable) (\<lambda>tt. returnV (TableAddrType tt, tt))"

definition directElemRefType :: "directElem list \<Rightarrow> u32 \<Rightarrow> RefType validated" where
  "directElemRefType elements index =
     (if unat index \<ge> length elements then Inl ErrUnknownTable
      else let e = elements ! unat index
           in Inr (case de_kind e of ElemTypedExprs \<Rightarrow> de_ref e | _ \<Rightarrow> ValType_Ref FuncRef))"

definition elemRefType :: "moduleValidator \<Rightarrow> u32 \<Rightarrow> RefType validated" where
  "elemRefType mv index =
     (case mv_direct mv of
        Some elements \<Rightarrow> directElemRefType elements index
      | None \<Rightarrow>
          if unat index \<ge> length (m_Elements (mv_m mv)) then Inl ErrUnknownTable
          else let e = m_Elements (mv_m mv) ! unat index
               in Inr (case ek_Kind (el_Kind e) of ElemTypedExprs \<Rightarrow> ek_Ref (el_Kind e) | _ \<Rightarrow> ValType_Ref FuncRef))"

definition matchValTypes :: "moduleValidator \<Rightarrow> ValType list \<Rightarrow> ValType list \<Rightarrow> bool" where
  "matchValTypes mv actual expected \<longleftrightarrow> length actual = length expected \<and> list_all2 (fv_subtype mv) actual expected"

definition blockSig :: "moduleValidator \<Rightarrow> BlockType \<Rightarrow> (ValType list \<times> ValType list) vm" where
  "blockSig mv bt =
     (case bt_Kind bt of
        BlockVoid \<Rightarrow> returnV ([], [])
      | BlockVal \<Rightarrow> bindV (checkV (validateValType (mv_m mv) (bt_Val bt))) (\<lambda>_. returnV ([], [bt_Val bt]))
      | BlockTypeIndex \<Rightarrow>
          bindV (orFail (funcTypeFromTypeIdx (mv_m mv) (bt_Type bt)) ErrUnknownType) (\<lambda>ft. returnV (ct_Params ft, ct_Results ft)))"

definition isConstInstruction :: "InstrKind \<Rightarrow> bool" where
  "isConstInstruction k \<longleftrightarrow> k \<in> set [InstrI32Const, InstrI64Const, InstrF32Const, InstrF64Const, InstrV128Const, InstrRefNull, InstrRefFunc,
     InstrGlobalGet, InstrI32Add, InstrI32Sub, InstrI32Mul, InstrI64Add, InstrI64Sub, InstrI64Mul, InstrStructNewDefault,
     InstrArrayNewFixed, InstrStringConst]"

definition isImplicitSelectType :: "ValType \<Rightarrow> bool" where
  "isImplicitSelectType t \<longleftrightarrow> ValType_Kind t = ValNum \<or> ValType_Kind t = ValVec"

definition getV :: "funcValidator vm" where "getV v = Inr (v, v)"

text \<open>The result types of the function, those of the outermost frame.\<close>

definition funcResults :: "(ValType list) vm" where
  "funcResults v = (if ctrls v = [] then Inl Panic else Inr (cf_out (hd (ctrls v)), v))"

section \<open>Branches\<close>

definition stepBranch :: "moduleValidator \<Rightarrow> InstrKind \<Rightarrow> u32 \<Rightarrow> unit vm" where
  "stepBranch mv kind index =
     bindV (if kind = InstrBrIf then popExpect mv I32 else returnV ()) (\<lambda>_.
     bindV (label index) (\<lambda>types.
       runV [popAll mv types, if kind = InstrBr then setUnreachable else pushAll types]))"

definition beginBranchTable :: "unit vm" where
  "beginBranchTable v =
     Inr ((), let e = branchTableEpoch v + 1
       in if e = 0 then v\<lparr>ctrls := map (\<lambda>f. f\<lparr>cf_branchTableEpoch := 0\<rparr>) (ctrls v), branchTableEpoch := 1\<rparr>
          else v\<lparr>branchTableEpoch := e\<rparr>)"

definition markBranchTableLabel :: "u32 \<Rightarrow> bool vm" where
  "markBranchTableLabel lab = bindV (frameIndex lab) (\<lambda>i v.
     let f = ctrls v ! i
     in Inr (cf_branchTableEpoch f \<noteq> branchTableEpoch v, v\<lparr>ctrls := (ctrls v)[i := f\<lparr>cf_branchTableEpoch := branchTableEpoch v\<rparr>]\<rparr>))"

text \<open>Cutting the stack back to the payload restores what the pops took, since they only shorten the slice.\<close>

definition restoreVals :: "ValType list \<Rightarrow> unit vm" where
  "restoreVals payload v = Inr ((), v\<lparr>vals := payload\<rparr>)"

primrec branchTargets :: "moduleValidator \<Rightarrow> ValType list \<Rightarrow> ValType list \<Rightarrow> u32 list \<Rightarrow> unit vm" where
  "branchTargets mv payload dt [] = returnV ()"
| "branchTargets mv payload dt (l # ls) =
     bindV (label l) (\<lambda>lt.
     bindV (markBranchTableLabel l) (\<lambda>fresh.
       if \<not> fresh then branchTargets mv payload dt ls
       else if length lt \<noteq> length dt then failV ErrTypeMismatch
       else bindV (popAll mv lt) (\<lambda>_. bindV (restoreVals payload) (\<lambda>_. branchTargets mv payload dt ls))))"

definition stepBrTable :: "moduleValidator \<Rightarrow> Instruction \<Rightarrow> unit vm" where
  "stepBrTable mv i =
     bindV (popExpect mv I32) (\<lambda>_.
     bindV (label (in_Index i)) (\<lambda>dt.
     bindV getV (\<lambda>v.
     bindV beginBranchTable (\<lambda>_.
     bindV (markBranchTableLabel (in_Index i)) (\<lambda>_.
       runV [branchTargets mv (vals v) dt (x_Indices (extOf i)), popAll mv dt, setUnreachable])))))"

section \<open>Calls, selection, variables, tables and memories\<close>

text \<open>A call pushes the results; a tail call must return what the function returns.\<close>

definition finishCall :: "moduleValidator \<Rightarrow> bool \<Rightarrow> CompType \<Rightarrow> unit vm" where
  "finishCall mv tail ft =
     (if tail then bindV funcResults (\<lambda>outs.
        runV [rejectV (\<not> matchValTypes mv (ct_Results ft) outs) ErrTypeMismatch, setUnreachable])
      else pushAll (ct_Results ft))"

definition stepCall :: "moduleValidator \<Rightarrow> InstrKind \<Rightarrow> u32 \<Rightarrow> unit vm" where
  "stepCall mv kind index =
     bindV (orFail (v_funcType (mv_m mv) index) ErrUnknownFunc) (\<lambda>ft.
       runV [popAll mv (ct_Params ft), finishCall mv (kind = InstrReturnCall) ft])"

definition stepCallIndirect :: "moduleValidator \<Rightarrow> Instruction \<Rightarrow> unit vm" where
  "stepCallIndirect mv i =
     bindV (orFail (funcTypeFromTypeIdx (mv_m mv) (absoluteIdx (in_Index i))) ErrUnknownType) (\<lambda>ft.
     bindV (orFail (v_tableType (mv_m mv) (in_Index2 i)) ErrUnknownTable) (\<lambda>tt.
       runV [rejectV (\<not> fv_refSubtype mv (tt_Ref tt) (AbsRef HeapFunc)) ErrTypeMismatch,
             popExpect mv (if lim_Addr64 (tt_Limits tt) then I64 else I32),
             popAll mv (ct_Params ft),
             finishCall mv (in_Kind i = InstrReturnCallIndirect) ft]))"

definition stepSelect :: "moduleValidator \<Rightarrow> Instruction \<Rightarrow> unit vm" where
  "stepSelect mv i =
     (let typed = (in_ext i \<noteq> None)
      in if typed \<and> length (in_ValTypes i) \<noteq> 1 then failV ErrTypeMismatch
         else bindV (popExpect mv I32) (\<lambda>_.
           if typed then (let t = in_ValTypes i ! 0 in runV [popExpect mv t, popExpect mv t, push t])
           else bindV pop (\<lambda>a. bindV pop (\<lambda>b.
             if \<not> unknown a \<and> \<not> isImplicitSelectType a \<or> \<not> unknown b \<and> \<not> isImplicitSelectType b then failV ErrTypeMismatch
             else if \<not> unknown a \<and> \<not> unknown b \<and> \<not> equalValType a b then failV ErrTypeMismatch
             else push (if unknown a then b else a)))))"

definition stepLocalIndex :: "moduleValidator \<Rightarrow> InstrKind \<Rightarrow> u32 \<Rightarrow> unit vm" where
  "stepLocalIndex mv kind index =
     bindV (lookupLocal index) (\<lambda>typ.
     bindV (orFail typ ErrUnknownLocal) (\<lambda>t.
       if kind = InstrLocalGet then bindV getV (\<lambda>v. runV [rejectV (\<not> localIsInitialized index t v) ErrUninitializedLocal, push t])
       else runV [popExpect mv t, initializeLocal index t, if kind = InstrLocalTee then push t else returnV ()]))"

definition stepGlobal :: "moduleValidator \<Rightarrow> InstrKind \<Rightarrow> u32 \<Rightarrow> unit vm" where
  "stepGlobal mv kind index =
     bindV (orFail (globalProperties (mv_m mv) index) ErrUnknownGlobal) (\<lambda>(typ, mutable).
       if kind = InstrGlobalGet then bindV getV (\<lambda>v.
         runV [rejectV (constOnly v \<and> (mutable \<or> unat index \<ge> constGlobalLimit v \<or>
                 unat index \<ge> length (importsOfKind (mv_m mv) ExternGlobal) \<and> \<not> ExtendedConstGlobals (mv_features mv))) ErrConstExprRequired,
               push typ])
       else runV [rejectV (\<not> mutable) ErrImmutableGlobal, popExpect mv typ])"

definition stepTable :: "moduleValidator \<Rightarrow> Instruction \<Rightarrow> unit vm" where
  "stepTable mv i =
     (let k = in_Kind i
      in if k = InstrTableGet then bindV (tableAddrType mv (in_Index i)) (\<lambda>(addr, tt). runV [popExpect mv addr, push (RefVal (tt_Ref tt))])
         else if k = InstrTableSet then bindV (tableAddrType mv (in_Index i)) (\<lambda>(addr, tt). runV [popExpect mv (RefVal (tt_Ref tt)), popExpect mv addr])
         else if k = InstrTableSize then bindV (tableAddrType mv (in_Index i)) (\<lambda>(addr, tt). push addr)
         else if k = InstrTableGrow then bindV (tableAddrType mv (in_Index i)) (\<lambda>(addr, tt).
           runV [popExpect mv addr, popExpect mv (RefVal (tt_Ref tt)), push addr])
         else if k = InstrTableFill then bindV (tableAddrType mv (in_Index i)) (\<lambda>(addr, tt).
           runV [popExpect mv addr, popExpect mv (RefVal (tt_Ref tt)), popExpect mv addr])
         else if k = InstrTableCopy then bindV (tableAddrType mv (in_Index i)) (\<lambda>(addrDst, dst).
           bindV (tableAddrType mv (in_Index2 i)) (\<lambda>(addrSrc, src).
             runV [rejectV (\<not> fv_refSubtype mv (tt_Ref src) (tt_Ref dst)) ErrTypeMismatch,
                   popExpect mv (minAddrType addrDst addrSrc), popExpect mv addrSrc, popExpect mv addrDst]))
         else bindV (checkV (elemRefType mv (in_Index i))) (\<lambda>elemRef.
           bindV (orFail (v_tableType (mv_m mv) (in_Index2 i)) ErrUnknownTable) (\<lambda>tt.
             runV [rejectV (\<not> fv_refSubtype mv elemRef (tt_Ref tt)) ErrTypeMismatch,
                   popExpect mv I32, popExpect mv I32, popExpect mv (TableAddrType tt)])))"

definition stepBulkMemory :: "moduleValidator \<Rightarrow> Instruction \<Rightarrow> unit vm" where
  "stepBulkMemory mv i =
     (let k = in_Kind i
      in if k = InstrMemoryInit then bindV (checkDataIndex mv (in_Index i)) (\<lambda>_.
           bindV (checkMemArg mv (memIndex (in_Index2 i)) 0) (\<lambda>addr. runV [popExpect mv I32, popExpect mv I32, popExpect mv addr]))
         else if k = InstrMemoryCopy then bindV (checkMemArg mv (memIndex (in_Index i)) 0) (\<lambda>addrDst.
           bindV (checkMemArg mv (memIndex (in_Index2 i)) 0) (\<lambda>addrSrc.
             runV [popExpect mv (minAddrType addrDst addrSrc), popExpect mv addrSrc, popExpect mv addrDst]))
         else if k = InstrMemoryFill then bindV (checkMemArg mv (memIndex (in_Index i)) 0) (\<lambda>addr.
           runV [popExpect mv addr, popExpect mv I32, popExpect mv addr])
         else checkDataIndex mv (in_Index i))"

section \<open>References and null branches\<close>

text \<open>A popped operand that must be a reference.\<close>

definition popRef :: "ValType vm" where
  "popRef = bindV pop (\<lambda>x. bindV (rejectV (\<not> unknown x \<and> ValType_Kind x \<noteq> ValRef) ErrTypeMismatch) (\<lambda>_. returnV x))"

definition stepRef :: "moduleValidator \<Rightarrow> Instruction \<Rightarrow> unit vm" where
  "stepRef mv i =
     (let k = in_Kind i
      in if k = InstrRefNull then
           runV [checkV (validateRefType (mv_m mv) (x_RefType (extOf i))), push (RefVal (x_RefType (extOf i)))]
         else if k = InstrRefFunc then bindV (orFail (FuncTypeIndex (Some (mv_m mv)) (in_Index i)) ErrUnknownFunc) (\<lambda>typeIdx.
           runV [rejectV (\<not> isDeclaredFunc mv (in_Index i)) ErrUnknownFunc, push (RefVal (Ref False (IndexedHeap typeIdx) False))])
         else if k = InstrRefIsNull then bindV popRef (\<lambda>_. push I32)
         else if k = InstrRefEq then runV [popExpect mv EqRef, popExpect mv EqRef, push I32]
         else if k = InstrStringConst then runV [rejectV (unat (in_Index i) \<ge> length (m_StringRefs (mv_m mv))) ErrTypeMismatch, push StringRef]
         else bindV popRef (\<lambda>x. push (nonNullValidationType x)))"

definition stepBrOnNull :: "moduleValidator \<Rightarrow> u32 \<Rightarrow> unit vm" where
  "stepBrOnNull mv index =
     bindV (label index) (\<lambda>lt. bindV popRef (\<lambda>x. runV [popAll mv lt, pushAll lt, push (nonNullValidationType x)]))"

definition stepBrOnNonNull :: "moduleValidator \<Rightarrow> u32 \<Rightarrow> unit vm" where
  "stepBrOnNonNull mv index =
     bindV (label index) (\<lambda>lt. bindV pop (\<lambda>x.
       if lt = [] \<or> ValType_Kind (last lt) \<noteq> ValRef \<or> \<not> unknown x \<and> ValType_Kind x \<noteq> ValRef then failV ErrTypeMismatch
       else if \<not> unknown x \<and> \<not> fv_subtype mv (RefVal (WithNullable False (ValType_Ref x))) (last lt) then failV ErrTypeMismatch
       else runV [popAll mv (butlast lt), pushAll (butlast lt)]))"

section \<open>Numeric effects\<close>

definition stackEffect :: "moduleValidator \<Rightarrow> Instruction \<Rightarrow> unit vm" where
  "stackEffect mv i =
     (let k = in_Kind i; e = opEffects k; a = effectValType (oe_a e)
      in case oe_cat e of
           effUnary \<Rightarrow> runV [popExpect mv a, push a]
         | effBinary \<Rightarrow> runV [popExpect mv a, popExpect mv a, push a]
         | effCompare \<Rightarrow> runV [popExpect mv a, popExpect mv a, push I32]
         | effTest \<Rightarrow> runV [popExpect mv a, push I32]
         | effConv \<Rightarrow> runV [popExpect mv a, push (effectValType (oe_b e))]
         | effLoad \<Rightarrow> bindV (checkMemArg mv (zeroMemArg\<lparr>ma_Align := oe_align e\<rparr>) (oe_align e)) (\<lambda>_. runV [popExpect mv I32, push a])
         | effStore \<Rightarrow> bindV (checkMemArg mv (zeroMemArg\<lparr>ma_Align := oe_align e\<rparr>) (oe_align e)) (\<lambda>_. runV [popExpect mv a, popExpect mv I32])
         | effNone \<Rightarrow>
             if k = InstrMemorySize then bindV (checkMemArg mv (memIndex (in_Index i)) 0) push
             else if k = InstrMemoryGrow then bindV (checkMemArg mv (memIndex (in_Index i)) 0) (\<lambda>addr. runV [popExpect mv addr, push addr])
             else if k = InstrI32TruncSatF32S \<or> k = InstrI32TruncSatF32U then runV [popExpect mv F32, push I32]
             else if k = InstrI32TruncSatF64S \<or> k = InstrI32TruncSatF64U then runV [popExpect mv F64, push I32]
             else if k = InstrI64TruncSatF32S \<or> k = InstrI64TruncSatF32U then runV [popExpect mv F32, push I64]
             else if k = InstrI64TruncSatF64S \<or> k = InstrI64TruncSatF64U then runV [popExpect mv F64, push I64]
             else failV ErrUnsupportedValidationOpcode)"

definition stepWide :: "moduleValidator \<Rightarrow> InstrKind \<Rightarrow> unit vm" where
  "stepWide mv k =
     (let n = (if k = InstrI64Add128 \<or> k = InstrI64Sub128 then 4 else 2)
      in runV (replicate n (popExpect mv I64) @ [push I64, push I64]))"

definition stepSIMD :: "moduleValidator \<Rightarrow> Instruction \<Rightarrow> unit vm" where
  "stepSIMD mv i =
     (let k = in_Kind i; e = simdEffects k; scalar = effectValType (se_scalar e); v128 = popExpect mv V128
      in if k = InstrI8x16Shuffle \<and> list_ex (\<lambda>lane. lane \<ge> 32) (x_Lanes (extOf i)) then failV ErrTypeMismatch
         else if se_laneLimit e \<noteq> 0 \<and> in_Lane i \<ge> se_laneLimit e then failV ErrTypeMismatch
         else case se_cat e of
           simdEffLoad \<Rightarrow> bindV (checkMemArg mv (in_MemArg i) (se_align e)) (\<lambda>addr. runV [popExpect mv addr, push V128])
         | simdEffStore \<Rightarrow> bindV (checkMemArg mv (in_MemArg i) 4) (\<lambda>addr. runV [v128, popExpect mv addr])
         | simdEffMemLoadLane \<Rightarrow> bindV (checkMemArg mv (in_MemArg i) (se_align e)) (\<lambda>addr. runV [v128, popExpect mv addr, push V128])
         | simdEffMemStoreLane \<Rightarrow> bindV (checkMemArg mv (in_MemArg i) (se_align e)) (\<lambda>addr. runV [v128, popExpect mv addr])
         | simdEffSplat \<Rightarrow> runV [popExpect mv scalar, push V128]
         | simdEffExtract \<Rightarrow> runV [v128, push scalar]
         | simdEffReplace \<Rightarrow> runV [popExpect mv scalar, v128, push V128]
         | simdEffShift \<Rightarrow> runV [popExpect mv I32, v128, push V128]
         | simdEffUnary \<Rightarrow> runV [v128, push V128]
         | simdEffBinary \<Rightarrow> runV [v128, v128, push V128]
         | simdEffTernary \<Rightarrow> runV [v128, v128, v128, push V128]
         | simdPopV128PushI32 \<Rightarrow> runV [v128, push I32]
         | simdBitselect \<Rightarrow> runV [v128, v128, v128, push V128]
         | simdConst \<Rightarrow> push V128
         | simdNone \<Rightarrow> failV ErrUnsupportedValidationOpcode)"

definition stepAtomic :: "moduleValidator \<Rightarrow> Instruction \<Rightarrow> unit vm" where
  "stepAtomic mv i =
     (let k = in_Kind i; arg = checkAtomicMemArg mv (in_MemArg i)
      in if k = InstrAtomicFence then returnV ()
         else if k = InstrMemoryAtomicNotify then bindV (arg 2) (\<lambda>addr. runV [popExpect mv I32, popExpect mv addr, push I32])
         else if k = InstrMemoryAtomicWait32 \<or> k = InstrMemoryAtomicWait64 then
           bindV (arg (if k = InstrMemoryAtomicWait64 then 3 else 2)) (\<lambda>addr.
             runV [popExpect mv I64, popExpect mv (if k = InstrMemoryAtomicWait64 then I64 else I32), popExpect mv addr, push I32])
         else case lookupAtomicEffect atomicLoadEffects InstrI32AtomicLoad k of
           Some eff \<Rightarrow> bindV (arg (ae_align eff)) (\<lambda>addr. runV [popExpect mv addr, push (effectValType (ae_typ eff))])
         | None \<Rightarrow> (case lookupAtomicEffect atomicLoadEffects InstrI32AtomicStore k of
             Some eff \<Rightarrow> bindV (arg (ae_align eff)) (\<lambda>addr. runV [popExpect mv (effectValType (ae_typ eff)), popExpect mv addr])
           | None \<Rightarrow>
               if k = InstrAtomicRmw then
                 (let eff = atomicRmwEffect (in_AtomicOp i); t = effectValType (ae_typ eff)
                  in bindV (arg (ae_align eff)) (\<lambda>addr. runV [popExpect mv t, popExpect mv addr, push t]))
               else if k = InstrAtomicCmpxchg then
                 (let eff = atomicCmpxchgEffect (in_AtomicOp i); t = effectValType (ae_typ eff)
                  in bindV (arg (ae_align eff)) (\<lambda>addr. runV [popExpect mv t, popExpect mv t, popExpect mv addr, push t]))
               else failV ErrUnsupportedValidationOpcode))"

section \<open>Exceptions and typed calls\<close>

definition stepThrow :: "moduleValidator \<Rightarrow> u32 \<Rightarrow> unit vm" where
  "stepThrow mv index =
     bindV (orFail (tagFuncType (mv_m mv) index) ErrUnknownTag) (\<lambda>ft. runV [popAll mv (ct_Params ft), setUnreachable])"

definition stepCallRef :: "moduleValidator \<Rightarrow> Instruction \<Rightarrow> unit vm" where
  "stepCallRef mv i =
     bindV (orFail (funcTypeFromTypeIdx (mv_m mv) (absoluteIdx (in_Index i))) ErrUnknownType) (\<lambda>ft.
     bindV pop (\<lambda>callee.
       runV [rejectV (\<not> unknown callee \<and> \<not> fv_subtype mv callee (indexedRef True (in_Index i) False)) ErrTypeMismatch,
             popAll mv (ct_Params ft),
             finishCall mv (in_Kind i = InstrReturnCallRef) ft]))"

definition validateCatchPayload :: "moduleValidator \<Rightarrow> Catch \<Rightarrow> unit vm" where
  "validateCatchPayload mv c =
     bindV (label (ca_Label c)) (\<lambda>lt.
     bindV (if ca_Kind c = CatchTag \<or> ca_Kind c = CatchRef then
              bindV (rejectV (unat (ca_Tag c) \<ge> length (importsOfKind (mv_m mv) ExternTag) + length (m_Tags (mv_m mv))) ErrUnknownTag) (\<lambda>_.
              bindV (orFail (tagFuncType (mv_m mv) (ca_Tag c)) ErrUnknownTag) (\<lambda>ft. returnV (ct_Params ft)))
            else returnV []) (\<lambda>params.
       let hasRef = (ca_Kind c = CatchRef \<or> ca_Kind c = CatchAllRef)
       in rejectV (ca_Kind c = CatchAll \<and> lt \<noteq> [] \<or> length params + (if hasRef then 1 else 0) \<noteq> length lt \<or>
            \<not> list_all2 (fv_subtype mv) params (take (length params) lt) \<or>
            hasRef \<and> \<not> fv_subtype mv (RefVal (Ref False (AbsHeap HeapExn) False)) (lt ! length params)) ErrTypeMismatch))"

section \<open>Aggregates and casts\<close>

definition storageValType :: "StorageType \<Rightarrow> ValType" where
  "storageValType st = (if \<not> Storage_Packed st then Storage_Val st else I32)"

definition packedFieldGet :: "InstrKind \<Rightarrow> bool" where
  "packedFieldGet k \<longleftrightarrow> k \<in> set [InstrStructGetS, InstrStructGetU, InstrStructAtomicGetS, InstrStructAtomicGetU, InstrArrayGetS, InstrArrayGetU]"

definition valTypeDefaultable :: "ValType \<Rightarrow> bool" where
  "valTypeDefaultable t \<longleftrightarrow> ValType_Kind t \<noteq> ValRef \<or> Nullable (ValType_Ref t)"

definition descriptorTargetRefType :: "moduleValidator \<Rightarrow> bool \<Rightarrow> HeapType \<Rightarrow> bool \<Rightarrow> ValType option" where
  "descriptorTargetRefType mv nullable ht exact =
     (if HeapType_Kind ht = HeapTypeIndex \<and> v_subtypeByTypeIdxWithRecGroup (mv_m mv) (HeapType_Type ht) = None then None
      else Some (RefVal (Ref nullable ht exact)))"

text \<open>The flat index of the descriptor a struct type declares.\<close>

definition descriptorOf :: "moduleValidator \<Rightarrow> SubType \<Rightarrow> nat \<Rightarrow> u32 vm" where
  "descriptorOf mv st recGroup =
     (case OptionalTypeIdx_Get (tm_Descriptor (st_Metadata st)) of (descriptor, present) \<Rightarrow>
        if \<not> present then failV ErrTypeMismatch
        else bindV (orFail (v_flatTypeIdxInRecGroup (mv_m mv) descriptor (int recGroup)) ErrUnknownType) (\<lambda>flat. returnV (of_nat flat)))"

definition stepConvert :: "moduleValidator \<Rightarrow> InstrKind \<Rightarrow> unit vm" where
  "stepConvert mv k =
     (let (operand, result) = (if k = InstrExternConvertAny then (AnyRef, ExternRef) else (ExternRef, AnyRef))
      in bindV pop (\<lambda>x. runV [rejectV (\<not> unknown x \<and> \<not> fv_subtype mv x operand) ErrTypeMismatch,
           push (RefVal (WithNullable (\<not> unknown x \<and> Nullable (ValType_Ref x)) (ValType_Ref result)))]))"

definition stepRefTest :: "moduleValidator \<Rightarrow> Instruction \<Rightarrow> unit vm" where
  "stepRefTest mv i =
     bindV popRef (\<lambda>x.
     bindV (orFail (descriptorTargetRefType mv (TargetNullable (in_Cast i)) (in_HeapType i) False) ErrUnknownType) (\<lambda>target.
       runV [rejectV (\<not> unknown x \<and> \<not> (if in_Kind i = InstrRefTestDesc then descriptorCompatible (mv_m mv) (mv_ancestry mv) (ValType_Ref x) (ValType_Ref target)
               else refTestCompatible (mv_m mv) (ValType_Ref x) (ValType_Ref target))) ErrTypeMismatch,
             push I32]))"

text \<open>The descriptor operand of \<open>ref.cast_desc_eq\<close>.\<close>

definition popDescriptor :: "moduleValidator \<Rightarrow> Instruction \<Rightarrow> unit vm" where
  "popDescriptor mv i =
     (if HeapType_Kind (in_HeapType i) \<noteq> HeapTypeIndex then failV ErrTypeMismatch
      else bindV (orFail (v_subtypeByTypeIdxWithRecGroup (mv_m mv) (HeapType_Type (in_HeapType i))) ErrUnknownType) (\<lambda>(st, recGroup).
        bindV (rejectV (ct_Kind (st_Comp st) \<noteq> CompStruct) ErrTypeMismatch) (\<lambda>_.
        bindV (descriptorOf mv st recGroup) (\<lambda>d. popExpect mv (indexedRef True d (SourceNullable (in_Cast i)))))))"

definition stepRefCast :: "moduleValidator \<Rightarrow> Instruction \<Rightarrow> unit vm" where
  "stepRefCast mv i =
     bindV (orFail (descriptorTargetRefType mv (TargetNullable (in_Cast i)) (in_HeapType i) (SourceNullable (in_Cast i))) ErrUnknownType) (\<lambda>target.
     bindV (if in_Kind i = InstrRefCastDescEq then popDescriptor mv i else returnV ()) (\<lambda>_.
     bindV popRef (\<lambda>x.
       runV [rejectV (\<not> unknown x \<and> \<not> (if in_Kind i = InstrRefCastDescEq then descriptorCompatible (mv_m mv) (mv_ancestry mv) (ValType_Ref x) (ValType_Ref target)
               else refTestCompatible (mv_m mv) (ValType_Ref x) (ValType_Ref target))) ErrTypeMismatch,
             push target])))"

definition stepRefGetDesc :: "moduleValidator \<Rightarrow> u32 \<Rightarrow> unit vm" where
  "stepRefGetDesc mv index =
     bindV (orFail (structFields (mv_m mv) (absoluteIdx index)) ErrUnknownType) (\<lambda>(_, st, recGroup).
     bindV (descriptorOf mv st recGroup) (\<lambda>d.
     bindV popRef (\<lambda>x.
       runV [rejectV (\<not> unknown x \<and> \<not> fv_refSubtype mv (ValType_Ref x) (Ref True (IndexedHeap (absoluteIdx index)) False)) ErrTypeMismatch,
             push (indexedRef False d True)])))"

definition stepStructNew :: "moduleValidator \<Rightarrow> Instruction \<Rightarrow> unit vm" where
  "stepStructNew mv i =
     (let k = in_Kind i
      in bindV (orFail (structFields (mv_m mv) (absoluteIdx (in_Index i))) ErrUnknownType) (\<lambda>(fields, st, recGroup).
           runV [rejectV ((k = InstrStructNew \<or> k = InstrStructNewDefault) \<and> OptionalTypeIdx_Present (tm_Descriptor (st_Metadata st))) ErrTypeMismatch,
                 if k = InstrStructNewDefault \<or> k = InstrStructNewDefaultDesc then
                   rejectV (list_ex (\<lambda>f. \<not> Storage_Packed (Field_Storage f) \<and> \<not> valTypeDefaultable (storageValType (Field_Storage f))) fields) ErrTypeMismatch
                 else popAll mv (map (\<lambda>f. storageValType (Field_Storage f)) fields),
                 if k = InstrStructNewDesc \<or> k = InstrStructNewDefaultDesc then
                   bindV (descriptorOf mv st recGroup) (\<lambda>d. popExpect mv (indexedRef False d True))
                 else returnV (),
                 push (indexedRef False (in_Index i) False)]))"

definition fieldAt :: "moduleValidator \<Rightarrow> Instruction \<Rightarrow> FieldType vm" where
  "fieldAt mv i =
     bindV (orFail (structFields (mv_m mv) (absoluteIdx (in_Index i))) ErrUnknownType) (\<lambda>(fields, _, _).
       if unat (in_Index2 i) \<ge> length fields then failV ErrTypeMismatch else returnV (fields ! unat (in_Index2 i)))"

definition stepStructGet :: "moduleValidator \<Rightarrow> Instruction \<Rightarrow> unit vm" where
  "stepStructGet mv i =
     bindV (fieldAt mv i) (\<lambda>f.
       runV [rejectV (Storage_Packed (Field_Storage f) \<noteq> packedFieldGet (in_Kind i)) ErrTypeMismatch,
             popExpect mv (indexedRef True (in_Index i) False), push (storageValType (Field_Storage f))])"

definition stepStructSet :: "moduleValidator \<Rightarrow> Instruction \<Rightarrow> unit vm" where
  "stepStructSet mv i =
     bindV (fieldAt mv i) (\<lambda>f.
       runV [rejectV (Field_Mut f \<noteq> Var) ErrTypeMismatch,
             popExpect mv (storageValType (Field_Storage f)), popExpect mv (indexedRef True (in_Index i) False)])"

definition arrayFieldOf :: "moduleValidator \<Rightarrow> u32 \<Rightarrow> FieldType vm" where
  "arrayFieldOf mv index = bindV (orFail (arrayField (mv_m mv) (absoluteIdx index)) ErrUnknownType) (\<lambda>(f, _). returnV f)"

text \<open>
  \<open>array.new_fixed\<close> checks the operands that are there; the missing ones of an unreachable frame are of unknown
  type, so that a huge count costs no iterations.
\<close>

definition popFixed :: "moduleValidator \<Rightarrow> u32 \<Rightarrow> ValType \<Rightarrow> unit vm" where
  "popFixed mv n elem =
     bindV topFrame (\<lambda>f. bindV getV (\<lambda>v.
       let available = length (vals v) - cf_height f
       in if unat n > available \<and> \<not> cf_unreachable f then failV ErrTypeMismatch
          else runV (replicate (if unat n < available then unat n else available) (popExpect mv elem))))"

definition stepArrayNew :: "moduleValidator \<Rightarrow> Instruction \<Rightarrow> unit vm" where
  "stepArrayNew mv i =
     (let k = in_Kind i
      in bindV (arrayFieldOf mv (in_Index i)) (\<lambda>f.
           let st = Field_Storage f; elem = storageValType st
           in runV [if k = InstrArrayNew then runV [popExpect mv I32, popExpect mv elem]
                    else if k = InstrArrayNewDefault then
                      runV [rejectV (\<not> Storage_Packed st \<and> \<not> valTypeDefaultable elem) ErrTypeMismatch, popExpect mv I32]
                    else if k = InstrArrayNewFixed then popFixed mv (in_Index2 i) elem
                    else if k = InstrArrayNewData then
                      runV [rejectV (\<not> Storage_Packed st \<and> ValType_Kind (Storage_Val st) = ValRef) ErrTypeMismatch,
                            checkDataIndex mv (in_Index2 i), popExpect mv I32, popExpect mv I32]
                    else if k = InstrArrayNewElem then
                      bindV (rejectV (Storage_Packed st \<or> ValType_Kind (Storage_Val st) \<noteq> ValRef) ErrTypeMismatch) (\<lambda>_.
                      bindV (checkV (elemRefType mv (in_Index2 i))) (\<lambda>elemRef.
                        runV [rejectV (\<not> fv_refSubtype mv elemRef (ValType_Ref (Storage_Val st))) ErrTypeMismatch, popExpect mv I32, popExpect mv I32]))
                    else returnV (),
                    push (indexedRef False (in_Index i) False)]))"

definition stepArrayGet :: "moduleValidator \<Rightarrow> Instruction \<Rightarrow> unit vm" where
  "stepArrayGet mv i =
     bindV (arrayFieldOf mv (in_Index i)) (\<lambda>f.
       runV [rejectV (Storage_Packed (Field_Storage f) \<noteq> packedFieldGet (in_Kind i)) ErrTypeMismatch,
             popExpect mv I32, popExpect mv (indexedRef True (in_Index i) False), push (storageValType (Field_Storage f))])"

definition stepArraySet :: "moduleValidator \<Rightarrow> Instruction \<Rightarrow> unit vm" where
  "stepArraySet mv i =
     bindV (arrayFieldOf mv (in_Index i)) (\<lambda>f.
       runV ([rejectV (Field_Mut f \<noteq> Var) ErrTypeMismatch] @ (if in_Kind i = InstrArrayFill then [popExpect mv I32] else []) @
             [popExpect mv (storageValType (Field_Storage f)), popExpect mv I32, popExpect mv (indexedRef True (in_Index i) False)]))"

definition stepArrayLen :: "moduleValidator \<Rightarrow> unit vm" where
  "stepArrayLen mv =
     bindV pop (\<lambda>x.
       runV [rejectV (\<not> unknown x \<and> (ValType_Kind x \<noteq> ValRef \<or>
               \<not> heapSubtype (mv_m mv) (mv_ancestry mv) (RefType_Heap (ValType_Ref x)) (AbsHeap HeapArray))) ErrTypeMismatch,
             push I32])"

definition stepArrayCopy :: "moduleValidator \<Rightarrow> Instruction \<Rightarrow> unit vm" where
  "stepArrayCopy mv i =
     bindV (arrayFieldOf mv (in_Index i)) (\<lambda>dst. bindV (arrayFieldOf mv (in_Index2 i)) (\<lambda>src.
       let ds = Field_Storage dst; ss = Field_Storage src
       in runV [rejectV (Field_Mut dst \<noteq> Var) ErrTypeMismatch,
                rejectV (\<not> (if Storage_Packed ds \<or> Storage_Packed ss then Storage_Packed ds \<and> Storage_Packed ss \<and> Storage_Pack ds = Storage_Pack ss
                  else fv_subtype mv (Storage_Val ss) (Storage_Val ds))) ErrTypeMismatch,
                popExpect mv I32, popExpect mv I32, popExpect mv (indexedRef True (in_Index2 i) False),
                popExpect mv I32, popExpect mv (indexedRef True (in_Index i) False)]))"

definition stepArrayInit :: "moduleValidator \<Rightarrow> Instruction \<Rightarrow> unit vm" where
  "stepArrayInit mv i =
     bindV (arrayFieldOf mv (in_Index i)) (\<lambda>f.
       let st = Field_Storage f
       in bindV (rejectV (Field_Mut f \<noteq> Var) ErrTypeMismatch) (\<lambda>_.
          bindV (if in_Kind i = InstrArrayInitData then
                   bindV (rejectV (\<not> Storage_Packed st \<and> ValType_Kind (Storage_Val st) = ValRef) ErrTypeMismatch) (\<lambda>_. checkDataIndex mv (in_Index2 i))
                 else bindV (rejectV (Storage_Packed st \<or> ValType_Kind (Storage_Val st) \<noteq> ValRef) ErrTypeMismatch) (\<lambda>_.
                   bindV (checkV (elemRefType mv (in_Index2 i))) (\<lambda>elemRef.
                     rejectV (\<not> fv_refSubtype mv elemRef (ValType_Ref (Storage_Val st))) ErrTypeMismatch))) (\<lambda>_.
            runV [popExpect mv I32, popExpect mv I32, popExpect mv I32, popExpect mv (indexedRef True (in_Index i) False)])))"

definition stepBrOnCast :: "moduleValidator \<Rightarrow> Instruction \<Rightarrow> unit vm" where
  "stepBrOnCast mv i =
     bindV (label (in_Index i)) (\<lambda>lt.
       let rt1 = Ref (SourceNullable (in_Cast i)) (in_HeapType i) False; rt2 = Ref (TargetNullable (in_Cast i)) (in_HeapType2 i) False;
           failed = (if Nullable rt2 then WithNullable False rt1 else rt1);
           (taken, left) = (if in_Kind i = InstrBrOnCastFail then (failed, rt2) else (rt2, failed))
       in bindV (rejectV (lt = [] \<or> ValType_Kind (last lt) \<noteq> ValRef \<or> \<not> fv_refSubtype mv rt2 rt1) ErrTypeMismatch) (\<lambda>_.
          bindV pop (\<lambda>x.
            runV [rejectV (\<not> unknown x \<and> (ValType_Kind x \<noteq> ValRef \<or> \<not> fv_refSubtype mv (ValType_Ref x) rt1)) ErrTypeMismatch,
                  rejectV (\<not> fv_subtype mv (RefVal taken) (last lt)) ErrTypeMismatch,
                  popAll mv (butlast lt), pushAll (butlast lt), push (RefVal left)])))"

definition stepGC :: "moduleValidator \<Rightarrow> Instruction \<Rightarrow> unit vm" where
  "stepGC mv i =
     (let k = in_Kind i
      in if k = InstrRefI31 then runV [popExpect mv I32, push (RefVal (Ref False (AbsHeap HeapI31) False))]
         else if k = InstrI31GetS \<or> k = InstrI31GetU then runV [popExpect mv I31Ref, push I32]
         else if k = InstrAnyConvertExtern \<or> k = InstrExternConvertAny then stepConvert mv k
         else if k = InstrRefTest \<or> k = InstrRefTestDesc then stepRefTest mv i
         else if k = InstrRefCast \<or> k = InstrRefCastDescEq then stepRefCast mv i
         else if k = InstrBrOnCast \<or> k = InstrBrOnCastFail then stepBrOnCast mv i
         else if k = InstrRefGetDesc then stepRefGetDesc mv (in_Index i)
         else if k \<in> set [InstrStructNew, InstrStructNewDefault, InstrStructNewDesc, InstrStructNewDefaultDesc] then stepStructNew mv i
         else if k \<in> set [InstrStructGet, InstrStructGetS, InstrStructGetU, InstrStructAtomicGet, InstrStructAtomicGetS, InstrStructAtomicGetU] then stepStructGet mv i
         else if k = InstrStructSet then stepStructSet mv i
         else if k \<in> set [InstrArrayNew, InstrArrayNewDefault, InstrArrayNewFixed, InstrArrayNewData, InstrArrayNewElem] then stepArrayNew mv i
         else if k = InstrArrayGet \<or> k = InstrArrayGetS \<or> k = InstrArrayGetU then stepArrayGet mv i
         else if k = InstrArraySet \<or> k = InstrArrayFill then stepArraySet mv i
         else if k = InstrArrayLen then stepArrayLen mv
         else if k = InstrArrayCopy then stepArrayCopy mv i
         else if k = InstrArrayInitData \<or> k = InstrArrayInitElem then stepArrayInit mv i
         else failV ErrUnsupportedValidationOpcode)"

definition gcKinds :: "InstrKind list" where
  "gcKinds =
     [InstrStructNew, InstrStructNewDefault, InstrStructNewDesc, InstrStructNewDefaultDesc,
      InstrStructGet, InstrStructGetS, InstrStructGetU, InstrStructAtomicGet, InstrStructAtomicGetS, InstrStructAtomicGetU, InstrStructSet,
      InstrArrayNew, InstrArrayNewDefault, InstrArrayNewFixed, InstrArrayNewData, InstrArrayNewElem,
      InstrArrayGet, InstrArrayGetS, InstrArrayGetU, InstrArraySet, InstrArrayLen, InstrArrayFill, InstrArrayCopy, InstrArrayInitData, InstrArrayInitElem,
      InstrRefGetDesc, InstrRefTest, InstrRefCast, InstrRefTestDesc, InstrRefCastDescEq, InstrBrOnCast, InstrBrOnCastFail,
      InstrAnyConvertExtern, InstrExternConvertAny, InstrRefI31, InstrI31GetS, InstrI31GetU]"

definition atomicKinds :: "InstrKind list" where
  "atomicKinds =
     [InstrMemoryAtomicNotify, InstrMemoryAtomicWait32, InstrMemoryAtomicWait64, InstrAtomicFence,
      InstrI32AtomicLoad, InstrI64AtomicLoad, InstrI32AtomicLoad8U, InstrI32AtomicLoad16U,
      InstrI64AtomicLoad8U, InstrI64AtomicLoad16U, InstrI64AtomicLoad32U,
      InstrI32AtomicStore, InstrI64AtomicStore, InstrI32AtomicStore8, InstrI32AtomicStore16,
      InstrI64AtomicStore8, InstrI64AtomicStore16, InstrI64AtomicStore32,
      InstrAtomicRmw, InstrAtomicCmpxchg]"

section \<open>Structured instructions\<close>

text \<open>A block of nested actions in a frame of its own.\<close>

definition stepBlock :: "moduleValidator \<Rightarrow> ctrlKind \<Rightarrow> ValType list \<Rightarrow> ValType list \<Rightarrow> unit vm list \<Rightarrow> unit vm" where
  "stepBlock mv k ins outs body = runV ([pushCtrl mv k ins outs] @ body @ [bindV (popCtrl mv) (\<lambda>_. returnV ())])"

definition stepTryTable :: "moduleValidator \<Rightarrow> Instruction \<Rightarrow> unit vm list \<Rightarrow> unit vm" where
  "stepTryTable mv i body =
     bindV (blockSig mv (x_BlockType (extOf i))) (\<lambda>(ins, outs).
       runV (map (validateCatchPayload mv) (x_Catches (extOf i)) @ [stepBlock mv ctrlTry ins outs body]))"

text \<open>
  Both arms start from the stacks at the condition; the values of the first one stay. Without an else arm the block
  inputs must do as results.
\<close>

definition secondArm :: "moduleValidator \<Rightarrow> ValType list \<Rightarrow> ValType list \<Rightarrow> unit vm list \<Rightarrow> ValType list \<Rightarrow> unit vm" where
  "secondArm mv ins outs els thenVals =
     bindV (if els \<noteq> [] then stepBlock mv ctrlIf ins outs els else rejectV (\<not> matchValTypes mv ins outs) ErrTypeMismatch) (\<lambda>_.
     bindV getV (\<lambda>v. runV [rejectV (els \<noteq> [] \<and> length (vals v) \<noteq> length thenVals) ErrTypeMismatch, restoreVals thenVals]))"

definition stepArms :: "moduleValidator \<Rightarrow> ValType list \<Rightarrow> ValType list \<Rightarrow> unit vm list \<Rightarrow> unit vm list \<Rightarrow> unit vm" where
  "stepArms mv ins outs thn els base =
     (case stepBlock mv ctrlIf ins outs thn base of
        Inl e \<Rightarrow> Inl e
      | Inr (_, v) \<Rightarrow> secondArm mv ins outs els (vals v) (v\<lparr>vals := vals base, ctrls := ctrls base\<rparr>))"

definition stepIf :: "moduleValidator \<Rightarrow> Instruction \<Rightarrow> unit vm list \<Rightarrow> unit vm list \<Rightarrow> unit vm" where
  "stepIf mv i thn els =
     bindV (blockSig mv (x_BlockType (extOf i))) (\<lambda>(ins, outs). runV [popExpect mv I32, stepArms mv ins outs thn els])"

text \<open>Instructions the first dispatcher leaves to the proposals; \<open>None\<close> is one they do not handle.\<close>

definition proposalStep :: "moduleValidator \<Rightarrow> Instruction \<Rightarrow> unit vm list \<Rightarrow> unit vm option" where
  "proposalStep mv i body =
     (let k = in_Kind i
      in if k \<in> set [InstrI64Add128, InstrI64Sub128, InstrI64MulWideS, InstrI64MulWideU] then Some (stepWide mv k)
         else if k = InstrThrow then Some (stepThrow mv (in_Index i))
         else if k = InstrThrowRef then Some (runV [popExpect mv (RefVal (AbsRef HeapExn)), setUnreachable])
         else if k = InstrTryTable then Some (stepTryTable mv i body)
         else if k = InstrCallRef \<or> k = InstrReturnCallRef then Some (stepCallRef mv i)
         else if k \<in> set atomicKinds then Some (stepAtomic mv i)
         else if k \<in> set gcKinds then Some (stepGC mv i)
         else if k < numInstrKinds \<and> se_cat (simdEffects k) \<noteq> simdNone then Some (stepSIMD mv i)
         else None)"

text \<open>One instruction, given the actions of its nested bodies.\<close>

definition stepKind :: "moduleValidator \<Rightarrow> unit vm list \<Rightarrow> unit vm list \<Rightarrow> unit vm list \<Rightarrow> Instruction \<Rightarrow> unit vm" where
  "stepKind mv body thn els i =
     (let k = in_Kind i
      in if k \<in> set [InstrI64Add128, InstrI64Sub128, InstrI64MulWideS, InstrI64MulWideU] then stepWide mv k
         else if k = InstrUnreachable then setUnreachable
         else if k = InstrNop then returnV ()
         else if k = InstrBlock \<or> k = InstrLoop then bindV (blockSig mv (x_BlockType (extOf i))) (\<lambda>(ins, outs).
           stepBlock mv (if k = InstrLoop then ctrlLoop else ctrlBlock) ins outs body)
         else if k = InstrIf then stepIf mv i thn els
         else if k = InstrBr \<or> k = InstrBrIf then stepBranch mv k (in_Index i)
         else if k = InstrBrTable then stepBrTable mv i
         else if k = InstrReturn then bindV funcResults (\<lambda>outs. runV [popAll mv outs, setUnreachable])
         else if k = InstrCall \<or> k = InstrReturnCall then stepCall mv k (in_Index i)
         else if k = InstrCallIndirect \<or> k = InstrReturnCallIndirect then stepCallIndirect mv i
         else if k = InstrDrop then bindV pop (\<lambda>_. returnV ())
         else if k = InstrSelect then stepSelect mv i
         else if k \<in> set [InstrLocalGet, InstrLocalSet, InstrLocalTee] then stepLocalIndex mv k (in_Index i)
         else if k = InstrGlobalGet \<or> k = InstrGlobalSet then stepGlobal mv k (in_Index i)
         else if k \<in> set [InstrTableGet, InstrTableSet, InstrTableInit, InstrTableCopy, InstrTableSize, InstrTableGrow, InstrTableFill] then stepTable mv i
         else if k = InstrI32Const then push I32
         else if k = InstrI64Const then push I64
         else if k = InstrF32Const then push F32
         else if k = InstrF64Const then push F64
         else if k \<in> set [InstrRefNull, InstrRefFunc, InstrRefIsNull, InstrRefEq, InstrStringConst, InstrRefAsNonNull] then stepRef mv i
         else if k = InstrBrOnNull then stepBrOnNull mv (in_Index i)
         else if k = InstrBrOnNonNull then stepBrOnNonNull mv (in_Index i)
         else if k \<in> set [InstrMemoryInit, InstrMemoryCopy, InstrMemoryFill, InstrDataDrop] then stepBulkMemory mv i
         else if k = InstrElemDrop then
           rejectV (unat (in_Index i) \<ge> (case mv_direct mv of Some es \<Rightarrow> length es | None \<Rightarrow> length (m_Elements (mv_m mv)))) ErrUnknownTable
         else case proposalStep mv i body of Some f \<Rightarrow> f | None \<Rightarrow> stackEffect mv i)"

definition constAllowed :: "moduleValidator \<Rightarrow> InstrKind \<Rightarrow> bool" where
  "constAllowed mv k \<longleftrightarrow> isConstInstruction k \<or>
     GCConstExpr (mv_features mv) \<and>
       k \<in> set [InstrStructNew, InstrArrayNew, InstrArrayNewDefault, InstrRefI31, InstrAnyConvertExtern, InstrExternConvertAny]"

definition stepNode :: "moduleValidator \<Rightarrow> unit vm list \<Rightarrow> unit vm list \<Rightarrow> unit vm list \<Rightarrow> Instruction \<Rightarrow> unit vm" where
  "stepNode mv body thn els i =
     (let k = in_Kind i; e = opEffects k; a = effectValType (oe_a e)
      in if k \<ge> numInstrKinds then failV ErrUnsupportedValidationOpcode
         else runV [bindV getV (\<lambda>v. rejectV (constOnly v \<and> \<not> constAllowed mv k) ErrConstExprRequired),
                    runV (map (\<lambda>t. checkV (validateValType (mv_m mv) t)) (in_ValTypes i)),
                    if oe_cat e = effLoad then bindV (checkMemArg mv (in_MemArg i) (oe_align e)) (\<lambda>addr. runV [popExpect mv addr, push a])
                    else if oe_cat e = effStore then bindV (checkMemArg mv (in_MemArg i) (oe_align e)) (\<lambda>addr. runV [popExpect mv a, popExpect mv addr])
                    else stepKind mv body thn els i])"

lemma nested_smaller:
  assumes "j \<in> set (x_Body (extOf i)) \<or> j \<in> set (x_Then (extOf i)) \<or> j \<in> set (x_Else (extOf i))"
  shows "size j < size i"
proof -
  obtain x where x: "in_ext i = Some x" using assms by (cases "in_ext i") (auto simp: extOf_def zeroExt_def)
  obtain bt b t e c n v m l r h h2 where e: "x = instrExt bt b t e c n v m l r h h2" by (cases x)
  have "size x < size i" using x by (cases i) auto
  moreover have "size j \<le> size_list size b \<or> size j \<le> size_list size t \<or> size j \<le> size_list size e"
    using assms x by (auto simp: extOf_def e intro: size_list_estimation')
  ultimately show ?thesis by (auto simp: e)
qed

function step :: "moduleValidator \<Rightarrow> Instruction \<Rightarrow> unit vm" where
  "step mv i = stepNode mv (map (step mv) (x_Body (extOf i))) (map (step mv) (x_Then (extOf i))) (map (step mv) (x_Else (extOf i))) i"
  by pat_completeness auto
termination
  by (relation "measure (\<lambda>(mv, i). size i)") (auto simp: nested_smaller)

declare step.simps [simp del]

end
