(* ===== verification/BodySound.thy ===== *)
theory BodySound
  imports BodySteps
begin

text \<open>
  What the validation of an instruction keeps: every step of \<^verbatim>\<open>validate_ops.go\<close> and \<^verbatim>\<open>validate_proposal.go\<close>
  stays inside the current control frame, and a block leaves the stack at its parameters' place with its results.
\<close>

section \<open>Single instructions\<close>

lemma framed_get [frame_rules]: "framed getV"
  by (rule framedI) (auto simp: getV_def kept_refl)

lemma framed_funcResults [frame_rules]: "framed funcResults"
  by (rule framedI) (auto simp: funcResults_def kept_refl split: if_splits)

lemma framed_case_prod [frame_rules]: "(\<And>a b. framed (f a b)) \<Longrightarrow> framed (case p of (a, b) \<Rightarrow> f a b)"
  by (cases p) simp

lemma framed_option [frame_rules]: "framed f \<Longrightarrow> (\<And>x. framed (g x)) \<Longrightarrow> framed (case p of None \<Rightarrow> f | Some x \<Rightarrow> g x)"
  by (cases p) simp_all

lemma framed_Let [frame_rules]: "(\<And>x. framed (f x)) \<Longrightarrow> framed (let x = t in f x)"
  by simp

lemma framed_checkMemArg [frame_rules]: "framed (checkMemArg mv ma n)"
  unfolding checkMemArg_def by (intro frame_rules)

lemma framed_checkAtomicMemArg [frame_rules]: "framed (checkAtomicMemArg mv ma n)"
  unfolding checkAtomicMemArg_def by (intro frame_rules)

lemma framed_checkDataIndex [frame_rules]: "framed (checkDataIndex mv i)"
  unfolding checkDataIndex_def by (intro frame_rules)

lemma framed_tableAddrType [frame_rules]: "framed (tableAddrType mv i)"
  unfolding tableAddrType_def by (intro frame_rules)

lemma framed_blockSig [frame_rules]: "framed (blockSig mv bt)"
  by (cases "bt_Kind bt") (auto simp: blockSig_def intro!: frame_rules)

lemma framed_runs [frame_rules]: "framed (runV [])" "framed f \<Longrightarrow> framed (runV fs) \<Longrightarrow> framed (runV (f # fs))"
  by (auto intro!: frame_rules)

declare framed_run [frame_rules del]

lemma framed_replicate [frame_rules]: "framed f \<Longrightarrow> framed (runV (replicate n f))"
  by (auto intro: framed_run)

lemma bind_assoc: "bindV (bindV f g) h = bindV f (\<lambda>x. bindV (g x) h)"
  by (rule ext) (simp add: bindV_def split: sum.split prod.split)

lemma run_append: "runV (fs @ gs) = bindV (runV fs) (\<lambda>_. runV gs)"
  by (induction fs) (simp_all add: bind_assoc, simp add: bindV_def returnV_def)

lemma framed_run_append [frame_rules]: "framed (runV fs) \<Longrightarrow> framed (runV gs) \<Longrightarrow> framed (runV (fs @ gs))"
  unfolding run_append by (rule framed_bind)

lemma framed_run_if [frame_rules]: "framed (runV fs) \<Longrightarrow> framed (runV gs) \<Longrightarrow> framed (runV (if b then fs else gs))"
  by simp

lemma framed_run_map [frame_rules]: "(\<And>x. x \<in> set xs \<Longrightarrow> framed (f x)) \<Longrightarrow> framed (runV (map f xs))"
  by (rule framed_run) auto

lemma framed_stepBranch [frame_rules]: "framed (stepBranch mv k i)"
  unfolding stepBranch_def by (intro frame_rules)

lemma framed_finishCall [frame_rules]: "framed (finishCall mv t ft)"
  unfolding finishCall_def by (intro frame_rules)

lemma framed_stepCall [frame_rules]: "framed (stepCall mv k i)"
  unfolding stepCall_def by (intro frame_rules)

lemma framed_stepCallIndirect [frame_rules]: "framed (stepCallIndirect mv i)"
  unfolding stepCallIndirect_def by (intro frame_rules)

lemma framed_stepSelect [frame_rules]: "framed (stepSelect mv i)"
  unfolding stepSelect_def by (intro frame_rules)

lemma framed_stepLocalIndex [frame_rules]: "framed (stepLocalIndex mv k i)"
  unfolding stepLocalIndex_def by (intro frame_rules)

lemma framed_stepGlobal [frame_rules]: "framed (stepGlobal mv k i)"
  unfolding stepGlobal_def by (intro frame_rules)

lemma framed_stepTable [frame_rules]: "framed (stepTable mv i)"
  unfolding stepTable_def by (intro frame_rules)

lemma framed_stepBulkMemory [frame_rules]: "framed (stepBulkMemory mv i)"
  unfolding stepBulkMemory_def by (intro frame_rules)

lemma framed_popRef [frame_rules]: "framed popRef"
  unfolding popRef_def by (intro frame_rules)

lemma framed_stepRef [frame_rules]: "framed (stepRef mv i)"
  unfolding stepRef_def by (intro frame_rules)

lemma framed_stepBrOnNull [frame_rules]: "framed (stepBrOnNull mv i)"
  unfolding stepBrOnNull_def by (intro frame_rules)

lemma framed_stepBrOnNonNull [frame_rules]: "framed (stepBrOnNonNull mv i)"
  unfolding stepBrOnNonNull_def by (intro frame_rules)

lemma framed_stepWide [frame_rules]: "framed (stepWide mv k)"
  unfolding stepWide_def by (intro frame_rules)

lemma framed_stepAtomic [frame_rules]: "framed (stepAtomic mv i)"
  unfolding stepAtomic_def Let_def by (intro frame_rules)

lemma framed_stepThrow [frame_rules]: "framed (stepThrow mv i)"
  unfolding stepThrow_def by (intro frame_rules)

lemma framed_stepCallRef [frame_rules]: "framed (stepCallRef mv i)"
  unfolding stepCallRef_def by (intro frame_rules)

lemma framed_validateCatchPayload [frame_rules]: "framed (validateCatchPayload mv c)"
  unfolding validateCatchPayload_def by (intro frame_rules)

lemma framed_descriptorOf [frame_rules]: "framed (descriptorOf mv st g)"
  unfolding descriptorOf_def by (intro frame_rules)

lemma framed_stepConvert [frame_rules]: "framed (stepConvert mv k)"
  unfolding stepConvert_def by (intro frame_rules)

lemma framed_stepRefTest [frame_rules]: "framed (stepRefTest mv i)"
  unfolding stepRefTest_def by (intro frame_rules)

lemma framed_popDescriptor [frame_rules]: "framed (popDescriptor mv i)"
  unfolding popDescriptor_def by (intro frame_rules)

lemma framed_stepRefCast [frame_rules]: "framed (stepRefCast mv i)"
  unfolding stepRefCast_def by (intro frame_rules)

lemma framed_stepRefGetDesc [frame_rules]: "framed (stepRefGetDesc mv i)"
  unfolding stepRefGetDesc_def by (intro frame_rules)

lemma framed_stepStructNew [frame_rules]: "framed (stepStructNew mv i)"
  unfolding stepStructNew_def by (intro frame_rules)

lemma framed_fieldAt [frame_rules]: "framed (fieldAt mv i)"
  unfolding fieldAt_def by (intro frame_rules)

lemma framed_stepStructGet [frame_rules]: "framed (stepStructGet mv i)"
  unfolding stepStructGet_def by (intro frame_rules)

lemma framed_stepStructSet [frame_rules]: "framed (stepStructSet mv i)"
  unfolding stepStructSet_def by (intro frame_rules)

lemma framed_arrayFieldOf [frame_rules]: "framed (arrayFieldOf mv i)"
  unfolding arrayFieldOf_def by (intro frame_rules)

lemma framed_popFixed [frame_rules]: "framed (popFixed mv n t)"
  unfolding popFixed_def by (intro frame_rules)

lemma framed_stepArrayNew [frame_rules]: "framed (stepArrayNew mv i)"
  unfolding stepArrayNew_def by (intro frame_rules)

lemma framed_stepArrayGet [frame_rules]: "framed (stepArrayGet mv i)"
  unfolding stepArrayGet_def by (intro frame_rules)

lemma framed_stepArraySet [frame_rules]: "framed (stepArraySet mv i)"
  unfolding stepArraySet_def by (intro frame_rules)

lemma framed_stepArrayLen [frame_rules]: "framed (stepArrayLen mv)"
  unfolding stepArrayLen_def by (intro frame_rules)

lemma framed_stepArrayCopy [frame_rules]: "framed (stepArrayCopy mv i)"
  unfolding stepArrayCopy_def by (intro frame_rules)

lemma framed_stepArrayInit [frame_rules]: "framed (stepArrayInit mv i)"
  unfolding stepArrayInit_def by (intro frame_rules)

lemma framed_stepBrOnCast [frame_rules]: "framed (stepBrOnCast mv i)"
  unfolding stepBrOnCast_def by (intro frame_rules)

lemma framed_stepGC [frame_rules]: "framed (stepGC mv i)"
  unfolding stepGC_def by (intro frame_rules)

lemma framed_stackEffect [frame_rules]: "framed (stackEffect mv i)"
  unfolding stackEffect_def by (cases "oe_cat (opEffects (in_Kind i))") (simp_all only: Let_def opEffectCat.case, (intro frame_rules)+)

lemma framed_stepSIMD [frame_rules]: "framed (stepSIMD mv i)"
  unfolding stepSIMD_def by (cases "se_cat (simdEffects (in_Kind i))") (simp_all only: Let_def simdEffectCat.case, (intro frame_rules)+)

section \<open>Branch tables\<close>

text \<open>Changing stamps only.\<close>

lemma restamped:
  assumes "stack_ok v" "ctrls v \<noteq> []" "map frame_core fs = map frame_core (ctrls v)"
  shows "stack_ok (v\<lparr>ctrls := fs, branchTableEpoch := e\<rparr>) \<and> kept v (v\<lparr>ctrls := fs, branchTableEpoch := e\<rparr>)"
proof -
  have h: "map cf_height fs = map cf_height (ctrls v)" "map cf_initHeight fs = map cf_initHeight (ctrls v)"
    using arg_cong [OF assms(3), of "map cf_height"] arg_cong [OF assms(3), of "map cf_initHeight"] by (simp_all add: comp_def core_height)
  have "fs \<noteq> []" using assms(2,3) by auto
  then show ?thesis using assms h by (simp add: stack_ok_def lookup_ok_def kept_def same_setting_def)
qed

lemma framed_beginBranchTable [frame_rules]: "framed beginBranchTable"
proof (rule framedI)
  fix v x v' assume v: "stack_ok v" "ctrls v \<noteq> []" "beginBranchTable v = Inr (x, v')"
  let ?e = "branchTableEpoch v + 1"
  let ?fs = "if ?e = 0 then map (\<lambda>f. f\<lparr>cf_branchTableEpoch := 0\<rparr>) (ctrls v) else ctrls v"
  have "v' = v\<lparr>ctrls := ?fs, branchTableEpoch := if ?e = 0 then 1 else ?e\<rparr>" using v(3) by (auto simp: beginBranchTable_def Let_def)
  moreover have "map frame_core ?fs = map frame_core (ctrls v)" by (simp add: frame_core_def)
  ultimately show "stack_ok v' \<and> kept v v'" using restamped [OF v(1,2)] by presburger
qed (simp add: beginBranchTable_def)

lemma core_update: "map frame_core (xs[i := (xs ! i)\<lparr>cf_branchTableEpoch := e\<rparr>]) = map frame_core xs"
  by (cases "i < length xs") (simp_all add: map_update frame_core_def list_update_same_conv list_update_beyond)

text \<open>A step that starts at a state with the given operands and may restore them.\<close>

definition framed_at :: "'a vm \<Rightarrow> funcValidator \<Rightarrow> bool" where
  "framed_at f v \<longleftrightarrow> (case f v of Inl e \<Rightarrow> e \<noteq> Panic | Inr (x, v') \<Rightarrow> stack_ok v' \<and> kept v v')"

lemma framed_here: "framed f \<Longrightarrow> stack_ok v \<Longrightarrow> ctrls v \<noteq> [] \<Longrightarrow> framed_at f v"
  by (simp add: framed_def framed_at_def)

lemma framed_at_bind:
  assumes "framed_at f v" "\<And>x v'. f v = Inr (x, v') \<Longrightarrow> stack_ok v' \<Longrightarrow> ctrls v' \<noteq> [] \<Longrightarrow> kept v v' \<Longrightarrow> framed_at (k x) v'"
  shows "framed_at (bindV f k) v"
proof (cases "f v")
  case (Inl e)
  then show ?thesis using assms(1) by (simp add: framed_at_def bindV_def)
next
  case (Inr r)
  then obtain x v' where r: "f v = Inr (x, v')" by (cases r) auto
  then have v': "stack_ok v'" "kept v v'" using assms(1) by (simp_all add: framed_at_def)
  then have "framed_at (k x) v'" using assms(2) [OF r] kept_height by blast
  then show ?thesis using r v'(2) kept_trans by (auto simp: framed_at_def bindV_def split: sum.splits)
qed

lemma framed_at_restore:
  assumes "stack_ok v" "kept w v" "stack_ok w" "ctrls w \<noteq> []"
  shows "framed_at (restoreVals (vals w)) v"
proof -
  have h: "cf_height (last (ctrls v)) = cf_height (last (ctrls w))" "ctrls v \<noteq> []" using kept_height [OF assms(2)] by simp_all
  have "cf_height (last (ctrls w)) \<le> length (vals w)" using assms(3,4) stack_ok_height by simp
  moreover have "take (cf_height (last (ctrls w))) (vals w) = take (cf_height (last (ctrls w))) (vals v)" using assms(2) by (simp add: kept_def)
  ultimately show ?thesis using assms(1) h stack_ok_vals kept_vals by (simp add: framed_at_def restoreVals_def)
qed

text \<open>Marking needs a label inside the control stack, which \<open>label\<close> has checked.\<close>

lemma label_inside: "label l v = Inr (ts, v') \<Longrightarrow> v' = v \<and> unat l < length (ctrls v)"
  by (auto simp: label_cases Let_def split: if_splits)

lemma markBranchTableLabel_inside:
  assumes "unat l < length (ctrls v)"
  shows "markBranchTableLabel l v =
    (let i = length (ctrls v) - 1 - unat l; f = ctrls v ! i
     in Inr (cf_branchTableEpoch f \<noteq> branchTableEpoch v, v\<lparr>ctrls := (ctrls v)[i := f\<lparr>cf_branchTableEpoch := branchTableEpoch v\<rparr>]\<rparr>))"
  using assms by (simp add: markBranchTableLabel_def bindV_def frameIndex_inside Let_def)

lemma framed_markBranchTableLabel:
  assumes v: "stack_ok v" "ctrls v \<noteq> []" and l: "unat l < length (ctrls v)"
  shows "framed_at (markBranchTableLabel l) v"
proof -
  let ?i = "length (ctrls v) - 1 - unat l"
  let ?v = "v\<lparr>ctrls := (ctrls v)[?i := (ctrls v ! ?i)\<lparr>cf_branchTableEpoch := branchTableEpoch v\<rparr>], branchTableEpoch := branchTableEpoch v\<rparr>"
  have "markBranchTableLabel l v = Inr (cf_branchTableEpoch (ctrls v ! ?i) \<noteq> branchTableEpoch v, ?v)"
    by (simp add: markBranchTableLabel_inside [OF l] Let_def)
  moreover have "stack_ok ?v \<and> kept v ?v" by (rule restamped [OF v core_update])
  ultimately show ?thesis by (simp only: framed_at_def sum.case prod.case)
qed

lemma kept_depth: "kept v v' \<Longrightarrow> length (ctrls v') = length (ctrls v)"
proof -
  assume k: "kept v v'"
  have "length (butlast (map frame_core (ctrls v'))) = length (butlast (map frame_core (ctrls v)))" using k by (simp add: kept_def Let_def)
  then have "length (ctrls v') - 1 = length (ctrls v) - 1" by simp
  moreover have "length (ctrls v) > 0" "length (ctrls v') > 0" using k by (simp_all add: kept_def Let_def)
  ultimately show ?thesis by linarith
qed

lemma framed_branchTargets:
  "stack_ok v \<Longrightarrow> kept w v \<Longrightarrow> stack_ok w \<Longrightarrow> ctrls w \<noteq> [] \<Longrightarrow> framed_at (branchTargets mv (vals w) dt ls) v"
proof (induction ls arbitrary: v)
  case Nil
  then show ?case using kept_height framed_here framed_return by (metis branchTargets.simps(1))
next
  case (Cons l ls)
  have tail: "framed_at (branchTargets mv (vals w) dt ls) v'" if "stack_ok v'" "kept w v'" for v'
    using Cons.IH that Cons.prems(3,4) by blast
  have "ctrls v \<noteq> []" using Cons.prems(2) kept_height by blast
  then have "framed_at (label l) v" using Cons.prems(1) framed_label framed_here by blast
  then show ?case unfolding branchTargets.simps
  proof (rule framed_at_bind)
    fix lt v1 assume lt: "label l v = Inr (lt, v1)" and v1: "stack_ok v1" "ctrls v1 \<noteq> []" "kept v v1"
    have l: "unat l < length (ctrls v1)" using label_inside [OF lt] by simp
    have w1: "kept w v1" using Cons.prems(2) v1(3) kept_trans by blast
    show "framed_at (bindV (markBranchTableLabel l) (\<lambda>fresh. if \<not> fresh then branchTargets mv (vals w) dt ls
       else if length lt \<noteq> length dt then failV ErrTypeMismatch
       else bindV (popAll mv lt) (\<lambda>_. bindV (restoreVals (vals w)) (\<lambda>_. branchTargets mv (vals w) dt ls)))) v1"
    proof (rule framed_at_bind [OF framed_markBranchTableLabel [OF v1(1,2) l]])
      fix fresh v2 assume v2: "stack_ok v2" "ctrls v2 \<noteq> []" "kept v1 v2"
      have w2: "kept w v2" using w1 v2(3) kept_trans by blast
      have "framed_at (bindV (popAll mv lt) (\<lambda>_. bindV (restoreVals (vals w)) (\<lambda>_. branchTargets mv (vals w) dt ls))) v2"
        by (intro framed_at_bind [OF framed_here [OF framed_popAll v2(1,2)]] framed_at_bind framed_at_restore tail Cons.prems(3,4))
          (meson kept_trans w2)+
      moreover have "framed_at (failV ErrTypeMismatch :: unit vm) v2" by (rule framed_here [OF framed_fail v2(1,2)])
      ultimately show "framed_at (if \<not> fresh then branchTargets mv (vals w) dt ls else if length lt \<noteq> length dt then failV ErrTypeMismatch
          else bindV (popAll mv lt) (\<lambda>_. bindV (restoreVals (vals w)) (\<lambda>_. branchTargets mv (vals w) dt ls))) v2"
        using tail [OF v2(1) w2] by simp
    qed
  qed
qed

lemma framedI_at: "(\<And>v. stack_ok v \<Longrightarrow> ctrls v \<noteq> [] \<Longrightarrow> framed_at f v) \<Longrightarrow> framed f"
  by (simp add: framed_def framed_at_def)

lemma framed_stepBrTable [frame_rules]: "framed (stepBrTable mv i)"
proof -
  let ?l = "in_Index i" and ?ls = "x_Indices (extOf i)"
  have marked: "framed_at (bindV beginBranchTable (\<lambda>_. bindV (markBranchTableLabel ?l) (\<lambda>_.
       runV [branchTargets mv (vals v) dt ?ls, popAll mv dt, setUnreachable]))) v"
    if v: "stack_ok v" "ctrls v \<noteq> []" and l: "unat ?l < length (ctrls v)" for v dt
  proof (rule framed_at_bind [OF framed_here [OF framed_beginBranchTable v]])
    fix x v1 assume v1: "stack_ok v1" "ctrls v1 \<noteq> []" "kept v v1"
    have l1: "unat ?l < length (ctrls v1)" using l kept_depth [OF v1(3)] by simp
    show "framed_at (bindV (markBranchTableLabel ?l) (\<lambda>_. runV [branchTargets mv (vals v) dt ?ls, popAll mv dt, setUnreachable])) v1"
      unfolding runV.simps(2) [of "branchTargets _ _ _ _"]
      by (rule framed_at_bind [OF framed_markBranchTableLabel [OF v1(1,2) l1]], rule framed_at_bind)
        (intro framed_branchTargets framed_here frame_rules v kept_trans [OF v1(3)], assumption+)+
  qed
  have "framed_at (bindV (label ?l) (\<lambda>dt. bindV getV (\<lambda>v. bindV beginBranchTable (\<lambda>_. bindV (markBranchTableLabel ?l) (\<lambda>_.
       runV [branchTargets mv (vals v) dt ?ls, popAll mv dt, setUnreachable]))))) v" if v: "stack_ok v" "ctrls v \<noteq> []" for v
  proof (rule framed_at_bind [OF framed_here [OF framed_label v]])
    fix dt v1 assume lt: "label ?l v = Inr (dt, v1)"
    show "framed_at (bindV getV (\<lambda>v. bindV beginBranchTable (\<lambda>_. bindV (markBranchTableLabel ?l) (\<lambda>_.
       runV [branchTargets mv (vals v) dt ?ls, popAll mv dt, setUnreachable])))) v1"
      using marked [OF v, of dt] label_inside [OF lt] by (simp add: framed_at_def bindV_def getV_def)
  qed
  then show ?thesis unfolding stepBrTable_def by (intro framed_bind framed_popExpect framedI_at)
qed

section \<open>Blocks\<close>

text \<open>The state after a block with the given signature: the operands below the inputs and the results; everything else as before.\<close>

definition block_done :: "ValType list \<Rightarrow> ValType list \<Rightarrow> funcValidator \<Rightarrow> funcValidator \<Rightarrow> bool" where
  "block_done ins outs v v' \<longleftrightarrow>
     vals v' = take (length (vals v) - taken (length ins) v) (vals v) @ outs \<and>
     map frame_core (ctrls v') = map frame_core (ctrls v) \<and> localInitLog v' = localInitLog v \<and>
     initializedLocals v' = initializedLocals v \<and> same_setting v v'"

lemma block_done_kept:
  assumes "stack_ok v" "ctrls v \<noteq> []" "block_done ins outs v v'"
  shows "kept v v'"
proof -
  have "cf_height (last (ctrls v)) \<le> length (vals v)" using assms stack_ok_height by simp
  then have h: "cf_height (last (ctrls v)) \<le> length (vals v) - taken (length ins) v" by (auto simp: taken_def)
  have "ctrls v' \<noteq> []" using assms(2,3) by (auto simp: block_done_def)
  then show ?thesis using assms h by (simp add: kept_def block_done_def Let_def)
qed

text \<open>What a body run inside the frame of a block leaves for its end.\<close>

lemma body_end:
  assumes "stack_ok v" "stack_ok v2" "kept (opened k ins outs v) v2"
  shows "\<exists>fs g. ctrls v2 = fs @ [g] \<and> map frame_core fs = map frame_core (ctrls v) \<and> cf_out g = outs \<and>
    cf_height g = length (vals v) \<and> cf_initHeight g = length (localInitLog v) \<and>
    take (length (vals v)) (vals v2) = vals v \<and> (\<exists>zs. localInitLog v2 = localInitLog v @ zs) \<and> same_setting v v2"
proof -
  let ?o = "opened k ins outs v"
  obtain fs g where fs: "ctrls v2 = fs @ [g]" using kept_height [OF assms(3)] by (metis rev_exhaust)
  have o: "ctrls ?o = ctrls v @ [newFrame k ins outs v]" by (simp add: opened_def)
  have "map frame_core fs = map frame_core (ctrls v)"
    "frame_core g = frame_core (newFrame k ins outs v) \<or> frame_core g = (frame_core (newFrame k ins outs v))\<lparr>cf_unreachable := True\<rparr>"
    using assms(3) by (simp_all add: kept_def Let_def o fs)
  moreover from this(2) have "cf_out g = outs" "cf_height g = length (vals v)" "cf_initHeight g = length (localInitLog v)"
    by (cases g; auto simp: frame_core_def newFrame_def)+
  moreover have "take (length (vals v)) (vals v2) = vals v" "\<exists>zs. localInitLog v2 = localInitLog v @ zs" "same_setting v v2"
    using assms(3) by (simp_all add: kept_def opened_def newFrame_def same_setting_def)
  ultimately show ?thesis using fs by blast
qed

lemma block_closed:
  assumes "stack_ok v" "stack_ok v2" "kept (opened k ins outs v) v2"
  shows "closed (last (ctrls v2)) v2 \<in> {v'. stack_ok v' \<and> vals v' = vals v @ outs \<and> map frame_core (ctrls v') = map frame_core (ctrls v) \<and>
    localInitLog v' = localInitLog v \<and> initializedLocals v' = initializedLocals v \<and> same_setting v v'}"
proof -
  from body_end [OF assms] obtain fs g zs where fs: "ctrls v2 = fs @ [g]" "map frame_core fs = map frame_core (ctrls v)" "cf_out g = outs"
      "cf_height g = length (vals v)" "cf_initHeight g = length (localInitLog v)" "take (length (vals v)) (vals v2) = vals v"
      "localInitLog v2 = localInitLog v @ zs" "same_setting v v2" by blast
  moreover have "stack_ok (closed (last (ctrls v2)) v2)" by (rule closed_ok [OF assms(2) _ refl]) (simp add: fs(1))
  moreover have "initializedLocals v = set (localInitLog v)" using assms(1) by (simp add: stack_ok_def)
  ultimately show ?thesis by (simp add: closed_def same_setting_def)
qed

lemma stepBlock_result:
  assumes ok: "stack_ok v" "ctrls v \<noteq> []" and body: "framed (runV body)"
  shows "case stepBlock mv k ins outs body v of Inl e \<Rightarrow> e \<noteq> Panic | Inr (_, v') \<Rightarrow> stack_ok v' \<and> poppable mv ins v \<and> block_done ins outs v v'"
proof (cases "poppable mv ins v")
  case False
  then show ?thesis by (simp add: stepBlock_def bindV_def pushCtrl_result popAll_decides [OF ok])
next
  case True
  let ?v = "v\<lparr>vals := take (length (vals v) - taken (length ins) v) (vals v)\<rparr>" and ?o = "opened k ins outs (v\<lparr>vals := take (length (vals v) - taken (length ins) v) (vals v)\<rparr>)"
  have "cf_height (last (ctrls v)) \<le> length (vals v)" using ok stack_ok_height by simp
  then have v: "stack_ok ?v" by (intro stack_ok_vals ok) (auto simp: taken_def)
  have o: "stack_ok ?o" "ctrls ?o \<noteq> []" using opened_ok [OF v] by (simp_all add: opened_def)
  have push: "pushCtrl mv k ins outs v = Inr ((), ?o)" using True by (simp add: pushCtrl_result popAll_decides [OF ok])
  have split: "stepBlock mv k ins outs body v = bindV (runV body) (\<lambda>_. bindV (popCtrl mv) (\<lambda>_. returnV ())) ?o"
    by (simp add: stepBlock_def run_append push) (simp add: bindV_def push returnV_def split: sum.split prod.split)
  show ?thesis
  proof (cases "runV body ?o")
    case (Inl e)
    then show ?thesis using framed_error [OF body o] by (simp add: split bindV_def)
  next
    case (Inr r)
    then obtain v2 where r: "runV body ?o = Inr ((), v2)" by (cases r) auto
    then have v2: "stack_ok v2" "kept ?o v2" using framed_result [OF body o] by blast+
    then have "ctrls v2 \<noteq> []" using kept_height by blast
    then show ?thesis using popCtrl_result [OF v2(1)] block_closed [OF v v2] True
      by (simp add: split r bindV_def returnV_def block_done_def same_setting_def)
  qed
qed

lemma framed_stepBlock [frame_rules]:
  assumes "framed (runV body)"
  shows "framed (stepBlock mv k ins outs body)"
proof (rule framedI_at)
  fix v assume v: "stack_ok v" "ctrls v \<noteq> []"
  show "framed_at (stepBlock mv k ins outs body) v"
    using stepBlock_result [OF v assms, of mv ins outs k] block_done_kept [OF v] by (auto simp: framed_at_def split: sum.splits)
qed

lemma framed_stepTryTable [frame_rules]: "framed (runV body) \<Longrightarrow> framed (stepTryTable mv i body)"
  unfolding stepTryTable_def by (intro frame_rules)

text \<open>The second arm starts from the stacks before the first.\<close>

lemma second_arm:
  assumes v: "stack_ok v" "ctrls v \<noteq> []" and w: "stack_ok w" "block_done ins outs v w"
  shows "stack_ok (w\<lparr>vals := vals v, ctrls := ctrls v\<rparr>) \<and> kept v (w\<lparr>vals := vals v, ctrls := ctrls v\<rparr>)"
proof -
  have "lookup_ok w" using w(1) by (simp add: stack_ok_def)
  then show ?thesis using v w(2) by (simp add: stack_ok_def kept_def block_done_def same_setting_def lookup_ok_def Let_def)
qed

lemma framed_secondArm:
  assumes "framed (runV els)" "stack_ok w" "ctrls w \<noteq> []" "stack_ok v" "kept w v"
  shows "framed_at (secondArm mv ins outs els (vals w)) v"
proof -
  have arm: "framed (if els \<noteq> [] then stepBlock mv ctrlIf ins outs els else rejectV (\<not> matchValTypes mv ins outs) ErrTypeMismatch)"
    by (intro frame_rules assms(1))
  have restore: "framed_at (bindV (restoreVals (vals w)) (\<lambda>_. runV [])) u" if "stack_ok u" "kept w u" for u
    using framed_at_restore [OF that assms(2,3)] by (rule framed_at_bind) (rule framed_here [OF framed_runs(1)])
  have tail: "framed_at (bindV getV (\<lambda>u. runV [rejectV (els \<noteq> [] \<and> length (vals u) \<noteq> length (vals w)) ErrTypeMismatch, restoreVals (vals w)])) v'"
    if v': "stack_ok v'" "ctrls v' \<noteq> []" "kept w v'" for v'
  proof (rule framed_at_bind [OF framed_here [OF framed_get v'(1,2)]])
    fix u v1 assume v1: "stack_ok v1" "ctrls v1 \<noteq> []" "kept v' v1"
    show "framed_at (runV [rejectV (els \<noteq> [] \<and> length (vals u) \<noteq> length (vals w)) ErrTypeMismatch, restoreVals (vals w)]) v1"
      unfolding runV.simps(2)
      by (rule framed_at_bind [OF framed_here [OF framed_reject v1(1,2)]])
        (rule restore, assumption, rule kept_trans [OF kept_trans [OF v'(3) v1(3)]])
  qed
  have "ctrls v \<noteq> []" using kept_height [OF assms(5)] by simp
  then show ?thesis unfolding secondArm_def
    by (intro framed_at_bind [OF framed_here [OF arm assms(4)]] tail kept_trans [OF assms(5)])
qed

lemma framed_stepArms:
  assumes thn: "framed (runV thn)" and els: "framed (runV els)"
  shows "framed (stepArms mv ins outs thn els)"
proof (rule framedI_at)
  fix v assume v: "stack_ok v" "ctrls v \<noteq> []"
  show "framed_at (stepArms mv ins outs thn els) v"
  proof (cases "stepBlock mv ctrlIf ins outs thn v")
    case (Inl e)
    then show ?thesis using stepBlock_result [OF v thn, of mv ins outs ctrlIf] by (simp add: framed_at_def stepArms_def)
  next
    case (Inr r)
    then obtain w where w: "stepBlock mv ctrlIf ins outs thn v = Inr ((), w)" by (cases r) auto
    then have bd: "stack_ok w" "block_done ins outs v w" using stepBlock_result [OF v thn, of mv ins outs ctrlIf] by simp_all
    let ?m = "w\<lparr>vals := vals v, ctrls := ctrls v\<rparr>"
    note kv = block_done_kept [OF v bd(2)] and m = second_arm [OF v bd]
    have "kept w ?m" using bd(2) kv kept_height [OF kv] v(2) by (simp add: kept_def block_done_def same_setting_def Let_def)
    then have "framed_at (secondArm mv ins outs els (vals w)) ?m" using framed_secondArm els bd(1) kept_height [OF kv] m by blast
    then have "case secondArm mv ins outs els (vals w) ?m of Inl e \<Rightarrow> e \<noteq> Panic | Inr (x, v') \<Rightarrow> stack_ok v' \<and> kept ?m v'"
      by (simp add: framed_at_def)
    then show ?thesis using w conjunct2 [OF m] kept_trans by (auto simp: framed_at_def stepArms_def split: sum.splits)
  qed
qed

lemma framed_stepIf [frame_rules]: "framed (runV thn) \<Longrightarrow> framed (runV els) \<Longrightarrow> framed (stepIf mv i thn els)"
  unfolding stepIf_def by (intro frame_rules framed_stepArms)

section \<open>Every instruction\<close>

lemma pred_option_if: "pred_option P x \<Longrightarrow> pred_option P y \<Longrightarrow> pred_option P (if b then x else y)"
  by simp

lemma framed_proposalStep: "framed (runV body) \<Longrightarrow> pred_option framed (proposalStep mv i body)"
  unfolding proposalStep_def Let_def
  by (intro pred_option_if option.pred_inject(1) iffD2 [OF option.pred_inject(2)] frame_rules; assumption)

lemma framed_stepKind [frame_rules]:
  assumes "framed (runV body)" "framed (runV thn)" "framed (runV els)"
  shows "framed (stepKind mv body thn els i)"
proof -
  have "framed (case proposalStep mv i body of Some f \<Rightarrow> f | None \<Rightarrow> stackEffect mv i)"
    using framed_proposalStep [OF assms(1), of mv i] framed_stackEffect by (cases "proposalStep mv i body") auto
  note default = framed_if [OF _ this]
  show ?thesis unfolding stepKind_def Let_def by (intro default framed_if; intro frame_rules assms)
qed

lemma framed_stepNode:
  "framed (runV body) \<Longrightarrow> framed (runV thn) \<Longrightarrow> framed (runV els) \<Longrightarrow> framed (stepNode mv body thn els i)"
  unfolding stepNode_def by (intro frame_rules)

lemma framed_step: "framed (step mv i)"
  by (induction mv i rule: step.induct) (subst step.simps, intro framed_stepNode framed_run_map)

end
