(* ===== verification/Stamps.thy ===== *)
theory Stamps
  imports BodySound
begin

text \<open>
  The stamps by which \<^verbatim>\<open>br_table\<close> recognises frames it has visited (\<^verbatim>\<open>beginBranchTable\<close> and
  \<^verbatim>\<open>markBranchTableLabel\<close> of \<^verbatim>\<open>validate_ops.go\<close>): no instruction leaves a stamp from the future on a frame,
  unless an \<^verbatim>\<open>if\<close> brings back the frames it saved before the stamp counter wrapped around.
\<close>

lemma bind_result: "bindV f k v = Inr (y, v'') \<longleftrightarrow> (\<exists>x v'. f v = Inr (x, v') \<and> k x v' = Inr (y, v''))"
  by (auto simp: bindV_def split: sum.split prod.split)

text \<open>No frame carries a stamp from the future.\<close>

definition stamps_ok :: "funcValidator \<Rightarrow> bool" where
  "stamps_ok v \<longleftrightarrow> (\<forall>f \<in> set (ctrls v). cf_branchTableEpoch f \<le> branchTableEpoch v)"

section \<open>Steps that leave the stamps alone\<close>

text \<open>The counter stays, and a frame that comes in is unstamped.\<close>

definition stampless :: "'a vm \<Rightarrow> bool" where
  "stampless f \<longleftrightarrow> (\<forall>v x v'. f v = Inr (x, v') \<longrightarrow> branchTableEpoch v' = branchTableEpoch v \<and>
     (\<forall>g \<in> set (ctrls v'). cf_branchTableEpoch g \<in> insert 0 (cf_branchTableEpoch ` set (ctrls v))))"

lemma stamplessI:
  assumes "\<And>v x v'. f v = Inr (x, v') \<Longrightarrow> branchTableEpoch v' = branchTableEpoch v"
    and "\<And>v x v' g. f v = Inr (x, v') \<Longrightarrow> g \<in> set (ctrls v') \<Longrightarrow> cf_branchTableEpoch g \<in> insert 0 (cf_branchTableEpoch ` set (ctrls v))"
  shows "stampless f"
  unfolding stampless_def using assms by blast

lemma stampless_result:
  assumes "stampless f" "f v = Inr (x, v')"
  shows "branchTableEpoch v' = branchTableEpoch v"
    and "g \<in> set (ctrls v') \<Longrightarrow> cf_branchTableEpoch g \<in> insert 0 (cf_branchTableEpoch ` set (ctrls v))"
  using assms unfolding stampless_def by blast+

lemma stampless_same: "(\<And>v x v'. f v = Inr (x, v') \<Longrightarrow> branchTableEpoch v' = branchTableEpoch v \<and> ctrls v' = ctrls v) \<Longrightarrow> stampless f"
  by (rule stamplessI) auto

named_theorems stamp_rules \<open>steps that leave the stamps alone\<close>

lemma stampless_bind [stamp_rules]:
  assumes f: "stampless f" and k: "\<And>x. stampless (k x)"
  shows "stampless (bindV f k)"
proof (rule stamplessI)
  fix v y v'' assume "bindV f k v = Inr (y, v'')"
  then obtain x v' where s: "f v = Inr (x, v')" "k x v' = Inr (y, v'')" unfolding bind_result by blast
  show "branchTableEpoch v'' = branchTableEpoch v" using stampless_result(1) [OF f s(1)] stampless_result(1) [OF k s(2)] by simp
next
  fix v y v'' g assume "bindV f k v = Inr (y, v'')" and g: "g \<in> set (ctrls v'')"
  then obtain x v' where s: "f v = Inr (x, v')" "k x v' = Inr (y, v'')" unfolding bind_result by blast
  show "cf_branchTableEpoch g \<in> insert 0 (cf_branchTableEpoch ` set (ctrls v))"
  proof (cases "cf_branchTableEpoch g = 0")
    case False
    then obtain g' where "g' \<in> set (ctrls v')" "cf_branchTableEpoch g = cf_branchTableEpoch g'"
      using stampless_result(2) [OF k s(2) g] by auto
    then show ?thesis using stampless_result(2) [OF f s(1)] by simp
  qed simp
qed

lemma stampless_basic [stamp_rules]:
  "stampless (returnV x)" "stampless (failV c)" "stampless (checkV r)" "stampless (rejectV b c)" "stampless (orFail z c)"
  "stampless getV" "stampless topFrame" "stampless funcResults" "stampless (label l)" "stampless (push t)" "stampless (restoreVals xs)"
  by (rule stampless_same; auto simp: returnV_def failV_def checkV_def rejectV_def orFail_def getV_def topFrame_def funcResults_def
    label_cases push_def restoreVals_def Let_def split: sum.splits option.splits if_splits)+

lemma stampless_runs [stamp_rules]: "stampless (runV [])" "stampless f \<Longrightarrow> stampless (runV fs) \<Longrightarrow> stampless (runV (f # fs))"
  by (auto intro!: stamp_rules)

lemma stampless_run_map [stamp_rules]: "(\<And>x. stampless (f x)) \<Longrightarrow> stampless (runV (map f xs))"
  by (induction xs) (auto intro!: stamp_rules)

lemma stampless_replicate [stamp_rules]: "stampless f \<Longrightarrow> stampless (runV (replicate n f))"
  by (induction n) (auto intro!: stamp_rules)

lemma stampless_cases [stamp_rules]:
  "stampless f \<Longrightarrow> stampless g \<Longrightarrow> stampless (if b then f else g)"
  "stampless (runV fs) \<Longrightarrow> stampless (runV gs) \<Longrightarrow> stampless (runV (if b then fs else gs))"
  "(\<And>x. stampless (h x)) \<Longrightarrow> stampless (let x = t in h x)"
  by simp_all

lemma stampless_case_prod [stamp_rules]: "(\<And>a b. stampless (f a b)) \<Longrightarrow> stampless (case p of (a, b) \<Rightarrow> f a b)"
  by (cases p) simp

lemma stampless_option [stamp_rules]: "stampless f \<Longrightarrow> (\<And>x. stampless (g x)) \<Longrightarrow> stampless (case p of None \<Rightarrow> f | Some x \<Rightarrow> g x)"
  by (cases p) simp_all

lemma stampless_run_append [stamp_rules]: "stampless (runV fs) \<Longrightarrow> stampless (runV gs) \<Longrightarrow> stampless (runV (fs @ gs))"
  unfolding run_append by (rule stampless_bind)

lemma stampless_pop [stamp_rules]: "stampless pop"
  by (rule stampless_same) (auto simp: pop_def bindV_def topFrame_def split: if_splits)

lemma stampless_popExpect [stamp_rules]: "stampless (popExpect mv t)"
  unfolding popExpect_def by (intro stamp_rules)

lemma stampless_popAll [stamp_rules]: "stampless (popAll mv ts)"
  unfolding popAll_def by (intro stamp_rules)

lemma stampless_pushAll [stamp_rules]: "stampless (pushAll ts)"
  unfolding pushAll_def by (intro stamp_rules)

lemma stampless_unreachable [stamp_rules]: "stampless setUnreachable"
  by (rule stamplessI) (auto simp: setUnreachable_def bindV_def topFrame_def dest!: in_set_butlastD split: if_splits)

lemma stampless_initializeLocal [stamp_rules]: "stampless (initializeLocal idx t)"
  by (rule stampless_same) (auto simp: initializeLocal_def)

lemma stampless_pushCtrl [stamp_rules]: "stampless (pushCtrl mv k ins outs)"
proof -
  have "stampless (\<lambda>v. Inr ((), v\<lparr>ctrls := ctrls v @ [newFrame k ins outs v]\<rparr>))" by (rule stamplessI) (auto simp: newFrame_def)
  then show ?thesis unfolding pushCtrl_def by (intro stamp_rules)
qed

lemma stampless_popCtrl [stamp_rules]: "stampless (popCtrl mv)"
proof -
  let ?shut = "\<lambda>f v. (restoreLocalInitialization (cf_initHeight f) v)\<lparr>ctrls := butlast (ctrls v)\<rparr>"
  let ?close = "\<lambda>f v. if length (vals v) \<noteq> cf_height f then Inl (Invalid ErrTypeMismatch)
      else bindV (pushAll (cf_out f)) (\<lambda>_. returnV f) (?shut f v)"
  have push: "stampless (bindV (pushAll (cf_out f)) (\<lambda>_. returnV f))" for f by (intro stamp_rules)
  have shut: "branchTableEpoch (?shut f v) = branchTableEpoch v" "g \<in> set (ctrls (?shut f v)) \<Longrightarrow> g \<in> set (ctrls v)" for f g v
    by (auto simp: restoreLocalInitialization_def dest: in_set_butlastD)
  have close: "stampless (?close f)" for f
  proof (rule stamplessI)
    fix v x v' assume "?close f v = Inr (x, v')"
    then have r: "bindV (pushAll (cf_out f)) (\<lambda>_. returnV f) (?shut f v) = Inr (x, v')" by (simp split: if_splits)
    show "branchTableEpoch v' = branchTableEpoch v" using stampless_result(1) [OF push r] shut(1) by simp
    fix g assume "g \<in> set (ctrls v')"
    from stampless_result(2) [OF push r this] show "cf_branchTableEpoch g \<in> insert 0 (cf_branchTableEpoch ` set (ctrls v))"
      using shut(2) by blast
  qed
  have all: "stampless (bindV (popAll mv (cf_out f)) (\<lambda>_. ?close f))" for f by (intro stamp_rules close)
  have run: "bindV (popAll mv (cf_out (last (ctrls v)))) (\<lambda>_. ?close (last (ctrls v))) v = Inr (x, v')" if "popCtrl mv v = Inr (x, v')" for v x v'
    using that by (simp add: popCtrl_def Let_def split: if_splits)
  show ?thesis using stampless_result [OF all run] by (intro stamplessI)
qed

lemma stampless_lookupLocal [stamp_rules]: "stampless (lookupLocal idx)"
  by (rule stampless_same) (auto simp: lookupLocal_def localType_def indexLocalRuns_def Let_def split: if_splits sum.splits option.splits prod.splits)

lemma stampless_blockSig [stamp_rules]: "stampless (blockSig mv bt)"
  by (cases "bt_Kind bt") (auto simp: blockSig_def intro!: stamp_rules)

lemma stampless_checkMemArg [stamp_rules]: "stampless (checkMemArg mv ma n)"
  unfolding checkMemArg_def by (intro stamp_rules)

lemma stampless_checkAtomicMemArg [stamp_rules]: "stampless (checkAtomicMemArg mv ma n)"
  unfolding checkAtomicMemArg_def by (intro stamp_rules)

lemma stampless_checkDataIndex [stamp_rules]: "stampless (checkDataIndex mv i)"
  unfolding checkDataIndex_def by (intro stamp_rules)

lemma stampless_tableAddrType [stamp_rules]: "stampless (tableAddrType mv i)"
  unfolding tableAddrType_def by (intro stamp_rules)

lemma stampless_stepBranch [stamp_rules]: "stampless (stepBranch mv k i)"
  unfolding stepBranch_def by (intro stamp_rules)

lemma stampless_finishCall [stamp_rules]: "stampless (finishCall mv t ft)"
  unfolding finishCall_def by (intro stamp_rules)

lemma stampless_stepCall [stamp_rules]: "stampless (stepCall mv k i)"
  unfolding stepCall_def by (intro stamp_rules)

lemma stampless_stepCallIndirect [stamp_rules]: "stampless (stepCallIndirect mv i)"
  unfolding stepCallIndirect_def by (intro stamp_rules)

lemma stampless_stepSelect [stamp_rules]: "stampless (stepSelect mv i)"
  unfolding stepSelect_def by (intro stamp_rules)

lemma stampless_stepLocalIndex [stamp_rules]: "stampless (stepLocalIndex mv k i)"
  unfolding stepLocalIndex_def by (intro stamp_rules)

lemma stampless_stepGlobal [stamp_rules]: "stampless (stepGlobal mv k i)"
  unfolding stepGlobal_def by (intro stamp_rules)

lemma stampless_stepTable [stamp_rules]: "stampless (stepTable mv i)"
  unfolding stepTable_def by (intro stamp_rules)

lemma stampless_stepBulkMemory [stamp_rules]: "stampless (stepBulkMemory mv i)"
  unfolding stepBulkMemory_def by (intro stamp_rules)

lemma stampless_popRef [stamp_rules]: "stampless (popRef)"
  unfolding popRef_def by (intro stamp_rules)

lemma stampless_stepRef [stamp_rules]: "stampless (stepRef mv i)"
  unfolding stepRef_def by (intro stamp_rules)

lemma stampless_stepBrOnNull [stamp_rules]: "stampless (stepBrOnNull mv i)"
  unfolding stepBrOnNull_def by (intro stamp_rules)

lemma stampless_stepBrOnNonNull [stamp_rules]: "stampless (stepBrOnNonNull mv i)"
  unfolding stepBrOnNonNull_def by (intro stamp_rules)

lemma stampless_stepWide [stamp_rules]: "stampless (stepWide mv k)"
  unfolding stepWide_def by (intro stamp_rules)

lemma stampless_stepAtomic [stamp_rules]: "stampless (stepAtomic mv i)"
  unfolding stepAtomic_def Let_def by (intro stamp_rules)

lemma stampless_stepThrow [stamp_rules]: "stampless (stepThrow mv i)"
  unfolding stepThrow_def by (intro stamp_rules)

lemma stampless_stepCallRef [stamp_rules]: "stampless (stepCallRef mv i)"
  unfolding stepCallRef_def by (intro stamp_rules)

lemma stampless_validateCatchPayload [stamp_rules]: "stampless (validateCatchPayload mv c)"
  unfolding validateCatchPayload_def by (intro stamp_rules)

lemma stampless_descriptorOf [stamp_rules]: "stampless (descriptorOf mv st g)"
  unfolding descriptorOf_def by (intro stamp_rules)

lemma stampless_stepConvert [stamp_rules]: "stampless (stepConvert mv k)"
  unfolding stepConvert_def by (intro stamp_rules)

lemma stampless_stepRefTest [stamp_rules]: "stampless (stepRefTest mv i)"
  unfolding stepRefTest_def by (intro stamp_rules)

lemma stampless_popDescriptor [stamp_rules]: "stampless (popDescriptor mv i)"
  unfolding popDescriptor_def by (intro stamp_rules)

lemma stampless_stepRefCast [stamp_rules]: "stampless (stepRefCast mv i)"
  unfolding stepRefCast_def by (intro stamp_rules)

lemma stampless_stepRefGetDesc [stamp_rules]: "stampless (stepRefGetDesc mv i)"
  unfolding stepRefGetDesc_def by (intro stamp_rules)

lemma stampless_stepStructNew [stamp_rules]: "stampless (stepStructNew mv i)"
  unfolding stepStructNew_def by (intro stamp_rules)

lemma stampless_fieldAt [stamp_rules]: "stampless (fieldAt mv i)"
  unfolding fieldAt_def by (intro stamp_rules)

lemma stampless_stepStructGet [stamp_rules]: "stampless (stepStructGet mv i)"
  unfolding stepStructGet_def by (intro stamp_rules)

lemma stampless_stepStructSet [stamp_rules]: "stampless (stepStructSet mv i)"
  unfolding stepStructSet_def by (intro stamp_rules)

lemma stampless_arrayFieldOf [stamp_rules]: "stampless (arrayFieldOf mv i)"
  unfolding arrayFieldOf_def by (intro stamp_rules)

lemma stampless_popFixed [stamp_rules]: "stampless (popFixed mv n t)"
  unfolding popFixed_def by (intro stamp_rules)

lemma stampless_stepArrayNew [stamp_rules]: "stampless (stepArrayNew mv i)"
  unfolding stepArrayNew_def by (intro stamp_rules)

lemma stampless_stepArrayGet [stamp_rules]: "stampless (stepArrayGet mv i)"
  unfolding stepArrayGet_def by (intro stamp_rules)

lemma stampless_stepArraySet [stamp_rules]: "stampless (stepArraySet mv i)"
  unfolding stepArraySet_def by (intro stamp_rules)

lemma stampless_stepArrayLen [stamp_rules]: "stampless (stepArrayLen mv)"
  unfolding stepArrayLen_def by (intro stamp_rules)

lemma stampless_stepArrayCopy [stamp_rules]: "stampless (stepArrayCopy mv i)"
  unfolding stepArrayCopy_def by (intro stamp_rules)

lemma stampless_stepArrayInit [stamp_rules]: "stampless (stepArrayInit mv i)"
  unfolding stepArrayInit_def by (intro stamp_rules)

lemma stampless_stepBrOnCast [stamp_rules]: "stampless (stepBrOnCast mv i)"
  unfolding stepBrOnCast_def by (intro stamp_rules)

lemma stampless_stepGC [stamp_rules]: "stampless (stepGC mv i)"
  unfolding stepGC_def by (intro stamp_rules)

lemma stampless_stackEffect [stamp_rules]: "stampless (stackEffect mv i)"
  unfolding stackEffect_def by (cases "oe_cat (opEffects (in_Kind i))") (simp_all only: Let_def opEffectCat.case, (intro stamp_rules)+)

lemma stampless_stepSIMD [stamp_rules]: "stampless (stepSIMD mv i)"
  unfolding stepSIMD_def by (cases "se_cat (simdEffects (in_Kind i))") (simp_all only: Let_def simdEffectCat.case, (intro stamp_rules)+)

section \<open>Branch tables and structured instructions\<close>

text \<open>
  Consistent stamps stay consistent. When the counter cannot wrap around within \<open>n\<close> branch tables it grows by at most
  \<open>n\<close>; for \<open>b\<close> it may wrap around as well.
\<close>

definition stamping :: "bool \<Rightarrow> nat \<Rightarrow> 'a vm \<Rightarrow> bool" where
  "stamping b n f \<longleftrightarrow> (\<forall>v x v'. stamps_ok v \<and> f v = Inr (x, v') \<and> (b \<or> unat (branchTableEpoch v) + n < 2 ^ 32) \<longrightarrow>
     stamps_ok v' \<and>
     (unat (branchTableEpoch v) + n < 2 ^ 32 \<longrightarrow>
        branchTableEpoch v \<le> branchTableEpoch v' \<and> unat (branchTableEpoch v') \<le> unat (branchTableEpoch v) + n))"

lemma stampingI:
  assumes "\<And>v x v'. stamps_ok v \<Longrightarrow> f v = Inr (x, v') \<Longrightarrow> b \<or> unat (branchTableEpoch v) + n < 2 ^ 32 \<Longrightarrow> stamps_ok v'"
    and "\<And>v x v'. stamps_ok v \<Longrightarrow> f v = Inr (x, v') \<Longrightarrow> unat (branchTableEpoch v) + n < 2 ^ 32 \<Longrightarrow>
      branchTableEpoch v \<le> branchTableEpoch v' \<and> unat (branchTableEpoch v') \<le> unat (branchTableEpoch v) + n"
  shows "stamping b n f"
  unfolding stamping_def using assms by blast

lemma stamping_result:
  assumes "stamping b n f" "stamps_ok v" "f v = Inr (x, v')"
  shows "b \<or> unat (branchTableEpoch v) + n < 2 ^ 32 \<Longrightarrow> stamps_ok v'"
    and "unat (branchTableEpoch v) + n < 2 ^ 32 \<Longrightarrow>
      branchTableEpoch v \<le> branchTableEpoch v' \<and> unat (branchTableEpoch v') \<le> unat (branchTableEpoch v) + n"
  using assms unfolding stamping_def by blast+

lemma stamping_stampless:
  assumes "stampless f"
  shows "stamping b n f"
proof (rule stampingI)
  fix v x v' assume v: "stamps_ok v" "f v = Inr (x, v')"
  note e = stampless_result(1) [OF assms v(2)]
  show "stamps_ok v'" unfolding stamps_ok_def e
  proof
    fix g assume "g \<in> set (ctrls v')"
    from stampless_result(2) [OF assms v(2) this] show "cf_branchTableEpoch g \<le> branchTableEpoch v"
      using v(1) by (auto simp: stamps_ok_def)
  qed
  show "branchTableEpoch v \<le> branchTableEpoch v' \<and> unat (branchTableEpoch v') \<le> unat (branchTableEpoch v) + n" using e by simp
qed

lemma stamping_mono: "stamping b n f \<Longrightarrow> n \<le> m \<Longrightarrow> stamping b m f"
  by (rule stampingI) (fastforce dest: stamping_result)+

lemma stamping_bind:
  assumes f: "stamping b n f" and k: "\<And>x. stamping b m (k x)"
  shows "stamping b (n + m) (bindV f k)"
proof (rule stampingI)
  fix v y v'' assume v: "stamps_ok v" "bindV f k v = Inr (y, v'')"
  then obtain x v' where s: "f v = Inr (x, v')" "k x v' = Inr (y, v'')" unfolding bind_result by blast
  note rf = stamping_result [OF f v(1) s(1)]
  {
    assume a: "b \<or> unat (branchTableEpoch v) + (n + m) < 2 ^ 32"
    then have "stamps_ok v'" "b \<or> unat (branchTableEpoch v') + m < 2 ^ 32" using rf by (auto intro: rf(1))
    then show "stamps_ok v''" using stamping_result(1) [OF k _ s(2)] by blast
  }
  {
    assume a: "unat (branchTableEpoch v) + (n + m) < 2 ^ 32"
    then have "stamps_ok v'" "unat (branchTableEpoch v') + m < 2 ^ 32" and le: "branchTableEpoch v \<le> branchTableEpoch v' \<and> unat (branchTableEpoch v') \<le> unat (branchTableEpoch v) + n"
      using rf by auto
    from stamping_result(2) [OF k this(1) s(2) this(2)] le
    show "branchTableEpoch v \<le> branchTableEpoch v'' \<and> unat (branchTableEpoch v'') \<le> unat (branchTableEpoch v) + (n + m)" by auto
  }
qed

lemma stamping_before: "stampless f \<Longrightarrow> (\<And>x. stamping b n (k x)) \<Longrightarrow> stamping b n (bindV f k)"
  using stamping_bind [OF stamping_stampless, of f b n k 0] by simp

lemma stamping_after: "stamping b n f \<Longrightarrow> (\<And>x. stampless (k x)) \<Longrightarrow> stamping b n (bindV f k)"
  using stamping_bind [OF _ stamping_stampless, of b n f k 0] by simp

lemma stamping_seq: "stamping b 0 f \<Longrightarrow> (\<And>x. stamping b n (k x)) \<Longrightarrow> stamping b n (bindV f k)"
  using stamping_bind [of b 0 f n k] by simp

lemma stamping_split: "(\<And>x y. stamping b n (f x y)) \<Longrightarrow> stamping b n (case p of (x, y) \<Rightarrow> f x y)"
  by (cases p) simp

lemma stamping_single: "stamping b n f \<Longrightarrow> stamping b n (runV [f])"
  unfolding runV.simps by (intro stamping_after stamp_rules)

lemma stamping_run_map: "(\<And>x. x \<in> set xs \<Longrightarrow> stamping b (size_of x) (f x)) \<Longrightarrow> stamping b (sum_list (map size_of xs)) (runV (map f xs))"
  by (induction xs) (auto intro: stamping_bind stamping_stampless stamp_rules)

lemma stamping_cases:
  "(c \<Longrightarrow> stamping b n f) \<Longrightarrow> (\<not> c \<Longrightarrow> stamping b n g) \<Longrightarrow> stamping b n (if c then f else g)"
  by simp

text \<open>A table takes one stamp; at the wrap-around all stamps go back to 0.\<close>

lemma stamping_beginBranchTable: "stamping b 1 beginBranchTable"
proof (rule stampingI)
  fix v x v' assume v: "stamps_ok v" "beginBranchTable v = Inr (x, v')"
  let ?e = "branchTableEpoch v + 1"
  have grow: "branchTableEpoch v \<le> ?e \<and> unat ?e = unat (branchTableEpoch v) + 1" if "?e \<noteq> 0"
    using unatSuc [of "branchTableEpoch v"] that by (simp add: word_le_nat_alt add.commute)
  have v': "v' = v\<lparr>ctrls := if ?e = 0 then map (\<lambda>f. f\<lparr>cf_branchTableEpoch := 0\<rparr>) (ctrls v) else ctrls v, branchTableEpoch := if ?e = 0 then 1 else ?e\<rparr>"
    using v(2) by (auto simp: beginBranchTable_def Let_def)
  show "stamps_ok v'"
  proof (cases "?e = 0")
    case True
    then show ?thesis by (simp add: v' stamps_ok_def)
  next
    case False
    have "cf_branchTableEpoch f \<le> ?e" if "f \<in> set (ctrls v)" for f
      using v(1) that grow [OF False] by (auto simp: stamps_ok_def intro: order_trans)
    then show ?thesis using False by (simp add: v' stamps_ok_def)
  qed
  assume "unat (branchTableEpoch v) + 1 < 2 ^ 32"
  then have "?e \<noteq> 0" using unat_add_lem [of "branchTableEpoch v" 1] by auto
  then show "branchTableEpoch v \<le> branchTableEpoch v' \<and> unat (branchTableEpoch v') \<le> unat (branchTableEpoch v) + 1" using grow by (simp add: v')
qed

lemma stamping_mark: "stamping b 0 (markBranchTableLabel l)"
proof (rule stampingI)
  fix v x v' assume v: "stamps_ok v" "markBranchTableLabel l v = Inr (x, v')"
  obtain i where v': "v' = v\<lparr>ctrls := (ctrls v)[i := (ctrls v ! i)\<lparr>cf_branchTableEpoch := branchTableEpoch v\<rparr>]\<rparr>"
    using v(2) by (auto simp: markBranchTableLabel_def bind_result Let_def frameIndex_def split: if_splits)
  then have "\<forall>f \<in> set (ctrls v'). f \<in> set (ctrls v) \<or> cf_branchTableEpoch f = branchTableEpoch v"
    using set_update_subset_insert [of "ctrls v" i] by fastforce
  then show "stamps_ok v'" using v(1) by (auto simp: v' stamps_ok_def)
  show "branchTableEpoch v \<le> branchTableEpoch v' \<and> unat (branchTableEpoch v') \<le> unat (branchTableEpoch v) + 0" by (simp add: v')
qed

lemma stamping_branchTargets: "stamping b 0 (branchTargets mv payload dt ls)"
proof (induction ls)
  case Nil
  show ?case by (simp add: stamping_stampless stamp_rules)
next
  case (Cons l ls)
  have "stamping b 0 (if \<not> fresh then branchTargets mv payload dt ls else if length lt \<noteq> length dt then failV ErrTypeMismatch
      else bindV (popAll mv lt) (\<lambda>_. bindV (restoreVals payload) (\<lambda>_. branchTargets mv payload dt ls)))" for fresh lt
    by (intro stamping_cases stamping_before Cons.IH stamping_stampless stamp_rules)
  then show ?case unfolding branchTargets.simps
    by (intro stamping_before [OF stampless_basic(9)] stamping_seq [OF stamping_mark])
qed

lemma stamping_stepBrTable: "stamping b 1 (stepBrTable mv i)"
proof -
  have body: "stamping b 0 (bindV (markBranchTableLabel (in_Index i)) (\<lambda>_.
       runV [branchTargets mv (vals v) dt (x_Indices (extOf i)), popAll mv dt, setUnreachable]))" for v dt
    unfolding runV.simps(2) [of "branchTargets _ _ _ _"]
    by (rule stamping_seq [OF stamping_mark stamping_after [OF stamping_branchTargets]]) (intro stamp_rules)
  have "stamping b 1 (bindV beginBranchTable (\<lambda>_. bindV (markBranchTableLabel (in_Index i)) (\<lambda>_.
       runV [branchTargets mv (vals v) dt (x_Indices (extOf i)), popAll mv dt, setUnreachable])))" for v dt
    using stamping_bind [OF stamping_beginBranchTable body] by simp
  then show ?thesis unfolding stepBrTable_def
    by (intro stamping_before [OF stampless_popExpect] stamping_before [OF stampless_basic(9)] stamping_before [OF stampless_basic(6)])
qed

lemma stamping_stepBlock: "stamping b n (runV body) \<Longrightarrow> stamping b n (stepBlock mv k ins outs body)"
  unfolding stepBlock_def run_append by (intro stamping_before stamping_after stamp_rules)

lemma stamping_stepTryTable: "stamping b n (runV body) \<Longrightarrow> stamping b n (stepTryTable mv i body)"
  unfolding stepTryTable_def run_append
  by (intro stamping_before [OF stampless_blockSig] stamping_split stamping_before stamping_single stamping_stepBlock stamp_rules)

lemma stamping_secondArm:
  assumes "stamping b n (runV els)"
  shows "stamping b n (secondArm mv ins outs els xs)"
  unfolding secondArm_def by (intro stamping_after stamping_cases stamping_stepBlock assms stamping_stampless stamp_rules)

text \<open>The second arm gets back the frames of the first; a counter that has only grown is not behind their stamps.\<close>

lemma stamping_stepArms:
  assumes thn: "stamping False n (runV thn)" and els: "stamping False m (runV els)"
  shows "stamping False (n + m) (stepArms mv ins outs thn els)"
proof (rule stampingI)
  fix v x v' assume v: "stamps_ok v" "stepArms mv ins outs thn els v = Inr (x, v')"
  then obtain w where w: "stepBlock mv ctrlIf ins outs thn v = Inr ((), w)"
      "secondArm mv ins outs els (vals w) (w\<lparr>vals := vals v, ctrls := ctrls v\<rparr>) = Inr (x, v')"
    by (auto simp: stepArms_def split: sum.splits)
  let ?m = "w\<lparr>vals := vals v, ctrls := ctrls v\<rparr>"
  have run: "stamps_ok v' \<and> branchTableEpoch v \<le> branchTableEpoch v' \<and> unat (branchTableEpoch v') \<le> unat (branchTableEpoch v) + (n + m)"
    if e: "unat (branchTableEpoch v) + (n + m) < 2 ^ 32"
  proof -
    have first: "branchTableEpoch v \<le> branchTableEpoch w \<and> unat (branchTableEpoch w) \<le> unat (branchTableEpoch v) + n"
      using stamping_result(2) [OF stamping_stepBlock [OF thn] v(1) w(1)] e by simp
    then have "stamps_ok ?m" using v(1) by (auto simp: stamps_ok_def intro: order_trans)
    moreover have "unat (branchTableEpoch ?m) + m < 2 ^ 32" using first e by simp
    ultimately show ?thesis using stamping_result [OF stamping_secondArm [OF els] _ w(2)] first by force
  qed
  show "stamps_ok v'" if "False \<or> unat (branchTableEpoch v) + (n + m) < 2 ^ 32" using run that by simp
  show "branchTableEpoch v \<le> branchTableEpoch v' \<and> unat (branchTableEpoch v') \<le> unat (branchTableEpoch v) + (n + m)"
    if "unat (branchTableEpoch v) + (n + m) < 2 ^ 32" using run that by simp
qed

lemma stamping_stepIf:
  "stamping False n (runV thn) \<Longrightarrow> stamping False m (runV els) \<Longrightarrow> stamping False (n + m) (stepIf mv i thn els)"
  unfolding stepIf_def runV.simps(2) [of "popExpect _ _"]
  by (intro stamping_before [OF stampless_blockSig] stamping_split stamping_before [OF stampless_popExpect] stamping_single stamping_stepArms)

section \<open>Every instruction\<close>

text \<open>The number of instructions in a tree, and whether one is an \<^verbatim>\<open>if\<close>.\<close>

function treeSize :: "Instruction \<Rightarrow> nat" where
  "treeSize i = 1 + sum_list (map treeSize (x_Body (extOf i))) + sum_list (map treeSize (x_Then (extOf i))) + sum_list (map treeSize (x_Else (extOf i)))"
  by pat_completeness auto
termination
  by (relation "measure size") (auto simp: nested_smaller)

function hasIf :: "Instruction \<Rightarrow> bool" where
  "hasIf i \<longleftrightarrow> in_Kind i = InstrIf \<or> list_ex hasIf (x_Body (extOf i)) \<or> list_ex hasIf (x_Then (extOf i)) \<or> list_ex hasIf (x_Else (extOf i))"
  by pat_completeness auto
termination
  by (relation "measure size") (auto simp: nested_smaller)

declare treeSize.simps [simp del] hasIf.simps [simp del]

lemma stampless_loads [stamp_rules]: "stampless (runV (map (\<lambda>t. checkV (f t)) ts))"
  by (intro stamp_rules)

lemma stamping_proposalStep:
  assumes "stamping b n (runV body)"
  shows "pred_option (stamping b n) (proposalStep mv i body)"
proof -
  have leaf: "pred_option (stamping b n) (Some f)" if "stampless f" for f using stamping_stampless [OF that] by simp
  have tryTable: "pred_option (stamping b n) (Some (stepTryTable mv i body))" using stamping_stepTryTable [OF assms] by simp
  show ?thesis unfolding proposalStep_def Let_def
    by (intro pred_option_if option.pred_inject(1); (rule tryTable | rule leaf, intro stamp_rules))
qed

lemma stamping_stepKind:
  assumes "stamping b n (runV body)" "in_Kind i = InstrIf \<Longrightarrow> \<not> b \<and> stamping False m (runV thn) \<and> stamping False l (runV els)"
  shows "stamping b (1 + n + m + l) (stepKind mv body thn els i)"
proof -
  let ?n = "1 + n + m + l"
  have body: "stamping b ?n (runV body)" using assms(1) by (rule stamping_mono) simp
  have "stamping b ?n (case proposalStep mv i body of Some f \<Rightarrow> f | None \<Rightarrow> stackEffect mv i)"
    using stamping_proposalStep [OF body, of mv i] stamping_stampless [OF stampless_stackEffect] by (cases "proposalStep mv i body") auto
  note default = stamping_cases [OF _ this]
  have table: "stamping b ?n (stepBrTable mv i)" by (rule stamping_mono [OF stamping_stepBrTable]) simp
  have cond: "stamping b ?n (stepIf mv i thn els)" if "in_Kind i = InstrIf"
    using assms(2) [OF that] stamping_mono [OF stamping_stepIf, of m thn l els ?n mv i] by auto
  have block: "stamping b ?n (bindV (blockSig mv (x_BlockType (extOf i))) (\<lambda>(ins, outs). stepBlock mv k ins outs body))" for k
    by (intro stamping_before [OF stampless_blockSig] stamping_split stamping_stepBlock body)
  show ?thesis unfolding stepKind_def Let_def
    by (intro default stamping_cases; (rule table | rule block | rule cond, assumption | rule stamping_stampless, intro stamp_rules))
qed

lemma stamping_stepNode:
  assumes "stamping b n (runV body)" "in_Kind i = InstrIf \<Longrightarrow> \<not> b \<and> stamping False m (runV thn) \<and> stamping False l (runV els)"
  shows "stamping b (1 + n + m + l) (stepNode mv body thn els i)"
proof -
  have load: "stamping b (1 + n + m + l) (if c then f else if d then g else stepKind mv body thn els i)"
    if "stampless f" "stampless g" for c d f g
    by (intro stamping_cases stamping_stampless [OF that(1)] stamping_stampless [OF that(2)] stamping_stepKind assms)
  show ?thesis unfolding stepNode_def Let_def runV.simps(2)
    by (intro stamping_cases stamping_stampless [OF stampless_basic(2)])
      (rule stamping_before, intro stamp_rules, rule stamping_before, intro stamp_rules, rule stamping_after, rule load, intro stamp_rules, intro stamp_rules, intro stamp_rules)
qed

lemma stamping_step: "(b \<Longrightarrow> \<not> hasIf i) \<Longrightarrow> stamping b (treeSize i) (step mv i)"
proof (induction mv i rule: step.induct)
  case (1 mv i)
  have inner: "b \<Longrightarrow> \<not> hasIf j" if "j \<in> set (x_Body (extOf i)) \<or> j \<in> set (x_Then (extOf i)) \<or> j \<in> set (x_Else (extOf i))" for j
    using 1(4) that hasIf.simps [of i] by (auto simp: list_ex_iff)
  have "\<not> b" if "in_Kind i = InstrIf" using 1(4) that hasIf.simps [of i] by auto
  then show ?case unfolding step.simps [of mv i] treeSize.simps [of i]
    using 1(1-3) inner by (intro stamping_stepNode) (auto intro: stamping_run_map)
qed

end
