(* ===== verification/BodyProps.thy ===== *)
theory BodyProps
  imports Stamps
begin

text \<open>
  What validating an instruction amounts to: a structured instruction exchanges its inputs for its results and
  restores everything else, \<^verbatim>\<open>array.new_fixed\<close> pops as many operands as it says, and \<^verbatim>\<open>br_table\<close>
  checks every target although it visits each frame once.
\<close>

section \<open>The net effect of structured instructions\<close>

text \<open>Checks do not change the state.\<close>

definition checks_only :: "'a vm \<Rightarrow> bool" where
  "checks_only f \<longleftrightarrow> (\<forall>v x v'. f v = Inr (x, v') \<longrightarrow> v' = v)"

lemma checks_only_result: "checks_only f \<Longrightarrow> f v = Inr (x, v') \<Longrightarrow> v' = v"
  by (auto simp: checks_only_def)

lemma checks_only_rules:
  "checks_only (returnV x)" "checks_only (failV c)" "checks_only (checkV r)" "checks_only (rejectV b c)" "checks_only (orFail z c)"
  "checks_only getV" "checks_only (label l)"
  by (auto simp: checks_only_def returnV_def failV_def checkV_def rejectV_def orFail_def getV_def label_cases Let_def
    split: sum.splits option.splits if_splits)

lemma checks_only_bind: "checks_only f \<Longrightarrow> (\<And>x. checks_only (k x)) \<Longrightarrow> checks_only (bindV f k)"
  unfolding checks_only_def bind_result by blast

lemma checks_only_run: "(\<And>f. f \<in> set fs \<Longrightarrow> checks_only f) \<Longrightarrow> checks_only (runV fs)"
  by (induction fs) (simp_all add: checks_only_rules checks_only_bind)

lemma checks_only_if: "checks_only f \<Longrightarrow> checks_only g \<Longrightarrow> checks_only (if b then f else g)"
  by simp

lemmas check_rules = checks_only_rules checks_only_bind checks_only_run checks_only_if

lemma checks_only_blockSig: "checks_only (blockSig mv bt)"
  by (cases "bt_Kind bt") (auto simp: blockSig_def intro!: check_rules)

lemma checks_only_catch: "checks_only (validateCatchPayload mv c)"
  unfolding validateCatchPayload_def Let_def by (intro check_rules)

lemma stepNode_kind:
  assumes "stepNode mv body thn els i v = Inr ((), v')" "oe_cat (opEffects (in_Kind i)) = effNone"
  shows "stepKind mv body thn els i v = Inr ((), v')"
proof -
  let ?c = "bindV getV (\<lambda>v. rejectV (constOnly v \<and> \<not> constAllowed mv (in_Kind i)) ErrConstExprRequired)"
    and ?t = "runV (map (\<lambda>t. checkV (validateValType (mv_m mv) t)) (in_ValTypes i))"
  have c: "checks_only ?c" and t: "checks_only ?t" by (auto intro!: check_rules)
  have "runV [?c, ?t, stepKind mv body thn els i] v = Inr ((), v')"
    using assms by (simp add: stepNode_def Let_def failV_def split: if_splits)
  then obtain v1 v2 where "?c v = Inr ((), v1)" "?t v1 = Inr ((), v2)" "stepKind mv body thn els i v2 = Inr ((), v')"
    by (auto simp: bind_result returnV_def)
  then show ?thesis using checks_only_result [OF c] checks_only_result [OF t] by metis
qed

lemma stepArms_result:
  assumes v: "stack_ok v" "ctrls v \<noteq> []" and thn: "framed (runV thn)" and els: "framed (runV els)"
    and r: "stepArms mv ins outs thn els v = Inr ((), v')"
  shows "poppable mv ins v \<and> block_done ins outs v v'"
proof -
  obtain w where w: "stepBlock mv ctrlIf ins outs thn v = Inr ((), w)"
      "secondArm mv ins outs els (vals w) (w\<lparr>vals := vals v, ctrls := ctrls v\<rparr>) = Inr ((), v')"
    using r by (auto simp: stepArms_def split: sum.splits)
  let ?m = "w\<lparr>vals := vals v, ctrls := ctrls v\<rparr>"
  have bd: "stack_ok w" "poppable mv ins v" "block_done ins outs v w" using stepBlock_result [OF v thn, of mv ins outs ctrlIf] w(1) by simp_all
  have m: "stack_ok ?m" "ctrls ?m \<noteq> []" using second_arm [OF v bd(1,3)] v(2) by simp_all
  obtain u where u: "(if els \<noteq> [] then stepBlock mv ctrlIf ins outs els else rejectV (\<not> matchValTypes mv ins outs) ErrTypeMismatch) ?m = Inr ((), u)"
      "v' = u\<lparr>vals := vals w\<rparr>"
    using w(2) by (auto simp: secondArm_def bind_result getV_def rejectV_def failV_def returnV_def restoreVals_def split: if_splits)
  have "map frame_core (ctrls u) = map frame_core (ctrls v) \<and> localInitLog u = localInitLog w \<and> initializedLocals u = initializedLocals w \<and> same_setting w u"
  proof (cases "els = []")
    case True
    then have "u = ?m" using u(1) by (auto simp: rejectV_def failV_def returnV_def split: if_splits)
    then show ?thesis by (simp add: same_setting_def)
  next
    case False
    then have "block_done ins outs ?m u" using stepBlock_result [OF m els, of mv ins outs ctrlIf] u(1) by simp
    then show ?thesis by (simp add: block_done_def same_setting_def)
  qed
  then show ?thesis using bd by (simp add: u(2) block_done_def same_setting_def)
qed

lemma condition_popped:
  assumes v: "stack_ok v" "ctrls v \<noteq> []" and c: "popExpect mv t v = Inr ((), v1)" and b: "poppable mv ins v1 \<and> block_done ins outs v1 v'"
  shows "poppable mv (ins @ [t]) v \<and> block_done (ins @ [t]) outs v v'"
proof -
  have v1: "stack_ok v1" "kept v v1" using framed_result [OF framed_popExpect v c] by simp_all
  then have ne: "ctrls v1 \<noteq> []" using kept_height by blast
  obtain xs where xs: "v1 = v\<lparr>vals := xs\<rparr>" using c by (auto simp: popExpect_cases [OF v] split: if_splits) (metis funcValidator.surjective funcValidator.update_convs(1))
  have "popAll mv (ins @ [t]) v = popAll mv ins v1" using c by (simp add: popAll_snoc bindV_def)
  also have "\<dots> = Inr ((), v1\<lparr>vals := take (length (vals v1) - taken (length ins) v1) (vals v1)\<rparr>)"
    using b by (simp add: popAll_decides [OF v1(1) ne])
  finally have p: "poppable mv (ins @ [t]) v"
    "v\<lparr>vals := take (length (vals v) - taken (length (ins @ [t])) v) (vals v)\<rparr> = v1\<lparr>vals := take (length (vals v1) - taken (length ins) v1) (vals v1)\<rparr>"
    unfolding popAll_decides [OF v] by (auto split: if_splits)
  then have "take (length (vals v) - taken (length (ins @ [t])) v) (vals v) = take (length (vals v1) - taken (length ins) v1) (vals v1)"
    by (metis funcValidator.select_convs(1) funcValidator.surjective funcValidator.update_convs(1))
  then show ?thesis using b p(1) by (simp add: block_done_def same_setting_def xs)
qed

definition blockKinds :: "InstrKind list" where
  "blockKinds = [InstrBlock, InstrLoop, InstrIf, InstrTryTable]"

lemma blocks_no_effect: "k \<in> set blockKinds \<Longrightarrow> oe_cat (opEffects k) = effNone"
proof -
  have "list_all (\<lambda>k. oe_cat (opEffects k) = effNone) blockKinds" by code_simp
  then show "k \<in> set blockKinds \<Longrightarrow> oe_cat (opEffects k) = effNone" by (simp add: list_all_iff)
qed

lemma stepKind_block:
  assumes "in_Kind i \<in> set blockKinds"
  shows "stepKind mv body thn els i =
    (if in_Kind i = InstrIf then stepIf mv i thn els
     else if in_Kind i = InstrTryTable then stepTryTable mv i body
     else bindV (blockSig mv (x_BlockType (extOf i))) (\<lambda>(ins, outs). stepBlock mv (if in_Kind i = InstrLoop then ctrlLoop else ctrlBlock) ins outs body))"
proof -
  consider "in_Kind i = InstrBlock" | "in_Kind i = InstrLoop" | "in_Kind i = InstrIf" | "in_Kind i = InstrTryTable"
    using assms by (auto simp: blockKinds_def)
  then show ?thesis
  proof cases
    case 1 then show ?thesis by (simp add: stepKind_def)
  next
    case 2 then show ?thesis by (simp add: stepKind_def)
  next
    case 3 then show ?thesis by (simp add: stepKind_def)
  next
    case 4 then show ?thesis by (simp add: stepKind_def proposalStep_def)
  qed
qed

lemma blockSig_bind:
  assumes "bindV (blockSig mv bt) k v = Inr (y, v')"
  obtains ins outs where "blockSig mv bt v = Inr ((ins, outs), v)" "k (ins, outs) v = Inr (y, v')"
proof -
  obtain sg v1 where s: "blockSig mv bt v = Inr (sg, v1)" "k sg v1 = Inr (y, v')" using assms by (auto simp: bind_result)
  have "v1 = v" by (rule checks_only_result [OF checks_only_blockSig s(1)])
  then show ?thesis using s by (cases sg) (auto intro: that)
qed

lemma catches_checked:
  assumes "runV (map (validateCatchPayload mv) cs @ [f]) v = Inr ((), v')"
  shows "f v = Inr ((), v')"
proof -
  obtain v1 where s: "runV (map (validateCatchPayload mv) cs) v = Inr ((), v1)" "f v1 = Inr ((), v')"
    using assms by (auto simp: run_append bind_result returnV_def)
  have "checks_only (runV (map (validateCatchPayload mv) cs))" by (rule checks_only_run) (auto simp: checks_only_catch)
  then have "v1 = v" using s(1) by (rule checks_only_result)
  then show ?thesis using s(2) by simp
qed

lemma stepKind_block_done:
  assumes v: "stack_ok v" "ctrls v \<noteq> []" and k: "in_Kind i \<in> set blockKinds"
    and framed: "framed (runV body)" "framed (runV thn)" "framed (runV els)"
    and r: "stepKind mv body thn els i v = Inr ((), v')"
  shows "\<exists>ins outs. blockSig mv (x_BlockType (extOf i)) v = Inr ((ins, outs), v) \<and>
    (let used = ins @ (if in_Kind i = InstrIf then [I32] else []) in poppable mv used v \<and> block_done used outs v v')"
proof -
  let ?sig = "blockSig mv (x_BlockType (extOf i))"
  have block: "poppable mv ins v \<and> block_done ins outs v v'" if "stepBlock mv kind ins outs body v = Inr ((), v')" for kind ins outs
    using stepBlock_result [OF v framed(1), of mv ins outs kind] that by simp
  show ?thesis
  proof (cases "in_Kind i = InstrIf")
    case True
    then have "stepIf mv i thn els v = Inr ((), v')" using r unfolding stepKind_block [OF k] by simp
    then obtain ins outs where sg: "?sig v = Inr ((ins, outs), v)" "runV [popExpect mv I32, stepArms mv ins outs thn els] v = Inr ((), v')"
      unfolding stepIf_def by (rule blockSig_bind) simp
    then obtain v1 where s: "?sig v = Inr ((ins, outs), v)" "popExpect mv I32 v = Inr ((), v1)" "stepArms mv ins outs thn els v1 = Inr ((), v')"
      by (auto simp: bind_result returnV_def)
    have v1: "stack_ok v1" "kept v v1" using framed_result [OF framed_popExpect v s(2)] by simp_all
    have "poppable mv ins v1 \<and> block_done ins outs v1 v'"
      using stepArms_result [OF v1(1) _ framed(2,3) s(3)] kept_height [OF v1(2)] by simp
    then show ?thesis using s(1) condition_popped [OF v s(2)] True by auto
  next
    case False
    have "\<exists>ins outs kind. ?sig v = Inr ((ins, outs), v) \<and> stepBlock mv kind ins outs body v = Inr ((), v')"
    proof (cases "in_Kind i = InstrTryTable")
      case True
      then have "stepTryTable mv i body v = Inr ((), v')" using r False unfolding stepKind_block [OF k] by simp
      then show ?thesis unfolding stepTryTable_def by (rule blockSig_bind) (auto dest: catches_checked)
    next
      case no_try: False
      then have "bindV ?sig (\<lambda>(ins, outs). stepBlock mv (if in_Kind i = InstrLoop then ctrlLoop else ctrlBlock) ins outs body) v = Inr ((), v')"
        using r False unfolding stepKind_block [OF k] by simp
      then show ?thesis by (rule blockSig_bind) auto
    qed
    then obtain ins outs kind where s: "?sig v = Inr ((ins, outs), v)" "stepBlock mv kind ins outs body v = Inr ((), v')" by blast
    then show ?thesis using block [OF s(2)] False by simp
  qed
qed

text \<open>
  C9. An accepted \<open>block\<close>, \<open>loop\<close>, \<open>if\<close> or \<open>try_table\<close>, whatever it contains, finds its inputs (and the condition of an
  \<open>if\<close>) on the stack, replaces them by its declared results, and leaves the operands below, the control frames and
  the set of initialized locals as they were.
\<close>

theorem block_net_effect:
  assumes "stack_ok v" "ctrls v \<noteq> []" and k: "in_Kind i \<in> set blockKinds" and r: "step mv i v = Inr ((), v')"
  shows "\<exists>ins outs. blockSig mv (x_BlockType (extOf i)) v = Inr ((ins, outs), v) \<and>
    (let used = ins @ (if in_Kind i = InstrIf then [I32] else []) in poppable mv used v \<and> block_done used outs v v')"
proof -
  have "stepKind mv (map (step mv) (x_Body (extOf i))) (map (step mv) (x_Then (extOf i))) (map (step mv) (x_Else (extOf i))) i v = Inr ((), v')"
    using r unfolding step.simps [of mv i] by (rule stepNode_kind) (rule blocks_no_effect [OF k])
  moreover have "framed (runV (map (step mv) js))" for js by (rule framed_run_map) (rule framed_step)
  ultimately show ?thesis using stepKind_block_done [OF assms(1-3)] by blast
qed

section \<open>The operands of \<open>array.new_fixed\<close>\<close>

lemma pops_decide:
  assumes "stack_ok v" "ctrls v \<noteq> []"
  shows "runV (replicate n (popExpect mv t)) v = popAll mv (replicate n t) v"
  by (simp add: popAll_def map_replicate rev_replicate)

text \<open>
  C12. \<open>array.new_fixed\<close> with \<open>n\<close> operands, which looks only at the operands that are there, gives the same verdict and the
  same state as popping \<open>n\<close> operands of the element type one by one, also in unreachable code.
\<close>

theorem array_new_fixed_pops:
  assumes "stack_ok v" "ctrls v \<noteq> []"
  shows "popFixed mv n t v = runV (replicate (unat n) (popExpect mv t)) v"
proof -
  let ?f = "last (ctrls v)"
  have h: "cf_height ?f \<le> length (vals v)" using assms stack_ok_height by simp
  let ?a = "length (vals v) - cf_height ?f"
  have fixed: "popFixed mv n t v = (if unat n > ?a \<and> \<not> cf_unreachable ?f then Inl (Invalid ErrTypeMismatch)
      else popAll mv (replicate (min (unat n) ?a) t) v)"
    using assms by (auto simp: popFixed_def bindV_def topFrame_def getV_def Let_def failV_def min_def pops_decide [OF assms])
  show ?thesis unfolding fixed pops_decide [OF assms] popAll_decides [OF assms]
    by (auto simp: poppable_def taken_def min_def)
qed

section \<open>Branch tables check every target\<close>

definition labelTypes :: "funcValidator \<Rightarrow> u32 \<Rightarrow> ValType list" where
  "labelTypes v l = (let f = ctrls v ! (length (ctrls v) - 1 - unat l) in if cf_kind f = ctrlLoop then cf_in f else cf_out f)"

definition target_ok :: "moduleValidator \<Rightarrow> ValType list \<Rightarrow> funcValidator \<Rightarrow> u32 \<Rightarrow> bool" where
  "target_ok mv dt v l \<longleftrightarrow> unat l < length (ctrls v) \<and> length (labelTypes v l) = length dt \<and> poppable mv (labelTypes v l) v"

definition stamped :: "funcValidator \<Rightarrow> u32 \<Rightarrow> bool" where
  "stamped v l \<longleftrightarrow> cf_branchTableEpoch (ctrls v ! (length (ctrls v) - 1 - unat l)) = branchTableEpoch v"

text \<open>A state with other stamps.\<close>

definition restamps :: "funcValidator \<Rightarrow> funcValidator \<Rightarrow> bool" where
  "restamps v v' \<longleftrightarrow> v' = v\<lparr>ctrls := ctrls v', branchTableEpoch := branchTableEpoch v'\<rparr> \<and> map frame_core (ctrls v') = map frame_core (ctrls v)"

lemma restampsI: "map frame_core fs = map frame_core (ctrls v) \<Longrightarrow> restamps v (v\<lparr>ctrls := fs, branchTableEpoch := e\<rparr>)"
  by (simp add: restamps_def)

lemma restamps_refl: "restamps v v"
  by (simp add: restamps_def)

lemma restamps_trans: "restamps v v' \<Longrightarrow> restamps v' v'' \<Longrightarrow> restamps v v''"
  by (cases v; cases v'; cases v'') (simp add: restamps_def)

lemma core_nth:
  assumes "map frame_core fs = map frame_core gs" "i < length gs"
  shows "cf_kind (fs ! i) = cf_kind (gs ! i)" "cf_in (fs ! i) = cf_in (gs ! i)" "cf_out (fs ! i) = cf_out (gs ! i)"
    "cf_height (fs ! i) = cf_height (gs ! i)" "cf_unreachable (fs ! i) = cf_unreachable (gs ! i)"
proof -
  have "frame_core (fs ! i) = frame_core (gs ! i)" using assms by (metis length_map nth_map)
  then show "cf_kind (fs ! i) = cf_kind (gs ! i)" "cf_in (fs ! i) = cf_in (gs ! i)" "cf_out (fs ! i) = cf_out (gs ! i)"
    "cf_height (fs ! i) = cf_height (gs ! i)" "cf_unreachable (fs ! i) = cf_unreachable (gs ! i)"
    by (cases "fs ! i"; cases "gs ! i"; simp add: frame_core_def)+
qed

lemma restamps_same:
  assumes "restamps v v'" "stack_ok v" "ctrls v \<noteq> []"
  shows "stack_ok v'" "ctrls v' \<noteq> []" "vals v' = vals v" "length (ctrls v') = length (ctrls v)"
    "labelTypes v' l = labelTypes v l" "poppable mv ts v' = poppable mv ts v" "target_ok mv dt v' l = target_ok mv dt v l"
proof -
  obtain fs e where v': "v' = v\<lparr>ctrls := fs, branchTableEpoch := e\<rparr>" "map frame_core fs = map frame_core (ctrls v)"
    using assms(1) unfolding restamps_def by blast
  note core = core_nth [OF v'(2)]
  have len: "length fs = length (ctrls v)" using v'(2) by (metis length_map)
  show "stack_ok v'" using restamped [OF assms(2,3) v'(2)] v'(1) by simp
  show "ctrls v' \<noteq> []" "vals v' = vals v" "length (ctrls v') = length (ctrls v)" using v'(1) len assms(3) by auto
  show l: "labelTypes v' l = labelTypes v l" for l
  proof -
    have "length (ctrls v) - 1 - unat l < length (ctrls v)" using assms(3) by (cases "ctrls v") auto
    then show ?thesis using core by (simp add: labelTypes_def v'(1) len Let_def)
  qed
  have last: "cf_height (last fs) = cf_height (last (ctrls v))" "cf_unreachable (last fs) = cf_unreachable (last (ctrls v))"
    using core(4,5) [of "length (ctrls v) - 1"] assms(3) len by (metis last_conv_nth length_0_conv diff_less length_greater_0_conv zero_less_one)+
  show p: "poppable mv ts v' = poppable mv ts v" for ts by (simp add: poppable_def taken_def v'(1) last)
  show "target_ok mv dt v' l = target_ok mv dt v l" unfolding target_ok_def l p by (simp add: v'(1) len)
qed

lemma markBranchTableLabel_result:
  assumes "unat l < length (ctrls v)"
  obtains v' where "markBranchTableLabel l v = Inr (\<not> stamped v l, v')" "restamps v v'" "branchTableEpoch v' = branchTableEpoch v"
    "\<And>l'. unat l' < length (ctrls v) \<Longrightarrow> stamped v' l' \<Longrightarrow> stamped v l' \<or> l' = l"
proof
  let ?i = "length (ctrls v) - 1 - unat l"
  let ?v = "v\<lparr>ctrls := (ctrls v)[?i := (ctrls v ! ?i)\<lparr>cf_branchTableEpoch := branchTableEpoch v\<rparr>]\<rparr>"
  show "markBranchTableLabel l v = Inr (\<not> stamped v l, ?v)" by (simp add: markBranchTableLabel_inside [OF assms] stamped_def Let_def)
  show "restamps v ?v" using core_update [of "ctrls v"] by (simp add: restamps_def)
  show "branchTableEpoch ?v = branchTableEpoch v" by simp
  fix l' assume l': "unat l' < length (ctrls v)" "stamped ?v l'"
  have "length (ctrls v) - 1 - unat l' = ?i \<Longrightarrow> unat l' = unat l" using l'(1) assms by linarith
  then have "l' = l \<or> length (ctrls v) - 1 - unat l' \<noteq> ?i" using word_unat_eq_iff by blast
  then show "stamped v l' \<or> l' = l" using l'(2) by (auto simp: stamped_def)
qed

lemma branchTargets_result:
  assumes "stack_ok v" "ctrls v \<noteq> []" "poppable mv dt v" "\<And>l. unat l < length (ctrls v) \<Longrightarrow> stamped v l \<Longrightarrow> target_ok mv dt v l"
  shows "if \<forall>l \<in> set ls. target_ok mv dt v l then \<exists>v'. branchTargets mv (vals v) dt ls v = Inr ((), v') \<and> restamps v v'
    else \<exists>e. branchTargets mv (vals v) dt ls v = Inl e"
  using assms
proof (induction ls arbitrary: v)
  case Nil
  show ?case by (simp add: returnV_def restamps_refl)
next
  case (Cons l ls)
  show ?case
  proof (cases "unat l < length (ctrls v)")
    case False
    then show ?thesis by (simp add: target_ok_def bindV_def label_cases)
  next
    case True
    from markBranchTableLabel_result [OF True] obtain v1 where v1: "markBranchTableLabel l v = Inr (\<not> stamped v l, v1)" "restamps v v1"
      "\<And>l'. unat l' < length (ctrls v) \<Longrightarrow> stamped v1 l' \<Longrightarrow> stamped v l' \<or> l' = l" by metis
    note same = restamps_same [OF v1(2) Cons.prems(1,2)]
    have lab: "label l v = Inr (labelTypes v l, v)" using True by (simp add: label_cases labelTypes_def Let_def)
    have IH: "if \<forall>l \<in> set ls. target_ok mv dt v l then \<exists>v'. branchTargets mv (vals v) dt ls v1 = Inr ((), v') \<and> restamps v v'
      else \<exists>e. branchTargets mv (vals v) dt ls v1 = Inl e" if "target_ok mv dt v l"
    proof -
      have "target_ok mv dt v1 l'" if "unat l' < length (ctrls v1)" "stamped v1 l'" for l'
        using Cons.prems(4) v1(3) that \<open>target_ok mv dt v l\<close> same(4,7) by auto
      then show ?thesis using Cons.IH [OF same(1,2)] Cons.prems(3) same(3,6,7) restamps_trans [OF v1(2)] by (auto split: if_splits)
    qed
    have cut: "v1\<lparr>vals := vals v\<rparr> = v1" using same(3) by (metis funcValidator.surjective funcValidator.update_convs(1) funcValidator.select_convs(1))
    have run: "branchTargets mv (vals v) dt (l # ls) v = (if stamped v l then branchTargets mv (vals v) dt ls v1
        else if target_ok mv dt v l then branchTargets mv (vals v) dt ls v1 else Inl (Invalid ErrTypeMismatch))"
      using True same(3) by (auto simp: bindV_def lab v1(1) failV_def popAll_decides [OF same(1,2)] same(6) restoreVals_def target_ok_def cut)
    show ?thesis using IH run Cons.prems(4) [OF True] by auto
  qed
qed

lemma branchTargets_kept:
  assumes "stack_ok v" "ctrls v \<noteq> []" "vals v = payload" "branchTargets mv payload dt ls v = Inr ((), v')"
  shows "restamps v v'"
  using assms
proof (induction ls arbitrary: v)
  case Nil
  then show ?case by (simp add: returnV_def restamps_refl)
next
  case (Cons l ls)
  show ?case
  proof (cases "unat l < length (ctrls v)")
    case False
    then show ?thesis using Cons.prems(4) by (simp add: bindV_def label_cases)
  next
    case True
    from markBranchTableLabel_result [OF True] obtain v1 where v1: "markBranchTableLabel l v = Inr (\<not> stamped v l, v1)" "restamps v v1" by metis
    note same = restamps_same [OF v1(2) Cons.prems(1,2)]
    have cut: "v1\<lparr>vals := vals v\<rparr> = v1" using same(3) by (metis funcValidator.surjective funcValidator.update_convs(1) funcValidator.select_convs(1))
    have "branchTargets mv payload dt ls v1 = Inr ((), v')"
      using Cons.prems(3,4) True cut
      by (auto simp: bindV_def label_cases Let_def v1(1) failV_def popAll_decides [OF same(1,2)] restoreVals_def split: if_splits)
    then show ?thesis using Cons.IH [OF same(1,2)] Cons.prems(3) same(3) restamps_trans [OF v1(2)] by simp
  qed
qed

lemma beginBranchTable_result:
  assumes "stamps_ok v"
  obtains v' where "beginBranchTable v = Inr ((), v')" "restamps v v'" "\<And>l. unat l < length (ctrls v) \<Longrightarrow> \<not> stamped v' l"
proof
  let ?e = "branchTableEpoch v + 1"
  let ?fs = "if ?e = 0 then map (\<lambda>f. f\<lparr>cf_branchTableEpoch := 0\<rparr>) (ctrls v) else ctrls v"
  let ?v = "v\<lparr>ctrls := ?fs, branchTableEpoch := if ?e = 0 then 1 else ?e\<rparr>"
  show "beginBranchTable v = Inr ((), ?v)" by (simp add: beginBranchTable_def Let_def)
  have "map frame_core ?fs = map frame_core (ctrls v)" by (simp add: frame_core_def)
  then show "restamps v ?v" by (rule restampsI)
  fix l :: u32 assume l: "unat l < length (ctrls v)"
  let ?i = "length (ctrls v) - 1 - unat l"
  have "?i < length (ctrls v)" using l by linarith
  then have "cf_branchTableEpoch (ctrls v ! ?i) \<le> branchTableEpoch v" using assms by (simp add: stamps_ok_def)
  then have "?e \<noteq> 0 \<Longrightarrow> cf_branchTableEpoch (ctrls v ! ?i) \<noteq> ?e"
    using unatSuc [of "branchTableEpoch v"] by (auto simp: word_le_nat_alt add.commute)
  then show "\<not> stamped ?v l" using \<open>?i < length (ctrls v)\<close> by (simp add: stamped_def)
qed

lemma popped_unreachable:
  assumes v: "stack_ok v" "ctrls v \<noteq> []"
  shows "(\<exists>v'. runV [popAll mv dt, setUnreachable] v = Inr ((), v')) \<longleftrightarrow> poppable mv dt v"
proof (cases "poppable mv dt v")
  case True
  then obtain u where u: "popAll mv dt v = Inr ((), u)" using popAll_decides [OF v] by simp
  then have "stack_ok u" "ctrls u \<noteq> []" using framed_result [OF framed_popAll v u] kept_height by blast+
  then have "cf_height (last (ctrls u)) \<le> length (vals u)" using stack_ok_height by simp
  then show ?thesis using True u \<open>ctrls u \<noteq> []\<close> by (simp add: bindV_def setUnreachable_def topFrame_def returnV_def)
next
  case False
  then show ?thesis by (simp add: bindV_def popAll_decides [OF v])
qed

lemma table_body_result:
  assumes "stack_ok v" "ctrls v \<noteq> []" "\<And>l. unat l < length (ctrls v) \<Longrightarrow> stamped v l \<Longrightarrow> l = d" "dt = labelTypes v d" "unat d < length (ctrls v)"
  shows "(\<exists>v'. runV [branchTargets mv (vals v) dt ls, popAll mv dt, setUnreachable] v = Inr ((), v')) \<longleftrightarrow>
    (\<forall>l \<in> set (d # ls). target_ok mv dt v l)"
proof -
  have rest: "(\<exists>v''. runV [popAll mv dt, setUnreachable] v' = Inr ((), v'')) \<longleftrightarrow> poppable mv dt v" if "restamps v v'" for v'
    using restamps_same [OF that assms(1,2)] by (simp add: popped_unreachable del: runV.simps)
  show ?thesis
  proof (cases "poppable mv dt v")
    case True
    then have d: "target_ok mv dt v d" using assms(4,5) by (simp add: target_ok_def)
    then have t: "if \<forall>l \<in> set ls. target_ok mv dt v l then \<exists>v'. branchTargets mv (vals v) dt ls v = Inr ((), v') \<and> restamps v v'
      else \<exists>e. branchTargets mv (vals v) dt ls v = Inl e"
      using assms(3) by (intro branchTargets_result [OF assms(1,2) True]) auto
    show ?thesis
    proof (cases "\<forall>l \<in> set ls. target_ok mv dt v l")
      case good: True
      then obtain v' where v': "branchTargets mv (vals v) dt ls v = Inr ((), v')" "restamps v v'" using t by auto
      have "runV [branchTargets mv (vals v) dt ls, popAll mv dt, setUnreachable] v = runV [popAll mv dt, setUnreachable] v'"
        by (simp add: bindV_def v'(1))
      then show ?thesis using rest [OF v'(2)] True good d by simp
    next
      case False
      then obtain e where "branchTargets mv (vals v) dt ls v = Inl e" using t by (simp only: if_False) blast
      then show ?thesis using False by (simp add: bindV_def)
    qed
  next
    case False
    then have "\<not> target_ok mv dt v d" using assms(4) by (simp add: target_ok_def)
    moreover have "runV [branchTargets mv (vals v) dt ls, popAll mv dt, setUnreachable] v \<noteq> Inr ((), v')" for v'
    proof
      assume "runV [branchTargets mv (vals v) dt ls, popAll mv dt, setUnreachable] v = Inr ((), v')"
      then obtain u where "branchTargets mv (vals v) dt ls v = Inr ((), u)" "runV [popAll mv dt, setUnreachable] u = Inr ((), v')"
        unfolding runV.simps(2) [of "branchTargets mv (vals v) dt ls"] bind_result by (metis (full_types) unit.exhaust)
      then show False using rest [OF branchTargets_kept [OF assms(1,2) refl]] False by blast
    qed
    ultimately show ?thesis by simp
  qed
qed

lemma stepBrTable_accepts:
  assumes v: "stack_ok v" "ctrls v \<noteq> []" and st: "stamps_ok v" and c: "popExpect mv I32 v = Inr ((), v1)"
  shows "(\<exists>v'. stepBrTable mv i v = Inr ((), v')) \<longleftrightarrow>
    (\<forall>l \<in> set (in_Index i # x_Indices (extOf i)). target_ok mv (labelTypes v (in_Index i)) v1 l)"
proof -
  let ?d = "in_Index i" and ?ls = "x_Indices (extOf i)"
  have v1: "stack_ok v1" using framed_result [OF framed_popExpect v c] by simp
  have ctrls: "ctrls v1 = ctrls v" "branchTableEpoch v1 = branchTableEpoch v" using c by (auto simp: popExpect_cases [OF v] split: if_splits)
  have ne: "ctrls v1 \<noteq> []" and st1: "stamps_ok v1" and lt: "labelTypes v1 l = labelTypes v l" for l
    using v(2) st by (simp_all add: ctrls stamps_ok_def labelTypes_def)
  show ?thesis
  proof (cases "unat ?d < length (ctrls v1)")
    case False
    then show ?thesis by (simp add: target_ok_def stepBrTable_def bindV_def c label_cases)
  next
    case True
    obtain v2 where v2: "beginBranchTable v1 = Inr ((), v2)" "restamps v1 v2" "\<And>l. unat l < length (ctrls v1) \<Longrightarrow> \<not> stamped v2 l"
      using beginBranchTable_result [OF st1] by metis
    note same2 = restamps_same [OF v2(2) v1 ne]
    have "unat ?d < length (ctrls v2)" using True same2(4) by simp
    from markBranchTableLabel_result [OF this] obtain v3 where v3: "markBranchTableLabel ?d v2 = Inr (\<not> stamped v2 ?d, v3)" "restamps v2 v3"
      "\<And>l'. unat l' < length (ctrls v2) \<Longrightarrow> stamped v3 l' \<Longrightarrow> stamped v2 l' \<or> l' = ?d" by metis
    have r: "restamps v1 v3" using v2(2) v3(2) by (rule restamps_trans)
    note same = restamps_same [OF r v1 ne]
    have run: "stepBrTable mv i v = runV [branchTargets mv (vals v3) (labelTypes v ?d) ?ls, popAll mv (labelTypes v ?d), setUnreachable] v3"
      using True lt [of ?d] by (simp add: stepBrTable_def bindV_def c label_cases getV_def v2(1) v3(1) same(3) labelTypes_def Let_def)
    show ?thesis unfolding run same(7) [symmetric]
      by (rule table_body_result [OF same(1,2)]) (use v2(3) v3(3) same(4,5) same2(4) lt True in auto)
  qed
qed

text \<open>Where the second arm of an \<^verbatim>\<open>if\<close> starts.\<close>

lemma second_arm_stamps:
  assumes st: "stamps_ok v" and w: "stepBlock mv ctrlIf ins outs (map (step mv) js) v = Inr ((), w)"
    and e: "unat (branchTableEpoch v) + sum_list (map treeSize js) < 2 ^ 32"
  shows "stamps_ok (w\<lparr>vals := vals v, ctrls := ctrls v\<rparr>)"
proof -
  have "stamping False (sum_list (map treeSize js)) (stepBlock mv ctrlIf ins outs (map (step mv) js))"
    by (intro stamping_stepBlock stamping_run_map stamping_step) simp
  from stamping_result(2) [OF this st w e] show ?thesis using st by (auto simp: stamps_ok_def intro: order_trans)
qed

text \<open>
  C10. \<open>br_table\<close> skips labels whose frame carries the stamp of the current table. Where no frame carries a stamp ahead of the
  counter, as at the start of a function, it still accepts exactly when every label, the default one included, is in range, has
  as many types as the default, and finds its types on the stack, also when this table makes the counter wrap around. The
  states in which nested and following instructions are validated are again of that kind: after opening a frame, after an
  accepted instruction that contains no \<open>if\<close> or has fewer instructions than the counter has steps left, and, within that
  number, when the frames saved for the second arm of an \<open>if\<close> are put back.
\<close>

theorem br_table_checks_every_target:
  assumes "stack_ok v" "ctrls v \<noteq> []" and "stamps_ok v"
  shows "(popExpect mv I32 v = Inr ((), v1) \<longrightarrow>
      ((\<exists>v'. stepBrTable mv i v = Inr ((), v')) \<longleftrightarrow>
       (\<forall>l \<in> set (in_Index i # x_Indices (extOf i)). target_ok mv (labelTypes v (in_Index i)) v1 l))) \<and>
    (\<forall>k ins outs v'. pushCtrl mv k ins outs v = Inr ((), v') \<longrightarrow> stamps_ok v') \<and>
    (\<forall>j v'. step mv j v = Inr ((), v') \<and> (\<not> hasIf j \<or> unat (branchTableEpoch v) + treeSize j < 2 ^ 32) \<longrightarrow> stamps_ok v') \<and>
    (\<forall>ins outs js w. stepBlock mv ctrlIf ins outs (map (step mv) js) v = Inr ((), w) \<and>
       unat (branchTableEpoch v) + sum_list (map treeSize js) < 2 ^ 32 \<longrightarrow> stamps_ok (w\<lparr>vals := vals v, ctrls := ctrls v\<rparr>))"
proof (intro conjI allI impI; (elim conjE)?)
  show "(\<exists>v'. stepBrTable mv i v = Inr ((), v')) \<longleftrightarrow>
      (\<forall>l \<in> set (in_Index i # x_Indices (extOf i)). target_ok mv (labelTypes v (in_Index i)) v1 l)" if "popExpect mv I32 v = Inr ((), v1)"
    using assms that by (rule stepBrTable_accepts)
  show "stamps_ok v'" if "pushCtrl mv k ins outs v = Inr ((), v')" for k ins outs v'
    by (rule stamping_result(1) [OF stamping_stampless [OF stampless_pushCtrl] assms(3) that disjI1 [OF TrueI]])
  show "stamps_ok v'" if "step mv j v = Inr ((), v')" "\<not> hasIf j \<or> unat (branchTableEpoch v) + treeSize j < 2 ^ 32" for j v'
    by (rule stamping_result(1) [OF stamping_step assms(3) that(1), of "\<not> hasIf j"]) (use that(2) in simp_all)
  show "stamps_ok (w\<lparr>vals := vals v, ctrls := ctrls v\<rparr>)"
    if "stepBlock mv ctrlIf ins outs (map (step mv) js) v = Inr ((), w)" "unat (branchTableEpoch v) + sum_list (map treeSize js) < 2 ^ 32" for ins outs js w
    using assms(3) that by (rule second_arm_stamps)
qed

section \<open>Concrete bodies\<close>

definition bareValidator :: moduleValidator where
  "bareValidator = \<lparr>mv_m = emptyModule, mv_direct = None,
     mv_features = \<lparr>CompactImports = False, MultiMemory = False, ExtendedConstGlobals = False, GCConstExpr = False\<rparr>,
     mv_MaxFunctionLocals = 50000, mv_declaredFuncBits = [], mv_ancestry = ([], [])\<rparr>"

definition bodyStart :: "ValType list \<Rightarrow> ValType list \<Rightarrow> funcValidator" where
  "bodyStart xs outs = \<lparr>localParams = [], localRunList = [], localRunEnds = [], localLookupWork = 0, localCount = 0,
     vals = xs, ctrls = [\<lparr>cf_in = [], cf_out = outs, cf_height = 0, cf_initHeight = 0, cf_ifThenHeight = 0, cf_branchTableEpoch = 0,
       cf_kind = ctrlFunc, cf_unreachable = False, cf_ifSeenElse = False\<rparr>],
     initializedLocals = {}, localInitLog = [], constGlobalLimit = 0, branchTableEpoch = 0, constOnly = False\<rparr>"

lemma bodyStart_ok: "stack_ok (bodyStart xs outs)" "ctrls (bodyStart xs outs) \<noteq> []" "stamps_ok (bodyStart xs outs)"
  by (simp_all add: bodyStart_def stack_ok_def lookup_ok_def stamps_ok_def)

definition blockOf :: "InstrKind \<Rightarrow> ValType \<Rightarrow> Instruction list \<Rightarrow> Instruction" where
  "blockOf k t body = Instruction k 0 0 0 0 noCast (Some (instrExt (zeroBlockType\<lparr>bt_Kind := BlockVal, bt_Val := t\<rparr>) body [] [] [] [] [] zeroMemArg
     (replicate 16 0) zeroPacked zeroPacked zeroPacked))"

definition tableOf :: "u32 list \<Rightarrow> u32 \<Rightarrow> Instruction" where
  "tableOf ls d = Instruction InstrBrTable d 0 0 0 noCast (Some (instrExt zeroBlockType [] [] [] [] ls [] zeroMemArg
     (replicate 16 0) zeroPacked zeroPacked zeroPacked))"

text \<open>
  C8. Validating any instruction, nested bodies included, on a well-formed state never indexes out of a stack, and an accepted
  one keeps the stacks well-formed: operands and frames below the current one are untouched, the current frame changes only
  by becoming unreachable, and the log of initialized locals only grows.
\<close>

theorem step_stays_in_frame:
  assumes "stack_ok v" "ctrls v \<noteq> []"
  shows "case step mv i v of Inl e \<Rightarrow> e \<noteq> Panic | Inr (_, v') \<Rightarrow> stack_ok v' \<and> kept v v'"
  using framed_step [of mv i] assms by (simp add: framed_def)

theorem step_stays_in_frame_witness:
  "(let i = blockOf InstrLoop I32 [plainInstr InstrI32Const 0 0, plainInstr InstrUnreachable 0 0]; v = bodyStart [F64] [I64]
    in \<exists>v'. step bareValidator i v = Inr ((), v') \<and> stack_ok v' \<and> kept v v' \<and> vals v' = [F64, I32])"
proof -
  let ?i = "blockOf InstrLoop I32 [plainInstr InstrI32Const 0 0, plainInstr InstrUnreachable 0 0]" and ?v = "bodyStart [F64] [I64]"
  have "case step bareValidator ?i ?v of Inr (_, v') \<Rightarrow> vals v' = [F64, I32] | Inl _ \<Rightarrow> False" by code_simp
  then show ?thesis using step_stays_in_frame [OF bodyStart_ok(1,2) [of "[F64]" "[I64]"], of bareValidator ?i] by (auto simp: Let_def split: sum.splits)
qed

theorem block_net_effect_witness:
  "(let i = blockOf InstrBlock I32 [plainInstr InstrI32Const 0 0]; v = bodyStart [F64] [I64]
    in \<exists>v'. step bareValidator i v = Inr ((), v') \<and> (\<exists>ins outs. block_done ins outs v v'))"
proof -
  let ?i = "blockOf InstrBlock I32 [plainInstr InstrI32Const 0 0]" and ?v = "bodyStart [F64] [I64]"
  have "case step bareValidator ?i ?v of Inr (_, v') \<Rightarrow> True | Inl _ \<Rightarrow> False" by code_simp
  then obtain v' where v': "step bareValidator ?i ?v = Inr ((), v')" by (auto split: sum.splits)
  have k: "in_Kind ?i \<in> set blockKinds" by (simp add: blockOf_def blockKinds_def)
  from block_net_effect [OF bodyStart_ok(1,2) k v'] show ?thesis using v' by (auto simp: Let_def)
qed

theorem array_new_fixed_pops_witness:
  "popFixed bareValidator 2 I32 (bodyStart [I32, I32] []) = runV (replicate 2 (popExpect bareValidator I32)) (bodyStart [I32, I32] [])"
  using array_new_fixed_pops [OF bodyStart_ok(1,2) [of "[I32, I32]" "[]"], of bareValidator 2 I32] by simp

theorem br_table_checks_every_target_witness:
  "(let i = tableOf [0, 0] 0; v = bodyStart [F64, I32] [F64]
    in (\<exists>v'. stepBrTable bareValidator i v = Inr ((), v')) \<and> (\<exists>v'. step bareValidator i v = Inr ((), v') \<and> stamps_ok v'))"
proof -
  let ?i = "tableOf [0, 0] 0" and ?v = "bodyStart [F64, I32] [F64]"
  have c: "popExpect bareValidator I32 ?v = Inr ((), ?v\<lparr>vals := [F64]\<rparr>)" by code_simp
  have t: "\<forall>l \<in> set (in_Index ?i # x_Indices (extOf ?i)). target_ok bareValidator (labelTypes ?v (in_Index ?i)) (?v\<lparr>vals := [F64]\<rparr>) l" by code_simp
  have "case step bareValidator ?i ?v of Inr (_, v') \<Rightarrow> True | Inl _ \<Rightarrow> False" by code_simp
  then obtain v' where v': "step bareValidator ?i ?v = Inr ((), v')" by (auto split: sum.splits)
  have n: "\<not> hasIf ?i" by code_simp
  note w = br_table_checks_every_target [OF bodyStart_ok [of "[F64, I32]" "[F64]"], of bareValidator "?v\<lparr>vals := [F64]\<rparr>" ?i]
  have "\<exists>v'. stepBrTable bareValidator ?i ?v = Inr ((), v')" using conjunct1 [OF w] c t by blast
  moreover have "stamps_ok v'" using conjunct1 [OF conjunct2 [OF conjunct2 [OF w]]] v' n by blast
  ultimately show ?thesis using v' by (simp add: Let_def)
qed

section \<open>The counter wrapping around inside an if\<close>

text \<open>
  Beyond the bound of the last property. The function's frame carries the stamp 2 of an earlier table and the counter stands at
  its maximum. A table in the first arm of an \<^verbatim>\<open>if\<close> resets the stamps of the frames, and the frames saved before the arm come
  back with the old ones. The next table takes the stamp 2 and so does not look at the function's label, which has a result
  more than its default.
\<close>

definition ifOf :: "Instruction list \<Rightarrow> Instruction" where
  "ifOf thn = Instruction InstrIf 0 0 0 0 noCast (Some (instrExt zeroBlockType [] thn [] [] [] [] zeroMemArg
     (replicate 16 0) zeroPacked zeroPacked zeroPacked))"

definition beforeWrap :: funcValidator where
  "beforeWrap = (let v = bodyStart [I32] [F64]; f = hd (ctrls v)
     in v\<lparr>ctrls := [f\<lparr>cf_branchTableEpoch := 2\<rparr>, f\<lparr>cf_out := [], cf_kind := ctrlBlock\<rparr>], branchTableEpoch := - 1\<rparr>)"

lemma beforeWrap_ok: "stack_ok beforeWrap" "stamps_ok beforeWrap"
  by (simp_all add: beforeWrap_def bodyStart_def stack_ok_def lookup_ok_def stamps_ok_def Let_def)

lemma stale_stamp_hides_target:
  "(case runV [step bareValidator (ifOf [plainInstr InstrI32Const 0 0, tableOf [] 0]), step bareValidator (plainInstr InstrI32Const 0 0)] beforeWrap of
      Inr (_, v) \<Rightarrow> branchTableEpoch v = 1 \<and> (\<exists>f \<in> set (ctrls v). cf_branchTableEpoch f = 2) \<and>
        length (labelTypes v 1) \<noteq> length (labelTypes v 0) \<and>
        (case step bareValidator (tableOf [1] 0) v of Inr _ \<Rightarrow> True | Inl _ \<Rightarrow> False)
    | Inl _ \<Rightarrow> False)"
  by code_simp

end
