(* ===== verification/Spec2Isabelle.thy ===== *)
theory Spec2Isabelle
  imports Sections TypeSection FuncSubtypes BodyProps
begin

text \<open>
  A verification development for the WebAssembly front end of wago, an engine written in Go
  (paths below are relative to \<^verbatim>\<open>src/src/core/compiler/wasm\<close>).

  \<^bold>\<open>The program.\<close> A module arrives as bytes. Byte cursors read it; decoders turn its sections into
  packed types and module records within a memory budget; the instruction scanner finds the extent of
  every instruction of a body; lookups resolve indices through the type and import directories; the
  validator compares types, checks the declared supertypes, decides subtyping and runs every function body over
  stacks of operand types and control frames; the back end asks for
  canonical signatures and for the subtypes of a function type.

  \<^bold>\<open>Theories.\<close>
    \<^item> \<open>Prelude\<close>: errors as values (\<^verbatim>\<open>errors.go\<close>), the decoder monad \<open>rd\<close> that keeps the cursor on
      the error path, shared lemmas on words and lists, the named collections of rules.
    \<^item> \<open>Reader\<close>: the cursors \<^verbatim>\<open>reader\<close> (\<^verbatim>\<open>reader.go\<close>) and \<^verbatim>\<open>Reader\<close> (\<^verbatim>\<open>reader_export.go\<close>) with their
      LEB128 loops bit for bit, and the LEB128 writers of \<^verbatim>\<open>encode.go\<close>.
    \<^item> \<open>Leb\<close>: the LEB128 contract as the locale \<open>leb_decoder\<close>, interpreted on both cursors: they
      decode exactly the specified encodings, agree, and invert the writers.
    \<^item> \<open>Types\<close>: the two-word packed types of \<^verbatim>\<open>types.go\<close> (fields as bit ranges of 64-bit words), their
      constructors and accessors, equality (\<^verbatim>\<open>equal.go\<close>) and the module records.
    \<^item> \<open>Decode\<close>: the decoders of \<^verbatim>\<open>decode.go\<close> below the section level, the budget of
      \<^verbatim>\<open>decode_budget.go\<close> and the recursive-index pass of \<^verbatim>\<open>decode_recidx.go\<close>: every decoded value
      is well formed, the budget is charged the exact product, errors leave a cursor in bounds.
    \<^item> \<open>InstrKinds\<close>, \<open>Opcodes\<close>, \<open>Classify\<close>: instruction kinds, opcode tables and the scanners of
      \<^verbatim>\<open>bytecode_skip.go\<close> and \<^verbatim>\<open>bytecode_walk.go\<close>; skipping and classifying agree on every input.
    \<^item> \<open>Modules\<close>: the directories and lookups of \<^verbatim>\<open>module_helpers.go\<close>, shown to implement one index
      space per kind (locale \<open>import_space\<close>) and to resolve recursive indices (locale \<open>index_rewriting\<close>).
    \<^item> \<open>Sections\<close>: the section dispatcher \<^verbatim>\<open>decodeSection\<close> of \<^verbatim>\<open>decode.go\<close> and the name section of
      \<^verbatim>\<open>name_section_decode.go\<close>, whose readers share the budget of the section: the cursor contract for every section id,
      and what a custom section may change.
    \<^item> \<open>Signatures\<close>: canonical and structural function signatures of \<^verbatim>\<open>module_helpers.go\<close>.
    \<^item> \<open>TypeEquiv\<close>: the coinductive comparison \<^verbatim>\<open>typeIdxEquivalentWithState\<close> of
      \<^verbatim>\<open>validate_gc_helpers.go\<close> with its shared state and rollback; it always ends and decides the
      greatest relation closed under matching of whole recursive groups (locales \<open>comparer\<close> and
      \<open>terminating_comparer\<close>).
    \<^item> \<open>Subtyping\<close>: \<^verbatim>\<open>refSubtype\<close>, \<^verbatim>\<open>heapSubtype\<close> and the search through declared supertypes
      (locale \<open>supertype_search\<close>), shown equal to an inductive reference relation.
    \<^item> \<open>TypeSection\<close>: \<^verbatim>\<open>validateSubtypeMetadata\<close>: declarations, descriptors, the cycle check (locale
      \<open>cycle_visitor\<close>) and the interval numbering of \<^verbatim>\<open>buildSupertypeAncestry\<close>. Acceptance is
      characterised exactly, and on accepted sections subtyping is a preorder.
    \<^item> \<open>FuncSubtypes\<close>: the batch query \<^verbatim>\<open>FunctionSubtypeTypeIndexes\<close> over a compressed reversed graph,
      shown to return what the direct tests return.
    \<^item> \<open>Locals\<close>: the run-length encoded locals of a function and the adaptive lookup of \<^verbatim>\<open>validate.go\<close>
      (scan, work counter, lazily built index), shown to read the expanded list.
    \<^item> \<open>Effects\<close>: the tables of stack effects of numeric, vector and atomic instructions.
    \<^item> \<open>BodyState\<close>: the operand and control stacks of \<^verbatim>\<open>funcValidator\<close>, its log of initialized locals, and the
      contract \<open>framed\<close> of a step that stays in its control frame, closed under sequencing.
    \<^item> \<open>BodySteps\<close>: the validation of every instruction kind (\<^verbatim>\<open>validate_ops.go\<close>, \<^verbatim>\<open>validate_proposal.go\<close>) on
      instruction trees; \<open>BodySound\<close>: each of them is \<open>framed\<close>, so that no index leaves a
      stack; \<open>Stamps\<close>: which instructions keep the stamps of \<^verbatim>\<open>br_table\<close> consistent with their counter; \<open>BodyProps\<close>: the net
      effect of blocks, the verdict of \<^verbatim>\<open>br_table\<close>, the operands of \<^verbatim>\<open>array.new_fixed\<close>, and the case the stamps miss, a counter
      that wraps around inside the first arm of an \<^verbatim>\<open>if\<close>.

  \<^bold>\<open>State and errors.\<close> A cursor, a budget, a directory or a pair state is a record passed and returned.
  A Go error is a value of a sum type, and the cursor that the failing call leaves behind is kept. Go
  integers are words of their width, or \<open>int\<close> and \<open>nat\<close> where the code's bounds exclude wrap-around. The memo
  tables of the Go code (\<^verbatim>\<open>sync.Once\<close> directories, \<^verbatim>\<open>compCache\<close>) hold a function of the module and are
  modelled by that function.

  \<^bold>\<open>Fuel.\<close> Recursions that follow type indices take fuel, and \<open>None\<close> means that it ran out. The bounds are
  functions of the module: the comparison gets one unit for each pair of types and step, the supertype
  search one for each type, the cycle check one more than the number of types, and the interval walk twice
  that number. Each is proved enough for every module of fewer than \<open>2 ^ 32\<close> types, which is the
  range of the index type.

  \<^bold>\<open>Not modelled.\<close> The structured instruction decoder and the instruction encoder, because the scanners carry the
  same opcode tables and these need the whole instruction set again; the loop over the sections of a module with the table,
  global, element, code and data sections (\<^verbatim>\<open>validate_bytebacked.go\<close>); the module-level validator around type section
  and bodies; the SHA-256 keys of
  signatures, whose hash function is not in the repository; the code generators, machine-code encoders, the
  collector and the execution engine, whose correctness is relative to machine and operating-system
  semantics; the public API, plugins, profilers and command-line tools, which are glue over processes, locks and files.
\<close>

end
